theory Spec2Isabelle
  imports Complex_Main "HOL-Library.Word" "HOL-Library.Log_Nat" "HOL-Library.AList"
begin

section \<open>Values of the platform\<close>

text \<open>
  The signing code is TypeScript. Its byte buffers (\<open>Buffer\<close>, \<open>Uint8Array\<close>) are lists
  of 8-bit words, its strings are lists of characters, and every \<open>throw\<close> is a value
  \<open>Inl e\<close> of a sum type. \<open>Error msg\<close> is \<open>new Error(msg)\<close> of the source;
  \<open>RangeError\<close> is the error the platform raises for an out-of-range write or a
  number that is not an integer; \<open>DecimalError\<close> is decimal.js refusing its argument;
  \<open>InvalidArgument msg\<close> is the error of ethers for an argument it refuses (its code is
  \<open>INVALID_ARGUMENT\<close>), with the short message \<open>msg\<close>.
\<close>

type_synonym byte = "8 word"

datatype error = Error string | RangeError | DecimalError | InvalidArgument string

text \<open>
  A JavaScript number is an IEEE 754 binary64 value: not-a-number, one of the two
  infinities, negative zero, or a finite value \<open>Num q\<close> with \<open>q\<close> its exact rational
  value (\<open>Num 0\<close> is positive zero).
\<close>

datatype number = NaN | PosInfinity | NegInfinity | NegZero | Num rat

subsection \<open>Strings\<close>

definition startsWith :: "string \<Rightarrow> string \<Rightarrow> bool" where
  "startsWith str p = (take (length p) str = p)"

text \<open>\<open>str.slice(a, b)\<close> for \<open>0 \<le> a \<le> b\<close>, and \<open>str.slice(-k)\<close>.\<close>

definition str_slice :: "string \<Rightarrow> nat \<Rightarrow> nat \<Rightarrow> string" where
  "str_slice str a b = take (b - a) (drop a str)"

definition slice_last :: "string \<Rightarrow> nat \<Rightarrow> string" where
  "slice_last str k = drop (length str - k) str"

definition padStart :: "string \<Rightarrow> nat \<Rightarrow> char \<Rightarrow> string" where
  "padStart str n c = replicate (n - length str) c @ str"

definition dec_digit :: "nat \<Rightarrow> char" where
  "dec_digit d = ''0123456789'' ! d"

definition hex_digit :: "nat \<Rightarrow> char" where
  "hex_digit d = ''0123456789abcdef'' ! d"

text \<open>The decimal digits of a natural number, as a template string prints an integer.\<close>

fun show_nat :: "nat \<Rightarrow> string" where
  "show_nat n = (if n < 10 then [dec_digit n] else show_nat (n div 10) @ [dec_digit (n mod 10)])"

declare show_nat.simps [simp del]

text \<open>
  \<open>Number.prototype.toString(16)\<close> on an integer: lower-case hexadecimal digits, with a
  minus sign in front of a negative value.
\<close>

fun hex_of_nat :: "nat \<Rightarrow> string" where
  "hex_of_nat n = (if n < 16 then [hex_digit n] else hex_of_nat (n div 16) @ [hex_digit (n mod 16)])"

declare hex_of_nat.simps [simp del]

definition toString16 :: "int \<Rightarrow> string" where
  "toString16 i = (if i < 0 then CHR ''-'' # hex_of_nat (nat (- i)) else hex_of_nat (nat i))"

subsection \<open>Hexadecimal text and bytes\<close>

text \<open>The value of one hexadecimal character, in either case.\<close>

definition unhex :: "char \<Rightarrow> nat option" where
  "unhex c = (let k = (of_char c :: nat) in
     if 48 \<le> k \<and> k \<le> 57 then Some (k - 48)
     else if 97 \<le> k \<and> k \<le> 102 then Some (k - 87)
     else if 65 \<le> k \<and> k \<le> 70 then Some (k - 55)
     else None)"

text \<open>
  \<open>Buffer.from(str, 'hex')\<close>: two characters a byte; decoding stops, without an error,
  at the first pair that is not hexadecimal, and a single trailing character is dropped.
\<close>

fun hex_decode :: "string \<Rightarrow> byte list" where
  "hex_decode (a # b # rest) =
     (case (unhex a, unhex b) of
        (Some h, Some l) \<Rightarrow> word_of_nat (16 * h + l) # hex_decode rest
      | _ \<Rightarrow> [])"
| "hex_decode _ = []"

text \<open>The lower-case hexadecimal text of a byte string, two characters a byte.\<close>

fun hexlify :: "byte list \<Rightarrow> string" where
  "hexlify [] = []"
| "hexlify (b # bs) = hex_digit (unat b div 16) # hex_digit (unat b mod 16) # hexlify bs"

text \<open>
  \<open>keccak256\<close> of ethers and of viem: the digest of the bytes, returned as \<open>0x\<close> and its
  lower-case hexadecimal text. The digest function itself, \<open>K\<close>, is a parameter.
\<close>

definition keccak256 :: "(byte list \<Rightarrow> byte list) \<Rightarrow> byte list \<Rightarrow> string" where
  "keccak256 K data = ''0x'' @ hexlify (K data)"

subsection \<open>Integers in buffers\<close>

text \<open>\<open>BigInt(x)\<close> raises a RangeError unless the number is an integer.\<close>

definition BigInt :: "number \<Rightarrow> error + int" where
  "BigInt x =
     (case x of
        Num q \<Rightarrow> if of_int \<lfloor>q\<rfloor> = q then Inr \<lfloor>q\<rfloor> else Inl RangeError
      | NegZero \<Rightarrow> Inr 0
      | _ \<Rightarrow> Inl RangeError)"

text \<open>The eight bytes of an unsigned 64-bit integer, most significant first.\<close>

definition be64 :: "int \<Rightarrow> byte list" where
  "be64 k = map (\<lambda>i. word_of_int (k div 2 ^ (8 * i))) [7, 6, 5, 4, 3, 2, 1, 0]"

text \<open>The number a byte string holds, read most significant byte first.\<close>

definition be_value :: "byte list \<Rightarrow> nat" where
  "be_value bs = foldl (\<lambda>acc b. acc * 256 + unat b) 0 bs"

text \<open>
  \<open>buffer.writeBigUInt64BE(value, 0)\<close> on \<open>Buffer.alloc(8)\<close>: Node refuses a value outside
  \<open>0 .. 2^64 - 1\<close> with a RangeError.
\<close>

definition writeBigUInt64BE :: "int \<Rightarrow> error + byte list" where
  "writeBigUInt64BE k = (if 0 \<le> k \<and> k < 2 ^ 64 then Inr (be64 k) else Inl RangeError)"

text \<open>
  \<open>typedArray.set(source, offset)\<close>: the source overwrites the target from the offset
  on, and a source that does not fit raises a RangeError.
\<close>

definition typed_set :: "byte list \<Rightarrow> byte list \<Rightarrow> nat \<Rightarrow> error + byte list" where
  "typed_set target src off =
     (if length target < off + length src then Inl RangeError
      else Inr (take off target @ src @ drop (off + length src) target))"

text \<open>
  \<open>view.setBigUint64(offset, value)\<close>, big-endian; the value is reduced modulo \<open>2^64\<close>.
\<close>

definition setBigUint64 :: "byte list \<Rightarrow> nat \<Rightarrow> int \<Rightarrow> error + byte list" where
  "setBigUint64 view off k = typed_set view (be64 (k mod 2 ^ 64)) off"

definition setUint8 :: "byte list \<Rightarrow> nat \<Rightarrow> int \<Rightarrow> error + byte list" where
  "setUint8 view off k = typed_set view [word_of_int k] off"

section \<open>Numbers of the platform\<close>

subsection \<open>Rounding to binary64\<close>

text \<open>
  \<open>ilog2 q\<close> is the exponent of the power of two at or below a positive rational:
  \<open>2 ^ ilog2 q \<le> q < 2 ^ (ilog2 q + 1)\<close>.
\<close>

definition ilog2 :: "rat \<Rightarrow> int" where
  "ilog2 q =
     (let d = bitlen (fst (quotient_of q)) - bitlen (snd (quotient_of q))
      in if 2 powi d \<le> q then d else d - 1)"

text \<open>Rounding to the nearest integer, a tie going to the even one.\<close>

definition round_half_even :: "rat \<Rightarrow> int" where
  "round_half_even q =
     (let f = \<lfloor>q\<rfloor>; d = q - of_int f
      in if d < 1 / 2 then f
         else if 1 / 2 < d then f + 1
         else if even f then f else f + 1)"

text \<open>
  \<open>fl q\<close> is the binary64 number nearest to the rational \<open>q\<close> (IEEE 754
  round-to-nearest, ties to even): 53 significant bits, the least exponent \<open>-1074\<close>
  for subnormal values, an infinity from \<open>2^1024\<close> on, and a zero that keeps the sign.
\<close>

definition fl :: "rat \<Rightarrow> number" where
  "fl q =
     (if q = 0 then Num 0
      else
        (let e = max (ilog2 \<bar>q\<bar> - 52) (- 1074);
             y = of_int (round_half_even (\<bar>q\<bar> / 2 powi e)) * 2 powi e
         in if 2 ^ 1024 \<le> y then (if q < 0 then NegInfinity else PosInfinity)
            else if y = 0 then (if q < 0 then NegZero else Num 0)
            else Num (if q < 0 then - y else y)))"

subsection \<open>Arithmetic and comparison\<close>

text \<open>\<open>a - b\<close> on numbers: the exact difference, rounded; the IEEE rules for zeros,
  infinities and not-a-number.\<close>

fun num_sub :: "number \<Rightarrow> number \<Rightarrow> number" where
  "num_sub NaN _ = NaN"
| "num_sub _ NaN = NaN"
| "num_sub PosInfinity PosInfinity = NaN"
| "num_sub NegInfinity NegInfinity = NaN"
| "num_sub PosInfinity _ = PosInfinity"
| "num_sub NegInfinity _ = NegInfinity"
| "num_sub _ PosInfinity = NegInfinity"
| "num_sub _ NegInfinity = PosInfinity"
| "num_sub NegZero NegZero = Num 0"
| "num_sub NegZero (Num b) = (if b = 0 then NegZero else fl (- b))"
| "num_sub (Num a) NegZero = Num a"
| "num_sub (Num a) (Num b) = (if a = b then Num 0 else fl (a - b))"

text \<open>\<open>Math.abs\<close>.\<close>

fun Math_abs :: "number \<Rightarrow> number" where
  "Math_abs NaN = NaN"
| "Math_abs PosInfinity = PosInfinity"
| "Math_abs NegInfinity = PosInfinity"
| "Math_abs NegZero = Num 0"
| "Math_abs (Num a) = Num \<bar>a\<bar>"

text \<open>\<open>a >= b\<close>: false whenever either side is not-a-number.\<close>

fun num_ge :: "number \<Rightarrow> number \<Rightarrow> bool" where
  "num_ge NaN _ = False"
| "num_ge _ NaN = False"
| "num_ge PosInfinity _ = True"
| "num_ge _ NegInfinity = True"
| "num_ge NegInfinity _ = False"
| "num_ge _ PosInfinity = False"
| "num_ge NegZero NegZero = True"
| "num_ge NegZero (Num b) = (b \<le> 0)"
| "num_ge (Num a) NegZero = (0 \<le> a)"
| "num_ge (Num a) (Num b) = (b \<le> a)"

subsection \<open>Numbers and decimal text\<close>

definition is_digit :: "char \<Rightarrow> bool" where
  "is_digit c = (48 \<le> (of_char c :: nat) \<and> (of_char c :: nat) \<le> 57)"

definition nat_of_digits :: "string \<Rightarrow> nat" where
  "nat_of_digits str = foldl (\<lambda>acc c. 10 * acc + ((of_char c :: nat) - 48)) 0 str"

definition show_int :: "int \<Rightarrow> string" where
  "show_int i = (if i < 0 then CHR ''-'' # show_nat (nat (- i)) else show_nat (nat i))"

text \<open>
  The number a decimal numeral denotes: the sign, the digits as a natural number and
  the power of ten, correctly rounded; a zero keeps its sign.
\<close>

definition from_decimal :: "bool \<Rightarrow> nat \<Rightarrow> int \<Rightarrow> number" where
  "from_decimal neg n e10 =
     (if n = 0 then (if neg then NegZero else Num 0)
      else fl ((if neg then - 1 else 1) * of_nat n * 10 powi e10))"

text \<open>
  An exponent part \<open>e\<close>, an optional sign and at least one digit at the head of a
  string: its value and the rest of the string. Without one, the value is 0 and the
  string is left as it is.
\<close>

definition exponent_part :: "string \<Rightarrow> int \<times> string" where
  "exponent_part str =
     (if take 1 str = ''e'' \<or> take 1 str = ''E'' then
        (let t = drop 1 str;
             neg = (take 1 t = ''-'');
             u = (if take 1 t = ''-'' \<or> take 1 t = ''+'' then drop 1 t else t);
             ds = takeWhile is_digit u
         in if ds = [] then (0, str)
            else ((if neg then - int (nat_of_digits ds) else int (nat_of_digits ds)),
                  dropWhile is_digit u))
      else (0, str))"

text \<open>
  \<open>parseFloat\<close>: leading white space is skipped, the longest prefix that is a decimal
  literal (or \<open>Infinity\<close>) is read and whatever follows is ignored; no such prefix gives
  not-a-number.
\<close>

definition is_space :: "char \<Rightarrow> bool" where
  "is_space c = ((of_char c :: nat) \<in> {9, 10, 11, 12, 13, 32, 160})"

definition parseFloat :: "string \<Rightarrow> number" where
  "parseFloat str =
     (let t = dropWhile is_space str;
          neg = (take 1 t = ''-'');
          u = (if take 1 t = ''-'' \<or> take 1 t = ''+'' then drop 1 t else t)
      in if startsWith u ''Infinity'' then (if neg then NegInfinity else PosInfinity)
         else
           (let ip = takeWhile is_digit u;
                r1 = dropWhile is_digit u;
                fp = (if take 1 r1 = ''.'' then takeWhile is_digit (drop 1 r1) else []);
                r2 = (if take 1 r1 = ''.'' then dropWhile is_digit (drop 1 r1) else r1)
            in if ip = [] \<and> fp = [] then NaN
               else from_decimal neg (nat_of_digits (ip @ fp))
                      (fst (exponent_part r2) - int (length fp))))"

text \<open>
  \<open>Number::toString\<close> for a finite number from \<open>10^21\<close> on, where it is in exponent
  notation: the fewest digits \<open>k\<close> such that some \<open>k\<close>-digit decimal rounds to the
  number, and of those decimals the one nearest to it. \<open>digits_for x k\<close> tries \<open>k\<close>
  digits: the decimal below and the one above.
\<close>

definition ilog10 :: "rat \<Rightarrow> int" where
  "ilog10 q = int (floorlog 10 (nat \<lfloor>q\<rfloor>)) - 1"

definition digits_for :: "rat \<Rightarrow> nat \<Rightarrow> (nat \<times> int) option" where
  "digits_for x k =
     (let e10 = ilog10 x;
          unit = 10 powi (e10 - int k + 1);
          lo = nat \<lfloor>x / unit\<rfloor>;
          hi = lo + 1;
          lo_ok = (fl (of_nat lo * unit) = Num x);
          hi_ok = (fl (of_nat hi * unit) = Num x);
          pick = (if lo_ok \<and> hi_ok
                  then (if x - of_nat lo * unit < of_nat hi * unit - x then lo
                        else if of_nat hi * unit - x < x - of_nat lo * unit then hi
                        else if even lo then lo else hi)
                  else if lo_ok then lo else hi)
      in if \<not> lo_ok \<and> \<not> hi_ok then None
         else if pick = 10 ^ k then Some (10 ^ (k - 1), e10 + 2)
         else Some (pick, e10 + 1))"

fun shortest_digits :: "rat \<Rightarrow> nat \<Rightarrow> nat \<Rightarrow> nat \<times> int" where
  "shortest_digits x k 0 = (nat \<lfloor>x / 10 powi (ilog10 x - int k + 1)\<rfloor>, ilog10 x + 1)"
| "shortest_digits x k (Suc fuel) =
     (case digits_for x k of
        Some found \<Rightarrow> found
      | None \<Rightarrow> shortest_digits x (Suc k) fuel)"

definition toString_large :: "rat \<Rightarrow> string" where
  "toString_large x =
     (let found = shortest_digits x 1 17;
          ds = show_nat (fst found);
          n = snd found
      in (if length ds = 1 then ds else take 1 ds @ ''.'' @ drop 1 ds)
           @ ''e+'' @ show_int (n - 1))"

text \<open>
  \<open>x.toFixed(f)\<close> for \<open>f\<close> from 0 to 100: \<open>n\<close> is the integer for which \<open>n / 10^f\<close> is
  nearest to the magnitude of \<open>x\<close>, the larger one of two; its digits are padded with
  zeros to more than \<open>f\<close> digits and the point goes before the last \<open>f\<close>. Negative zero
  prints without a sign, and a magnitude from \<open>10^21\<close> on prints as \<open>Number::toString\<close>
  does.
\<close>

definition fixed_digits :: "nat \<Rightarrow> nat \<Rightarrow> string" where
  "fixed_digits n f =
     (let m0 = show_nat n;
          m = (if f \<noteq> 0 \<and> length m0 \<le> f then replicate (f + 1 - length m0) (CHR ''0'') @ m0
               else m0);
          k = length m
      in if f \<noteq> 0 then take (k - f) m @ ''.'' @ drop (k - f) m else m)"

definition toFixed :: "number \<Rightarrow> nat \<Rightarrow> string" where
  "toFixed x f =
     (case x of
        NaN \<Rightarrow> ''NaN''
      | PosInfinity \<Rightarrow> ''Infinity''
      | NegInfinity \<Rightarrow> ''-Infinity''
      | NegZero \<Rightarrow> fixed_digits 0 f
      | Num q \<Rightarrow>
          (if q < 0 then ''-'' else '''') @
          (if 10 ^ 21 \<le> \<bar>q\<bar> then toString_large \<bar>q\<bar>
           else fixed_digits (nat \<lfloor>\<bar>q\<bar> * 10 ^ f + 1 / 2\<rfloor>) f))"

section \<open>Decimals of decimal.js\<close>

text \<open>
  A \<open>Decimal\<close> is not-a-number, an infinity with its sign, or a finite value: a sign
  (\<open>True\<close> for negative), the significant digits without leading or trailing zeros
  (the single digit \<open>0\<close> for zero), and the exponent of the first digit.
\<close>

datatype Decimal = DNaN | DInfinity bool | DFinite bool string int

definition is_zero_digit :: "char \<Rightarrow> bool" where
  "is_zero_digit c = (c = CHR ''0'')"

definition strip_zeros :: "string \<Rightarrow> string" where
  "strip_zeros str = rev (dropWhile is_zero_digit (rev (dropWhile is_zero_digit str)))"

text \<open>
  The numerals the constructor reads as decimals, its regular expression
  \<open>/^(\d+(\.\d*)?|\.\d+)(e[+-]?\d+)?$/i\<close>: digits with an optional point and fraction, or
  a point and a fraction, then an optional exponent, and nothing else.
\<close>

definition isDecimal :: "string \<Rightarrow> bool" where
  "isDecimal str =
     (let ip = takeWhile is_digit str;
          r1 = dropWhile is_digit str;
          fp = (if take 1 r1 = ''.'' then takeWhile is_digit (drop 1 r1) else []);
          r2 = (if take 1 r1 = ''.'' then dropWhile is_digit (drop 1 r1) else r1)
      in (ip \<noteq> [] \<or> fp \<noteq> []) \<and> (r2 = [] \<or> (r2 \<noteq> snd (exponent_part r2) \<and> snd (exponent_part r2) = [])))"

text \<open>
  \<open>parseDecimal\<close>: the point is taken out, the exponent is read, leading and trailing
  zeros are dropped; \<open>e\<close> counts the digits before the point plus the written exponent,
  and the exponent of the first significant digit is \<open>e - i - 1\<close> for \<open>i\<close> leading zeros.
  Beyond the exponent limit \<open>9e15\<close> the value is an infinity or a zero.
\<close>

definition parseDecimal :: "bool \<Rightarrow> string \<Rightarrow> Decimal" where
  "parseDecimal neg str =
     (let ip = takeWhile is_digit str;
          r1 = dropWhile is_digit str;
          fp = (if take 1 r1 = ''.'' then takeWhile is_digit (drop 1 r1) else []);
          r2 = (if take 1 r1 = ''.'' then dropWhile is_digit (drop 1 r1) else r1);
          e = int (length ip) + fst (exponent_part r2);
          ds = ip @ fp;
          i = length (takeWhile is_zero_digit ds);
          sig = strip_zeros ds
      in if sig = [] then DFinite neg ''0'' 0
         else if 9000000000000000 < e - int i - 1 then DInfinity neg
         else if e - int i - 1 < - 9000000000000000 then DFinite neg ''0'' 0
         else DFinite neg sig (e - int i - 1))"

text \<open>
  \<open>new Decimal(str)\<close> on a string: an optional minus sign, then a decimal numeral,
  \<open>Infinity\<close> or \<open>NaN\<close>. A plus sign, digit separators and binary, octal and
  hexadecimal literals, which versions of the library read as well, are outside this
  model (\<open>toFixed\<close> never prints one) and are refused like every other text.
\<close>

definition Decimal_new :: "string \<Rightarrow> error + Decimal" where
  "Decimal_new str =
     (let neg = (take 1 str = ''-'');
          u = (if neg then drop 1 str else str)
      in if isDecimal u then Inr (parseDecimal neg u)
         else if u = ''Infinity'' then Inr (DInfinity neg)
         else if u = ''NaN'' then Inr DNaN
         else Inl DecimalError)"

text \<open>
  \<open>toString\<close> with the default configuration: exponent notation when the exponent is
  at most \<open>toExpNeg = -7\<close> or at least \<open>toExpPos = 21\<close>, plain notation between; the
  minus sign only on a negative value that is not zero.
\<close>

definition finiteToString :: "string \<Rightarrow> int \<Rightarrow> bool \<Rightarrow> string" where
  "finiteToString ds e isExp =
     (if isExp then
        (if 1 < length ds then take 1 ds @ ''.'' @ drop 1 ds else ds)
          @ (if e < 0 then ''e'' else ''e+'') @ show_int e
      else if e < 0 then ''0.'' @ replicate (nat (- e - 1)) (CHR ''0'') @ ds
      else if int (length ds) \<le> e then ds @ replicate (nat (e + 1) - length ds) (CHR ''0'')
      else if nat (e + 1) < length ds then take (nat (e + 1)) ds @ ''.'' @ drop (nat (e + 1)) ds
      else ds)"

definition Decimal_toString :: "Decimal \<Rightarrow> string" where
  "Decimal_toString d =
     (case d of
        DNaN \<Rightarrow> ''NaN''
      | DInfinity neg \<Rightarrow> (if neg then ''-Infinity'' else ''Infinity'')
      | DFinite neg ds e \<Rightarrow>
          (if neg \<and> ds \<noteq> ''0'' then ''-'' else '''')
            @ finiteToString ds e (e \<le> - 7 \<or> 21 \<le> e))"

section \<open>The signing module\<close>

subsection \<open>Client order ids\<close>

text \<open>
  The class \<open>Cloid\<close>: the constructor stores the string and validates it; \<open>Cloid_new\<close> is
  \<open>new Cloid(rawCloid)\<close>.
\<close>

datatype Cloid = Cloid (toRaw: string)

definition Cloid_new :: "string \<Rightarrow> error + Cloid" where
  "Cloid_new rawCloid =
     (if \<not> startsWith rawCloid ''0x'' then Inl (Error ''cloid is not a hex string'')
      else if length (drop 2 rawCloid) \<noteq> 32 then Inl (Error ''cloid is not 16 bytes'')
      else Inr (Cloid rawCloid))"

definition fromInt :: "int \<Rightarrow> error + Cloid" where
  "fromInt cloid = Cloid_new (''0x'' @ padStart (toString16 cloid) 32 (CHR ''0''))"

definition fromStr :: "string \<Rightarrow> error + Cloid" where
  "fromStr cloid = Cloid_new cloid"

subsection \<open>The action hash\<close>

definition addressToBytes :: "string \<Rightarrow> byte list" where
  "addressToBytes address = hex_decode (if startsWith address ''0x'' then drop 2 address else address)"

definition nonceToBytes :: "number \<Rightarrow> error + byte list" where
  "nonceToBytes nonce =
     (case BigInt nonce of
        Inl e \<Rightarrow> Inl e
      | Inr bigIntNonce \<Rightarrow> writeBigUInt64BE bigIntNonce)"

text \<open>
  \<open>actionHash\<close> of the signing module. The msgpack encoder \<open>encode\<close> is a parameter; it
  may refuse an action. The routing address is \<open>None\<close> for \<open>null\<close>.
\<close>

definition actionHash ::
  "(byte list \<Rightarrow> byte list) \<Rightarrow> ('a \<Rightarrow> error + byte list) \<Rightarrow> 'a \<Rightarrow> string option \<Rightarrow> number
     \<Rightarrow> error + byte list" where
  "actionHash K encode action vaultAddress nonce =
     (case nonceToBytes nonce of
        Inl e \<Rightarrow> Inl e
      | Inr nonceBytes \<Rightarrow>
         (case encode action of
            Inl e \<Rightarrow> Inl e
          | Inr packed \<Rightarrow>
             (let data = packed @ nonceBytes @
                    (case vaultAddress of
                       None \<Rightarrow> [0]
                     | Some address \<Rightarrow> [1] @ addressToBytes address)
              in Inr (hex_decode (drop 2 (keccak256 K data))))))"

text \<open>
  \<open>hashAction\<close> of Signing.tsx builds the same input in a zero-filled array of
  \<open>msgPackBytes.length + 9\<close> or \<open>+ 29\<close> bytes and returns the digest as hexadecimal text.
\<close>

definition hashAction ::
  "(byte list \<Rightarrow> byte list) \<Rightarrow> ('a \<Rightarrow> error + byte list) \<Rightarrow> 'a \<Rightarrow> string option \<Rightarrow> number
     \<Rightarrow> error + string" where
  "hashAction K encode action vaultAddress nonce =
     (case encode action of
        Inl e \<Rightarrow> Inl e
      | Inr msgPackBytes \<Rightarrow>
         (let additionalBytesLength = (if vaultAddress = None then 9 else 29);
              fresh = replicate (length msgPackBytes + additionalBytesLength) 0
          in case typed_set fresh msgPackBytes 0 of
               Inl e \<Rightarrow> Inl e
             | Inr data1 \<Rightarrow>
                (case BigInt nonce of
                   Inl e \<Rightarrow> Inl e
                 | Inr bigIntNonce \<Rightarrow>
                    (case setBigUint64 data1 (length msgPackBytes) bigIntNonce of
                       Inl e \<Rightarrow> Inl e
                     | Inr data2 \<Rightarrow>
                        (case vaultAddress of
                           None \<Rightarrow>
                             (case setUint8 data2 (length msgPackBytes + 8) 0 of
                                Inl e \<Rightarrow> Inl e
                              | Inr data3 \<Rightarrow> Inr (keccak256 K data3))
                         | Some address \<Rightarrow>
                             (case setUint8 data2 (length msgPackBytes + 8) 1 of
                                Inl e \<Rightarrow> Inl e
                              | Inr data3 \<Rightarrow>
                                 (case typed_set data3 (addressToBytes address)
                                         (length msgPackBytes + 9) of
                                    Inl e \<Rightarrow> Inl e
                                  | Inr data4 \<Rightarrow> Inr (keccak256 K data4))))))))"

text \<open>
  The address text the specification asks for: an optional \<open>0x\<close>, then exactly 40
  hexadecimal characters.
\<close>

definition well_formed_address :: "string \<Rightarrow> bool" where
  "well_formed_address address =
     (let hex = (if startsWith address ''0x'' then drop 2 address else address)
      in length hex = 40 \<and> list_all (\<lambda>c. unhex c \<noteq> None) hex)"

subsection \<open>The phantom agent and its signature\<close>

text \<open>
  The typed-data domain and the schema of the \<open>Agent\<close> message: the object \<open>domain\<close>
  and \<open>types\<close> of \<open>signL1Action\<close>, and \<open>phantomDomain\<close> and \<open>agentTypes\<close> of Signing.tsx,
  which hold the same values. A schema lists, for a type name, its fields as pairs of
  \<open>name\<close> and \<open>type\<close>.
\<close>

record Domain =
  name :: string
  version :: string
  chainId :: nat
  verifyingContract :: string

type_synonym TypeSchema = "(string \<times> (string \<times> string) list) list"

definition phantomDomain :: Domain where
  "phantomDomain =
     \<lparr>name = ''Exchange'', version = ''1'', chainId = 1337,
      verifyingContract = ''0x0000000000000000000000000000000000000000''\<rparr>"

definition agentTypes :: TypeSchema where
  "agentTypes = [(''Agent'', [(''source'', ''string''), (''connectionId'', ''bytes32'')])]"

record 'h PhantomAgent =
  source :: string
  connectionId :: 'h

definition constructPhantomAgent :: "byte list \<Rightarrow> bool \<Rightarrow> (byte list) PhantomAgent" where
  "constructPhantomAgent hash isMainnet =
     \<lparr>source = (if isMainnet then ''a'' else ''b''), connectionId = hash\<rparr>"

record Signature =
  r :: string
  s :: string
  v :: nat

text \<open>
  \<open>signL1Action\<close>. The wallet's \<open>signTypedData\<close> and \<open>ethers.Signature.from\<close> are
  parameters; a rejected promise is an error value. The parser of ethers itself is
  modelled further down, as \<open>ethers_Signature_from\<close>, and is the argument the source
  passes.
\<close>

definition signL1Action ::
  "(Domain \<Rightarrow> TypeSchema \<Rightarrow> (byte list) PhantomAgent \<Rightarrow> error + string)
     \<Rightarrow> (string \<Rightarrow> error + Signature)
     \<Rightarrow> (byte list \<Rightarrow> byte list) \<Rightarrow> ('a \<Rightarrow> error + byte list)
     \<Rightarrow> 'a \<Rightarrow> string option \<Rightarrow> number \<Rightarrow> bool \<Rightarrow> error + Signature" where
  "signL1Action signTypedData Signature_from K encode action activePool nonce isMainnet =
     (case actionHash K encode action activePool nonce of
        Inl e \<Rightarrow> Inl e
      | Inr hash \<Rightarrow>
         (let phantomAgent = constructPhantomAgent hash isMainnet
          in case signTypedData phantomDomain agentTypes phantomAgent of
               Inl e \<Rightarrow> Inl e
             | Inr signature \<Rightarrow>
                (case Signature_from signature of
                   Inl e \<Rightarrow> Inl e
                 | Inr sig \<Rightarrow> Inr \<lparr>r = r sig, s = s sig, v = v sig\<rparr>)))"

text \<open>\<open>splitSig\<close> of Signing.tsx, on the hexadecimal text the wallet returns.\<close>

definition splitSig :: "string \<Rightarrow> error + Signature" where
  "splitSig signedAgent =
     (let sig = drop 2 signedAgent
      in if length sig \<noteq> 130 then Inl (Error (''bad sig length: '' @ show_nat (length sig)))
         else
           (let vv = slice_last sig 2
            in if vv \<noteq> ''1c'' \<and> vv \<noteq> ''1b'' \<and> vv \<noteq> ''00'' \<and> vv \<noteq> ''01''
               then Inl (Error (''bad sig v '' @ vv))
               else Inr \<lparr>r = ''0x'' @ str_slice sig 0 64,
                         s = ''0x'' @ str_slice sig 64 128,
                         v = (if vv = ''1b'' \<or> vv = ''00'' then 27 else 28)\<rparr>))"

text \<open>
  \<open>signStandardL1Action\<close> of Signing.tsx, with the module's constant \<open>IS_MAINNET\<close>.
\<close>

definition IS_MAINNET :: bool where
  "IS_MAINNET = True"

record 'h TypedData =
  domain :: Domain
  types :: TypeSchema
  primaryType :: string
  message :: "'h PhantomAgent"

definition signStandardL1Action ::
  "(string TypedData \<Rightarrow> error + string)
     \<Rightarrow> (byte list \<Rightarrow> byte list) \<Rightarrow> ('a \<Rightarrow> error + byte list)
     \<Rightarrow> 'a \<Rightarrow> string option \<Rightarrow> number \<Rightarrow> error + Signature" where
  "signStandardL1Action signTypedData K encode action vaultAddress nonce =
     (case hashAction K encode action vaultAddress nonce of
        Inl e \<Rightarrow> Inl e
      | Inr actionDigest \<Rightarrow>
         (let phantomAgent =
                \<lparr>source = (if IS_MAINNET then ''a'' else ''b''), connectionId = actionDigest\<rparr>;
              payloadToSign =
                \<lparr>domain = phantomDomain, types = agentTypes, primaryType = ''Agent'',
                 message = phantomAgent\<rparr>
          in case signTypedData payloadToSign of
               Inl e \<Rightarrow> Inl e
             | Inr signedAgent \<Rightarrow> splitSig signedAgent))"

section \<open>Wire encoding\<close>

text \<open>
  \<open>floatToWire\<close>. The literal \<open>1e-12\<close> is the binary64 number nearest to \<open>10^-12\<close>.
\<close>

definition floatToWire :: "number \<Rightarrow> error + string" where
  "floatToWire x =
     (let rounded = toFixed x 8
      in if num_ge (Math_abs (num_sub (parseFloat rounded) x)) (fl (1 / 10 ^ 12))
         then Inl (Error ''floatToWire causes rounding'')
         else if rounded = ''-0'' then Inr ''0''
         else
           (case Decimal_new rounded of
              Inl e \<Rightarrow> Inl e
            | Inr d \<Rightarrow> Inr (Decimal_toString d)))"

text \<open>
  An optional property \<open>key?: T\<close> of an object: the key is absent, or present with the
  value \<open>undefined\<close>, or present with a value. The operator \<open>in\<close> asks for the key; a
  truth test asks for the value.
\<close>

datatype 'a optional = Absent | Undefined | Present 'a

datatype Tif = Alo | Ioc | Gtc

datatype Tpsl = Tp | Sl

record LimitOrderType =
  tif :: Tif

text \<open>
  \<open>TriggerOrderType\<close> carries the trigger price as a number, \<open>TriggerOrderTypeWire\<close> as
  a string; \<open>OrderType\<close> and \<open>OrderTypeWire\<close> differ in that only.
\<close>

record 'p TriggerOrder =
  triggerPx :: 'p
  isMarket :: bool
  tpsl :: Tpsl

record 'p OrderTypeOf =
  limit :: "LimitOrderType optional"
  trigger :: "'p TriggerOrder optional"

type_synonym TriggerOrderType = "number TriggerOrder"
type_synonym TriggerOrderTypeWire = "string TriggerOrder"
type_synonym OrderType = "number OrderTypeOf"
type_synonym OrderTypeWire = "string OrderTypeOf"

definition orderTypeToWire :: "OrderType \<Rightarrow> error + OrderTypeWire" where
  "orderTypeToWire orderType =
     (if limit orderType \<noteq> Absent then Inr \<lparr>limit = limit orderType, trigger = Absent\<rparr>
      else
        (case trigger orderType of
           Present trig \<Rightarrow>
             (case floatToWire (triggerPx trig) of
                Inl e \<Rightarrow> Inl e
              | Inr px \<Rightarrow>
                  Inr \<lparr>limit = Absent,
                       trigger = Present \<lparr>triggerPx = px, isMarket = isMarket trig,
                                          tpsl = tpsl trig\<rparr>\<rparr>)
         | _ \<Rightarrow> Inl (Error ''Invalid order type'')))"

text \<open>
  An order request; \<open>cloid\<close> is an optional property whose value may be \<open>null\<close>
  (\<open>None\<close>).
\<close>

record OrderRequest =
  coin :: string
  is_buy :: bool
  sz :: number
  limit_px :: number
  order_type :: OrderType
  reduce_only :: bool
  cloid :: "Cloid option optional"

text \<open>
  An order wire is an object whose keys keep the order in which they were set: a list
  of keys with their values. Assigning to a key that the object does not have yet
  appends it.
\<close>

datatype wire_value =
  WNumber number | WBool bool | WString string | WOrderType OrderTypeWire

type_synonym OrderWire = "(string \<times> wire_value) list"

definition orderRequestToOrderWire :: "OrderRequest \<Rightarrow> number \<Rightarrow> error + OrderWire" where
  "orderRequestToOrderWire order asset =
     (case floatToWire (limit_px order) of
        Inl e \<Rightarrow> Inl e
      | Inr px \<Rightarrow>
         (case floatToWire (sz order) of
            Inl e \<Rightarrow> Inl e
          | Inr qty \<Rightarrow>
             (case orderTypeToWire (order_type order) of
                Inl e \<Rightarrow> Inl e
              | Inr typeWire \<Rightarrow>
                 (let orderWire =
                        [(''a'', WNumber asset), (''b'', WBool (is_buy order)),
                         (''p'', WString px), (''s'', WString qty),
                         (''r'', WBool (reduce_only order)), (''t'', WOrderType typeWire)]
                  in case cloid order of
                       Present (Some given) \<Rightarrow>
                         Inr (AList.update ''c'' (WString (toRaw given)) orderWire)
                     | _ \<Rightarrow> Inr orderWire))))"

subsection \<open>The signature parser of ethers\<close>

text \<open>
  \<open>signL1Action\<close> hands the wallet's answer to \<open>ethers.Signature.from\<close>, which is not code
  of this repository. It is modelled here after ethers version 6, on a string argument.
  \<open>getBytes\<close> accepts \<open>0x\<close> followed by pairs of hexadecimal characters, in either case,
  and refuses every other string. \<open>Signature.getNormalizedV\<close> maps 0 and 27 to 27, 1 and
  28 to 28, refuses every other value below 35, and maps a value from 35 on to 27 when
  it is odd and to 28 when it is even. \<open>Signature.from\<close> reads 64 bytes as a compact
  signature, whose recovery bit is the top bit of \<open>s\<close>, and 65 bytes as \<open>r\<close>, \<open>s\<close> and the
  recovery byte, refusing an \<open>s\<close> whose top bit is set; it refuses every other length.
\<close>

unbundle bit_operations_syntax

definition getBytes :: "string \<Rightarrow> error + byte list" where
  "getBytes value =
     (let hex = drop 2 value
      in if take 1 value = ''0''
            \<and> (take 1 (drop 1 value) = ''x'' \<or> take 1 (drop 1 value) = ''X'')
            \<and> even (length hex) \<and> list_all (\<lambda>c. unhex c \<noteq> None) hex
         then Inr (hex_decode hex)
         else Inl (InvalidArgument ''invalid BytesLike value''))"

definition getNormalizedV :: "nat \<Rightarrow> error + nat" where
  "getNormalizedV bv =
     (if bv = 0 \<or> bv = 27 then Inr 27
      else if bv = 1 \<or> bv = 28 then Inr 28
      else if \<not> 35 \<le> bv then Inl (InvalidArgument ''invalid v'')
      else Inr (if bv mod 2 = 1 then 27 else 28))"

definition ethers_Signature_from :: "string \<Rightarrow> error + Signature" where
  "ethers_Signature_from sig =
     (case getBytes sig of
        Inl e \<Rightarrow> Inl e
      | Inr bytes \<Rightarrow>
         if length bytes = 64 then
           (let rBytes = take 32 bytes;
                sBytes = take 32 (drop 32 bytes);
                vNum = (if sBytes ! 0 AND 128 \<noteq> 0 then 28 else 27);
                sClear = sBytes[0 := sBytes ! 0 AND 127]
            in Inr \<lparr>r = ''0x'' @ hexlify rBytes, s = ''0x'' @ hexlify sClear, v = vNum\<rparr>)
         else if length bytes = 65 then
           (let rBytes = take 32 bytes;
                sBytes = take 32 (drop 32 bytes)
            in if sBytes ! 0 AND 128 \<noteq> 0 then Inl (InvalidArgument ''non-canonical s'')
               else
                 (case getNormalizedV (unat (bytes ! 64)) of
                    Inl e \<Rightarrow> Inl e
                  | Inr vNum \<Rightarrow>
                     Inr \<lparr>r = ''0x'' @ hexlify rBytes, s = ''0x'' @ hexlify sBytes, v = vNum\<rparr>))
         else Inl (InvalidArgument ''invalid raw signature length''))"

section \<open>Notions of the specification\<close>

text \<open>
  The identifier the specification describes: lower-case hexadecimal characters, and
  the number such characters denote.
\<close>

definition lower_hex :: "char \<Rightarrow> bool" where
  "lower_hex c = (c \<in> set ''0123456789abcdef'')"

definition hex_value :: "string \<Rightarrow> nat" where
  "hex_value str = foldl (\<lambda>acc c. 16 * acc + (case unhex c of Some d \<Rightarrow> d | None \<Rightarrow> 0)) 0 str"

text \<open>
  Hexadecimal text as the specification reads it: a hexadecimal character is a digit
  or one of the letters \<open>a\<close> to \<open>f\<close> in either case, \<open>lower_char\<close> is its lower-case form,
  and \<open>strip_0x\<close> removes an optional prefix \<open>0x\<close>. \<open>leading_hex_pairs pairs rest\<close> says
  that a text \<open>pairs @ rest\<close> begins with the whole pairs of hexadecimal characters
  \<open>pairs\<close>, and that the next two characters, if there are two, are not such a pair.
\<close>

definition is_hex_char :: "char \<Rightarrow> bool" where
  "is_hex_char c = (c \<in> set ''0123456789abcdefABCDEF'')"

definition lower_char :: "char \<Rightarrow> char" where
  "lower_char c = (case map_of (zip ''ABCDEF'' ''abcdef'') c of Some l \<Rightarrow> l | None \<Rightarrow> c)"

fun strip_0x :: "string \<Rightarrow> string" where
  "strip_0x (a # b # hex) = (if a = CHR ''0'' \<and> b = CHR ''x'' then hex else a # b # hex)"
| "strip_0x str = str"

definition leading_hex_pairs :: "string \<Rightarrow> string \<Rightarrow> bool" where
  "leading_hex_pairs pairs rest =
     (even (length pairs) \<and> list_all is_hex_char pairs
      \<and> \<not> (length (take 2 rest) = 2 \<and> list_all is_hex_char (take 2 rest)))"

text \<open>
  The canonical decimal rendering of \<open>n / 10^8\<close> with its sign: the integer part
  without leading zeros, the eight fraction digits without their trailing zeros, the
  point only before a fraction digit, and the minus sign only on a negative value that
  is not zero.
\<close>

fun fixed_width :: "nat \<Rightarrow> nat \<Rightarrow> string" where
  "fixed_width 0 n = []"
| "fixed_width (Suc k) n = fixed_width k (n div 10) @ [dec_digit (n mod 10)]"

definition strip_trailing_zeros :: "string \<Rightarrow> string" where
  "strip_trailing_zeros str = rev (dropWhile is_zero_digit (rev str))"

definition canonical_decimal :: "bool \<Rightarrow> nat \<Rightarrow> string" where
  "canonical_decimal neg n =
     (if neg \<and> n \<noteq> 0 then ''-'' else '''')
       @ show_nat (n div 10 ^ 8)
       @ (let frac = strip_trailing_zeros (fixed_width 8 (n mod 10 ^ 8))
          in if frac = [] then [] else CHR ''.'' # frac)"

section \<open>Hexadecimal text\<close>

lemma unhex_hex_digit: "d < 16 \<Longrightarrow> unhex (hex_digit d) = Some d"
proof -
  assume "d < 16"
  then have "d = 0 \<or> d = 1 \<or> d = 2 \<or> d = 3 \<or> d = 4 \<or> d = 5 \<or> d = 6 \<or> d = 7
    \<or> d = 8 \<or> d = 9 \<or> d = 10 \<or> d = 11 \<or> d = 12 \<or> d = 13 \<or> d = 14 \<or> d = 15"
    by arith
  then show ?thesis
    by (elim disjE) (simp_all add: unhex_def hex_digit_def)
qed

lemma hex_decode_hexlify: "hex_decode (hexlify bs) = bs"
proof (induction bs)
  case Nil
  show ?case by simp
next
  case (Cons b bs)
  have "unat b < 256"
    using unsigned_less [of b] by simp
  then have hi: "unat b div 16 < 16"
    by simp
  have "16 * (unat b div 16) + unat b mod 16 = unat b"
    by simp
  then have "(word_of_nat (16 * (unat b div 16) + unat b mod 16) :: byte) = b"
    by simp
  with hi Cons show ?case
    by (simp add: unhex_hex_digit)
qed

lemma length_hexlify: "length (hexlify bs) = 2 * length bs"
  by (induction bs) simp_all

lemma startsWith_0x: "startsWith (CHR ''0'' # CHR ''x'' # str) ''0x''"
  by (simp add: startsWith_def)

lemma hexlify_append: "hexlify (xs @ ys) = hexlify xs @ hexlify ys"
  by (induction xs) simp_all

lemma hexlify_inject: "hexlify xs = hexlify ys \<Longrightarrow> xs = ys"
  by (metis hex_decode_hexlify)

lemma unhex_x: "unhex (CHR ''x'') = None"
  by (simp add: unhex_def)

lemma hexlify_not_0x: "\<not> startsWith (hexlify bs) ''0x''"
proof (cases bs)
  case Nil
  then show ?thesis by (simp add: startsWith_def)
next
  case (Cons b rest)
  have "unat b mod 16 < 16" by simp
  then have "unhex (hex_digit (unat b mod 16)) \<noteq> None"
    by (simp add: unhex_hex_digit)
  then have "hex_digit (unat b mod 16) \<noteq> CHR ''x''"
    using unhex_x by metis
  with Cons show ?thesis by (simp add: startsWith_def)
qed

lemma length_hex_decode:
  "list_all (\<lambda>c. unhex c \<noteq> None) str \<Longrightarrow> length (hex_decode str) = length str div 2"
  by (induction str rule: hex_decode.induct) auto

lemma addressToBytes_hexlify:
  "addressToBytes (''0x'' @ hexlify bs) = bs" "addressToBytes (hexlify bs) = bs"
  by (simp_all add: addressToBytes_def startsWith_0x hexlify_not_0x hex_decode_hexlify)

lemma length_addressToBytes:
  "well_formed_address address \<Longrightarrow> length (addressToBytes address) = 20"
  by (simp add: well_formed_address_def addressToBytes_def Let_def length_hex_decode)

section \<open>Hexadecimal text in either case\<close>

lemma char_of_code:
  "(of_char c = (48 :: nat) \<longleftrightarrow> c = CHR ''0'')
   \<and> (of_char c = (49 :: nat) \<longleftrightarrow> c = CHR ''1'')
   \<and> (of_char c = (50 :: nat) \<longleftrightarrow> c = CHR ''2'')
   \<and> (of_char c = (51 :: nat) \<longleftrightarrow> c = CHR ''3'')
   \<and> (of_char c = (52 :: nat) \<longleftrightarrow> c = CHR ''4'')
   \<and> (of_char c = (53 :: nat) \<longleftrightarrow> c = CHR ''5'')
   \<and> (of_char c = (54 :: nat) \<longleftrightarrow> c = CHR ''6'')
   \<and> (of_char c = (55 :: nat) \<longleftrightarrow> c = CHR ''7'')
   \<and> (of_char c = (56 :: nat) \<longleftrightarrow> c = CHR ''8'')
   \<and> (of_char c = (57 :: nat) \<longleftrightarrow> c = CHR ''9'')
   \<and> (of_char c = (97 :: nat) \<longleftrightarrow> c = CHR ''a'')
   \<and> (of_char c = (98 :: nat) \<longleftrightarrow> c = CHR ''b'')
   \<and> (of_char c = (99 :: nat) \<longleftrightarrow> c = CHR ''c'')
   \<and> (of_char c = (100 :: nat) \<longleftrightarrow> c = CHR ''d'')
   \<and> (of_char c = (101 :: nat) \<longleftrightarrow> c = CHR ''e'')
   \<and> (of_char c = (102 :: nat) \<longleftrightarrow> c = CHR ''f'')
   \<and> (of_char c = (65 :: nat) \<longleftrightarrow> c = CHR ''A'')
   \<and> (of_char c = (66 :: nat) \<longleftrightarrow> c = CHR ''B'')
   \<and> (of_char c = (67 :: nat) \<longleftrightarrow> c = CHR ''C'')
   \<and> (of_char c = (68 :: nat) \<longleftrightarrow> c = CHR ''D'')
   \<and> (of_char c = (69 :: nat) \<longleftrightarrow> c = CHR ''E'')
   \<and> (of_char c = (70 :: nat) \<longleftrightarrow> c = CHR ''F'')"
  using of_char_eq_iff [of c "CHR ''0''", where ?'a = nat]
      of_char_eq_iff [of c "CHR ''1''", where ?'a = nat]
      of_char_eq_iff [of c "CHR ''2''", where ?'a = nat]
      of_char_eq_iff [of c "CHR ''3''", where ?'a = nat]
      of_char_eq_iff [of c "CHR ''4''", where ?'a = nat]
      of_char_eq_iff [of c "CHR ''5''", where ?'a = nat]
      of_char_eq_iff [of c "CHR ''6''", where ?'a = nat]
      of_char_eq_iff [of c "CHR ''7''", where ?'a = nat]
      of_char_eq_iff [of c "CHR ''8''", where ?'a = nat]
      of_char_eq_iff [of c "CHR ''9''", where ?'a = nat]
      of_char_eq_iff [of c "CHR ''a''", where ?'a = nat]
      of_char_eq_iff [of c "CHR ''b''", where ?'a = nat]
      of_char_eq_iff [of c "CHR ''c''", where ?'a = nat]
      of_char_eq_iff [of c "CHR ''d''", where ?'a = nat]
      of_char_eq_iff [of c "CHR ''e''", where ?'a = nat]
      of_char_eq_iff [of c "CHR ''f''", where ?'a = nat]
      of_char_eq_iff [of c "CHR ''A''", where ?'a = nat]
      of_char_eq_iff [of c "CHR ''B''", where ?'a = nat]
      of_char_eq_iff [of c "CHR ''C''", where ?'a = nat]
      of_char_eq_iff [of c "CHR ''D''", where ?'a = nat]
      of_char_eq_iff [of c "CHR ''E''", where ?'a = nat]
      of_char_eq_iff [of c "CHR ''F''", where ?'a = nat]
  by simp

lemma hex_digit_table:
  "hex_digit 0 = CHR ''0''" "hex_digit (Suc 0) = CHR ''1''" "hex_digit 1 = CHR ''1''" "hex_digit 2 = CHR ''2''"
  "hex_digit 3 = CHR ''3''" "hex_digit 4 = CHR ''4''" "hex_digit 5 = CHR ''5''"
  "hex_digit 6 = CHR ''6''" "hex_digit 7 = CHR ''7''" "hex_digit 8 = CHR ''8''"
  "hex_digit 9 = CHR ''9''" "hex_digit 10 = CHR ''a''" "hex_digit 11 = CHR ''b''"
  "hex_digit 12 = CHR ''c''" "hex_digit 13 = CHR ''d''" "hex_digit 14 = CHR ''e''"
  "hex_digit 15 = CHR ''f''"
  by (simp_all add: hex_digit_def)

lemma unhex_table:
  "unhex CHR ''0'' = Some 0"
  "unhex CHR ''1'' = Some 1"
  "unhex CHR ''2'' = Some 2"
  "unhex CHR ''3'' = Some 3"
  "unhex CHR ''4'' = Some 4"
  "unhex CHR ''5'' = Some 5"
  "unhex CHR ''6'' = Some 6"
  "unhex CHR ''7'' = Some 7"
  "unhex CHR ''8'' = Some 8"
  "unhex CHR ''9'' = Some 9"
  "unhex CHR ''a'' = Some 10"
  "unhex CHR ''b'' = Some 11"
  "unhex CHR ''c'' = Some 12"
  "unhex CHR ''d'' = Some 13"
  "unhex CHR ''e'' = Some 14"
  "unhex CHR ''f'' = Some 15"
  "unhex CHR ''A'' = Some 10"
  "unhex CHR ''B'' = Some 11"
  "unhex CHR ''C'' = Some 12"
  "unhex CHR ''D'' = Some 13"
  "unhex CHR ''E'' = Some 14"
  "unhex CHR ''F'' = Some 15"
  by (simp_all add: unhex_def)

lemma lower_char_table:
  "lower_char CHR ''0'' = CHR ''0''"
  "lower_char CHR ''1'' = CHR ''1''"
  "lower_char CHR ''2'' = CHR ''2''"
  "lower_char CHR ''3'' = CHR ''3''"
  "lower_char CHR ''4'' = CHR ''4''"
  "lower_char CHR ''5'' = CHR ''5''"
  "lower_char CHR ''6'' = CHR ''6''"
  "lower_char CHR ''7'' = CHR ''7''"
  "lower_char CHR ''8'' = CHR ''8''"
  "lower_char CHR ''9'' = CHR ''9''"
  "lower_char CHR ''a'' = CHR ''a''"
  "lower_char CHR ''b'' = CHR ''b''"
  "lower_char CHR ''c'' = CHR ''c''"
  "lower_char CHR ''d'' = CHR ''d''"
  "lower_char CHR ''e'' = CHR ''e''"
  "lower_char CHR ''f'' = CHR ''f''"
  "lower_char CHR ''A'' = CHR ''a''"
  "lower_char CHR ''B'' = CHR ''b''"
  "lower_char CHR ''C'' = CHR ''c''"
  "lower_char CHR ''D'' = CHR ''d''"
  "lower_char CHR ''E'' = CHR ''e''"
  "lower_char CHR ''F'' = CHR ''f''"
  by (simp_all add: lower_char_def)

lemma is_hex_char_table:
  "is_hex_char CHR ''0''"
  "is_hex_char CHR ''1''"
  "is_hex_char CHR ''2''"
  "is_hex_char CHR ''3''"
  "is_hex_char CHR ''4''"
  "is_hex_char CHR ''5''"
  "is_hex_char CHR ''6''"
  "is_hex_char CHR ''7''"
  "is_hex_char CHR ''8''"
  "is_hex_char CHR ''9''"
  "is_hex_char CHR ''a''"
  "is_hex_char CHR ''b''"
  "is_hex_char CHR ''c''"
  "is_hex_char CHR ''d''"
  "is_hex_char CHR ''e''"
  "is_hex_char CHR ''f''"
  "is_hex_char CHR ''A''"
  "is_hex_char CHR ''B''"
  "is_hex_char CHR ''C''"
  "is_hex_char CHR ''D''"
  "is_hex_char CHR ''E''"
  "is_hex_char CHR ''F''"
  by (simp_all add: is_hex_char_def)

lemma digit_codes:
  fixes k :: nat
  shows "48 \<le> k \<Longrightarrow> k \<le> 57 \<Longrightarrow>
      k = 48 \<or> k = 49 \<or> k = 50 \<or> k = 51 \<or> k = 52 \<or> k = 53 \<or> k = 54 \<or> k = 55
      \<or> k = 56 \<or> k = 57"
    and "97 \<le> k \<Longrightarrow> k \<le> 102 \<Longrightarrow>
      k = 97 \<or> k = 98 \<or> k = 99 \<or> k = 100 \<or> k = 101 \<or> k = 102"
    and "65 \<le> k \<Longrightarrow> k \<le> 70 \<Longrightarrow>
      k = 65 \<or> k = 66 \<or> k = 67 \<or> k = 68 \<or> k = 69 \<or> k = 70"
  by arith+

lemma unhex_Some:
  assumes "unhex c = Some d"
  shows "is_hex_char c \<and> d < 16 \<and> hex_digit d = lower_char c"
proof -
  define k where "k = (of_char c :: nat)"
  have d: "d = the (unhex c)"
    using assms by simp
  from assms consider "48 \<le> k" "k \<le> 57" | "97 \<le> k" "k \<le> 102" | "65 \<le> k" "k \<le> 70"
    by (auto simp: unhex_def Let_def k_def split: if_splits)
  then show ?thesis
  proof cases
    case 1
    then have "c = CHR ''0'' \<or> c = CHR ''1'' \<or> c = CHR ''2'' \<or> c = CHR ''3''
        \<or> c = CHR ''4'' \<or> c = CHR ''5'' \<or> c = CHR ''6'' \<or> c = CHR ''7''
        \<or> c = CHR ''8'' \<or> c = CHR ''9''"
      using digit_codes(1) [of k] unfolding k_def by (simp only: char_of_code)
    then show ?thesis
      unfolding d
      by (elim disjE) (simp_all add: unhex_table lower_char_table is_hex_char_table hex_digit_table)
  next
    case 2
    then have "c = CHR ''a'' \<or> c = CHR ''b'' \<or> c = CHR ''c'' \<or> c = CHR ''d''
        \<or> c = CHR ''e'' \<or> c = CHR ''f''"
      using digit_codes(2) [of k] unfolding k_def by (simp only: char_of_code)
    then show ?thesis
      unfolding d
      by (elim disjE) (simp_all add: unhex_table lower_char_table is_hex_char_table hex_digit_table)
  next
    case 3
    then have "c = CHR ''A'' \<or> c = CHR ''B'' \<or> c = CHR ''C'' \<or> c = CHR ''D''
        \<or> c = CHR ''E'' \<or> c = CHR ''F''"
      using digit_codes(3) [of k] unfolding k_def by (simp only: char_of_code)
    then show ?thesis
      unfolding d
      by (elim disjE) (simp_all add: unhex_table lower_char_table is_hex_char_table hex_digit_table)
  qed
qed

lemma is_hex_char_unhex: "is_hex_char c \<longleftrightarrow> unhex c \<noteq> None"
proof
  assume "is_hex_char c"
  then show "unhex c \<noteq> None"
    by (auto simp: is_hex_char_def unhex_def)
next
  assume "unhex c \<noteq> None"
  then show "is_hex_char c"
    using unhex_Some by blast
qed

lemma hex_decode_stop:
  "\<not> (length (take 2 rest) = 2 \<and> list_all is_hex_char (take 2 rest)) \<Longrightarrow> hex_decode rest = []"
proof (cases rest rule: hex_decode.cases)
  case (1 a b tail)
  assume "\<not> (length (take 2 rest) = 2 \<and> list_all is_hex_char (take 2 rest))"
  with 1 have "unhex a = None \<or> unhex b = None"
    by (simp add: is_hex_char_unhex)
  with 1 show ?thesis
    by (auto split: option.splits)
qed simp_all

lemma hexlify_pair:
  assumes "unhex a = Some h" "unhex b = Some l"
  shows "hexlify ((word_of_nat (16 * h + l) :: byte) # bs) = lower_char a # lower_char b # hexlify bs"
proof -
  have h: "h < 16" "hex_digit h = lower_char a" and l: "l < 16" "hex_digit l = lower_char b"
    using unhex_Some [OF assms(1)] unhex_Some [OF assms(2)] by simp_all
  define w :: byte where "w = word_of_nat (16 * h + l)"
  have "unat w = (16 * h + l) mod 2 ^ LENGTH(8)"
    unfolding w_def by (rule unat_of_nat)
  then have "unat w = 16 * h + l"
    using h(1) l(1) by simp
  then have "hexlify (w # bs) = lower_char a # lower_char b # hexlify bs"
    using h l by simp
  then show ?thesis
    by (simp only: w_def)
qed

lemma hex_decode_pairs:
  "leading_hex_pairs pairs rest \<Longrightarrow> hexlify (hex_decode (pairs @ rest)) = map lower_char pairs"
proof (induction pairs rule: induct_list012)
  case 1
  then show ?case
    by (simp add: leading_hex_pairs_def hex_decode_stop)
next
  case (2 x)
  then show ?case
    by (simp add: leading_hex_pairs_def)
next
  case (3 a b tail)
  then obtain h l where hl: "unhex a = Some h" "unhex b = Some l"
    by (auto simp: leading_hex_pairs_def is_hex_char_unhex)
  have "leading_hex_pairs tail rest"
    using 3(3) by (simp add: leading_hex_pairs_def)
  then have "hexlify (hex_decode (tail @ rest)) = map lower_char tail"
    by (rule 3(1))
  then show ?case
    using hl hexlify_pair [OF hl] by simp
qed

lemma leading_hex_pairs_Nil:
  "\<not> (is_hex_char a \<and> is_hex_char b) \<Longrightarrow> leading_hex_pairs [] (a # b # tail)"
  "leading_hex_pairs [] []" "leading_hex_pairs [] [c]"
  by (simp_all add: leading_hex_pairs_def)

lemma leading_hex_pairs_Cons:
  "is_hex_char a \<Longrightarrow> is_hex_char b \<Longrightarrow> leading_hex_pairs pairs rest \<Longrightarrow>
   leading_hex_pairs (a # b # pairs) rest"
  by (simp add: leading_hex_pairs_def)

lemma leading_hex_pairs_exist: "\<exists>pairs rest. hex = pairs @ rest \<and> leading_hex_pairs pairs rest"
proof (induction hex rule: induct_list012)
  case 1
  have "[] = [] @ [] \<and> leading_hex_pairs [] []"
    by (simp add: leading_hex_pairs_Nil)
  then show ?case
    by (intro exI)
next
  case (2 c)
  have "[c] = [] @ [c] \<and> leading_hex_pairs [] [c]"
    by (simp add: leading_hex_pairs_Nil)
  then show ?case
    by (intro exI)
next
  case (3 a b tail)
  show ?case
  proof (cases "is_hex_char a \<and> is_hex_char b")
    case True
    from 3(1) obtain pairs rest where split: "tail = pairs @ rest" "leading_hex_pairs pairs rest"
      by (elim exE conjE)
    have "a # b # tail = (a # b # pairs) @ rest \<and> leading_hex_pairs (a # b # pairs) rest"
      using True split by (simp add: leading_hex_pairs_Cons)
    then show ?thesis
      by (intro exI)
  next
    case False
    then have "a # b # tail = [] @ (a # b # tail) \<and> leading_hex_pairs [] (a # b # tail)"
      by (simp add: leading_hex_pairs_Nil)
    then show ?thesis
      by (intro exI)
  qed
qed

lemma well_formed_address_iff:
  "well_formed_address address \<longleftrightarrow>
     (let hex = (if startsWith address ''0x'' then drop 2 address else address)
      in length hex = 40 \<and> list_all is_hex_char hex)"
  by (auto simp: well_formed_address_def Let_def is_hex_char_unhex list_all_iff)

lemma strip_0x_startsWith:
  "strip_0x address = (if startsWith address ''0x'' then drop 2 address else address)"
  by (cases address rule: strip_0x.cases) (simp_all add: startsWith_def)

lemma addressToBytes_strip: "addressToBytes address = hex_decode (strip_0x address)"
  by (simp add: addressToBytes_def strip_0x_startsWith)

lemma addressToBytes_pairs:
  assumes "strip_0x address = pairs @ rest" "leading_hex_pairs pairs rest"
  shows "hexlify (addressToBytes address) = map lower_char pairs"
    and "2 * length (addressToBytes address) = length pairs"
proof -
  show shown: "hexlify (addressToBytes address) = map lower_char pairs"
    using hex_decode_pairs [OF assms(2)] assms(1) by (simp add: addressToBytes_strip)
  have "length (hexlify (addressToBytes address)) = 2 * length (addressToBytes address)"
    by (rule length_hexlify)
  then show "2 * length (addressToBytes address) = length pairs"
    by (simp add: shown)
qed

lemma well_formed_address_strip:
  "well_formed_address address \<longleftrightarrow>
     length (strip_0x address) = 40 \<and> list_all is_hex_char (strip_0x address)"
  by (simp add: well_formed_address_iff strip_0x_startsWith Let_def)

section \<open>The input of the hash\<close>

lemma length_be64: "length (be64 k) = 8"
  by (simp add: be64_def)

lemma unat_byte_of_int: "0 \<le> k \<Longrightarrow> unat (word_of_int k :: byte) = nat k mod 256"
  by (simp add: unat_eq_nat_uint uint_word_of_int nat_mod_distrib)

lemma be_value_be64: 
  assumes "0 \<le> k" "k < 2 ^ 64"
  shows "int (be_value (be64 k)) = k"
proof -
  define n where "n = nat k"
  have k: "k = int n" using assms by (simp add: n_def)
  have n: "n < 2 ^ 64" using assms by (simp add: n_def)
  have byte: "unat (word_of_int (int n div int m) :: byte) = n div m mod 256" for m
    using unat_byte_of_int [of "int n div int m"]
    by (simp add: pos_imp_zdiv_nonneg_iff nat_div_distrib zdiv_int [symmetric])
  have byte0: "unat (word_of_nat n :: byte) = n mod 256"
    using byte [of 1] by simp
  have step: "n div m = 256 * (n div (m * 256)) + n div m mod 256" for m
    by (simp add: div_mult2_eq)
  have top: "n div 2 ^ 64 = 0"
    using n by simp
  have "be_value (be64 (int n)) = n"
    unfolding be64_def be_value_def
    using step [of 1] step [of 256] step [of 65536] step [of 16777216] step [of 4294967296]
      step [of 1099511627776] step [of 281474976710656] step [of 72057594037927936] top
      byte [of 256] byte [of 65536] byte [of 16777216] byte [of 4294967296]
      byte [of 1099511627776] byte [of 281474976710656] byte [of 72057594037927936]
    apply (simp add: byte0)
    using div_mult_mod_eq [of n 256] by linarith
  then show ?thesis by (simp add: k)
qed

lemma actionHash_Inr:
  "nonceToBytes nonce = Inr nonceBytes \<Longrightarrow> encode action = Inr packed \<Longrightarrow>
   actionHash K encode action vaultAddress nonce =
     Inr (K (packed @ nonceBytes @
        (case vaultAddress of None \<Rightarrow> [0] | Some address \<Rightarrow> 1 # addressToBytes address)))"
  by (simp add: actionHash_def keccak256_def hex_decode_hexlify split: option.split)

lemma actionHash_Inl:
  "actionHash K encode action vaultAddress nonce = Inl e \<Longrightarrow>
   nonceToBytes nonce = Inl e \<or> encode action = Inl e"
  by (auto simp: actionHash_def Let_def split: sum.splits)

lemma nonceToBytes_u64:
  "BigInt nonce = Inr n \<Longrightarrow> 0 \<le> n \<Longrightarrow> n < 2 ^ 64 \<Longrightarrow> nonceToBytes nonce = Inr (be64 n)"
  by (simp add: nonceToBytes_def writeBigUInt64BE_def)

lemma typed_set_append:
  "typed_set (xs @ zs) ys (length xs) =
     (if length zs < length ys then Inl RangeError else Inr (xs @ ys @ drop (length ys) zs))"
  by (simp add: typed_set_def)

lemma typed_set_fresh:
  "typed_set (replicate (length xs + k) 0) xs 0 = Inr (xs @ replicate k 0)"
  by (simp add: typed_set_def replicate_add [symmetric] del: replicate_add)

lemma hashAction_None:
  assumes "encode action = Inr packed" "BigInt nonce = Inr n"
  shows "hashAction K encode action None nonce = Inr (keccak256 K (packed @ be64 (n mod 2 ^ 64) @ [0]))"
proof -
  have a: "typed_set (packed @ replicate 9 0) (be64 (n mod 2 ^ 64)) (length packed) =
      Inr (packed @ be64 (n mod 2 ^ 64) @ [0])"
    by (simp add: typed_set_append length_be64)
  have b: "typed_set ((packed @ be64 (n mod 2 ^ 64)) @ [0]) [0] (length packed + 8) =
      Inr (packed @ be64 (n mod 2 ^ 64) @ [0])"
    using typed_set_append [of "packed @ be64 (n mod 2 ^ 64)" "[0]" "[0]"]
    by (simp add: length_be64)
  show ?thesis
    using assms a b
    by (simp add: hashAction_def typed_set_fresh setBigUint64_def setUint8_def)
qed

lemma hashAction_Some:
  assumes "encode action = Inr packed" "BigInt nonce = Inr n"
  shows "hashAction K encode action (Some address) nonce =
     (if 20 < length (addressToBytes address) then Inl RangeError
      else Inr (keccak256 K (packed @ be64 (n mod 2 ^ 64) @ [1] @ addressToBytes address
                  @ replicate (20 - length (addressToBytes address)) 0)))"
proof -
  have a: "typed_set (packed @ replicate 29 0) (be64 (n mod 2 ^ 64)) (length packed) =
      Inr (packed @ be64 (n mod 2 ^ 64) @ replicate 21 0)"
    by (simp add: typed_set_append length_be64)
  have b: "typed_set ((packed @ be64 (n mod 2 ^ 64)) @ replicate 21 0) [1] (length packed + 8) =
      Inr (packed @ be64 (n mod 2 ^ 64) @ [1] @ replicate 20 0)"
    using typed_set_append [of "packed @ be64 (n mod 2 ^ 64)" "replicate 21 0" "[1]"]
    by (simp add: length_be64)
  have c: "typed_set ((packed @ be64 (n mod 2 ^ 64) @ [1]) @ replicate 20 0) (addressToBytes address)
        (length packed + 9) =
     (if 20 < length (addressToBytes address) then Inl RangeError
      else Inr (packed @ be64 (n mod 2 ^ 64) @ [1] @ addressToBytes address
                  @ replicate (20 - length (addressToBytes address)) 0))"
    using typed_set_append [of "packed @ be64 (n mod 2 ^ 64) @ [1]" "replicate 20 0" "addressToBytes address"]
    by (simp add: length_be64)
  show ?thesis
    using assms a b c
    by (simp add: hashAction_def typed_set_fresh setBigUint64_def setUint8_def)
qed

lemma hashAction_encode_fails:
  "encode action = Inl e \<Longrightarrow> hashAction K encode action vaultAddress nonce = Inl e"
  by (simp add: hashAction_def)

lemma actionHash_encode_fails:
  "nonceToBytes nonce = Inr nonceBytes \<Longrightarrow> encode action = Inl e \<Longrightarrow>
   actionHash K encode action vaultAddress nonce = Inl e"
  by (simp add: actionHash_def)

section \<open>Splitting a signature\<close>

lemma splitSig_65:
  assumes "length rb = 32" "length sb = 32"
  shows "splitSig (''0x'' @ hexlify (rb @ sb @ [vb])) =
     (if vb = 0 \<or> vb = 27 then Inr \<lparr>r = ''0x'' @ hexlify rb, s = ''0x'' @ hexlify sb, v = 27\<rparr>
      else if vb = 1 \<or> vb = 28 then Inr \<lparr>r = ''0x'' @ hexlify rb, s = ''0x'' @ hexlify sb, v = 28\<rparr>
      else Inl (Error (''bad sig v '' @ hexlify [vb])))"
proof -
  define tag where "tag = hexlify [vb]"
  define body where "body = hexlify rb @ hexlify sb @ tag"
  have tag_eq: "tag = hexlify [c] \<longleftrightarrow> vb = c" for c
    using hexlify_inject [of "[vb]" "[c]"] by (auto simp: tag_def)
  have "hexlify [0] = ''00''" "hexlify [1] = ''01''" "hexlify [27] = ''1b''" "hexlify [28] = ''1c''"
    by (simp_all add: hex_digit_def)
  with tag_eq [of 0] tag_eq [of 1] tag_eq [of 27] tag_eq [of 28]
  have tags: "tag = ''00'' \<longleftrightarrow> vb = 0" "tag = ''01'' \<longleftrightarrow> vb = 1"
    "tag = ''1b'' \<longleftrightarrow> vb = 27" "tag = ''1c'' \<longleftrightarrow> vb = 28"
    by simp_all
  have len: "length (hexlify rb) = 64" "length (hexlify sb) = 64" "length tag = 2"
    using assms by (simp_all add: length_hexlify tag_def)
  have parts: "length body = 130" "slice_last body 2 = tag"
    "str_slice body 0 64 = hexlify rb" "str_slice body 64 128 = hexlify sb"
    using len by (simp_all add: slice_last_def str_slice_def body_def)
  have "splitSig (''0x'' @ body) =
     (if vb = 0 \<or> vb = 27 then Inr \<lparr>r = ''0x'' @ hexlify rb, s = ''0x'' @ hexlify sb, v = 27\<rparr>
      else if vb = 1 \<or> vb = 28 then Inr \<lparr>r = ''0x'' @ hexlify rb, s = ''0x'' @ hexlify sb, v = 28\<rparr>
      else Inl (Error (''bad sig v '' @ tag)))"
    by (simp add: splitSig_def Let_def parts tags)
  then show ?thesis
    by (simp add: hexlify_append body_def tag_def)
qed

lemma splitSig_length:
  "length raw \<noteq> 65 \<Longrightarrow>
   splitSig (''0x'' @ hexlify raw) = Inl (Error (''bad sig length: '' @ show_nat (2 * length raw)))"
  by (simp add: splitSig_def length_hexlify)

lemma splitSig_Inr_iff:
  "(\<exists>sg. splitSig signedAgent = Inr sg) \<longleftrightarrow>
     length signedAgent = 132 \<and> drop 130 signedAgent \<in> {''1c'', ''1b'', ''00'', ''01''}"
  by (auto simp: splitSig_def Let_def slice_last_def)

section \<open>Client order ids\<close>

lemma lower_hex_digit: "d < 16 \<Longrightarrow> lower_hex (hex_digit d)"
proof -
  assume "d < 16"
  then have "hex_digit d \<in> set ''0123456789abcdef''"
    unfolding hex_digit_def by (intro nth_mem) simp
  then show ?thesis by (simp only: lower_hex_def)
qed

lemma hex_value_snoc:
  "hex_value (str @ [c]) = 16 * hex_value str + (case unhex c of Some d \<Rightarrow> d | None \<Rightarrow> 0)"
  by (simp add: hex_value_def)

lemma hex_value_hex_of_nat: "hex_value (hex_of_nat n) = n"
proof (induction n rule: hex_of_nat.induct)
  case (1 n)
  show ?case
  proof (cases "n < 16")
    case True
    then show ?thesis
      by (simp add: hex_of_nat.simps [of n] hex_value_def unhex_hex_digit)
  next
    case False
    with 1 show ?thesis
      by (simp add: hex_of_nat.simps [of n] hex_value_snoc unhex_hex_digit)
  qed
qed

lemma lower_hex_hex_of_nat: "list_all lower_hex (hex_of_nat n)"
proof (induction n rule: hex_of_nat.induct)
  case (1 n)
  then show ?case
    by (cases "n < 16") (simp_all add: hex_of_nat.simps [of n] lower_hex_digit)
qed

lemma length_hex_of_nat: "n < 16 ^ Suc k \<Longrightarrow> length (hex_of_nat n) \<le> Suc k"
proof (induction k arbitrary: n)
  case 0
  then show ?case by (simp add: hex_of_nat.simps [of n])
next
  case (Suc k)
  show ?case
  proof (cases "n < 16")
    case True
    then show ?thesis by (simp add: hex_of_nat.simps [of n])
  next
    case False
    have "n div 16 < 16 ^ Suc k"
      using Suc.prems by (simp add: less_mult_imp_div_less)
    then have "length (hex_of_nat (n div 16)) \<le> Suc k"
      by (rule Suc.IH)
    with False show ?thesis by (simp add: hex_of_nat.simps [of n])
  qed
qed

lemma hex_value_zeros: "hex_value (replicate k (CHR ''0'') @ str) = hex_value str"
proof -
  have zero: "unhex (CHR ''0'') = Some 0"
    by (simp add: unhex_def)
  have "hex_value (replicate k (CHR ''0'')) = 0"
  proof (induction k)
    case 0
    show ?case by (simp add: hex_value_def)
  next
    case (Suc k)
    have "hex_value (replicate k (CHR ''0'') @ [CHR ''0'']) = 0"
      using Suc zero by (simp only: hex_value_snoc) simp
    then show ?case by (simp add: replicate_append_same)
  qed
  then show ?thesis by (simp add: hex_value_def)
qed

lemma fromInt_in_range:
  assumes "0 \<le> n" "n < 16 ^ 32"
  shows "fromInt n = Inr (Cloid (''0x'' @ padStart (hex_of_nat (nat n)) 32 (CHR ''0'')))"
    and "length (padStart (hex_of_nat (nat n)) 32 (CHR ''0'')) = 32"
    and "list_all lower_hex (padStart (hex_of_nat (nat n)) 32 (CHR ''0''))"
    and "hex_value (padStart (hex_of_nat (nat n)) 32 (CHR ''0'')) = nat n"
proof -
  have "nat n < 16 ^ Suc 31"
    using assms by (simp add: nat_less_iff)
  then have len: "length (hex_of_nat (nat n)) \<le> 32"
    using length_hex_of_nat [of "nat n" 31] by simp
  then show pad: "length (padStart (hex_of_nat (nat n)) 32 (CHR ''0'')) = 32"
    by (simp add: padStart_def)
  then show "fromInt n = Inr (Cloid (''0x'' @ padStart (hex_of_nat (nat n)) 32 (CHR ''0'')))"
    using assms by (simp add: fromInt_def Cloid_new_def startsWith_def toString16_def)
  show "list_all lower_hex (padStart (hex_of_nat (nat n)) 32 (CHR ''0''))"
  proof -
    have zero: "lower_hex (CHR ''0'')"
      by (simp add: lower_hex_def)
    have "\<forall>c\<in>set (hex_of_nat (nat n)). lower_hex c"
      using lower_hex_hex_of_nat [of "nat n"] by (simp only: list_all_iff)
    with zero show ?thesis
      by (auto simp: padStart_def list_all_iff)
  qed
  show "hex_value (padStart (hex_of_nat (nat n)) 32 (CHR ''0'')) = nat n"
    by (simp add: padStart_def hex_value_zeros hex_value_hex_of_nat)
qed

lemma fromStr_cases:
  "fromStr str =
     (if \<not> startsWith str ''0x'' then Inl (Error ''cloid is not a hex string'')
      else if length str \<noteq> 34 then Inl (Error ''cloid is not 16 bytes'')
      else Inr (Cloid str))"
  by (auto simp: fromStr_def Cloid_new_def startsWith_def)

section \<open>Rounding, printing and parsing numbers\<close>

subsection \<open>The nearest binary64 number\<close>

lemma floor_numeral_frac: "\<lfloor>(numeral a / numeral b :: rat)\<rfloor> = numeral a div numeral b"
  using floor_divide_of_int_eq [of "numeral a" "numeral b", where ?'a = rat] by simp

lemma two_powi_unique:
  fixes q :: rat
  assumes "2 powi j \<le> q" "q < 2 powi (j + 1)" "2 powi k \<le> q" "q < 2 powi (k + 1)"
  shows "j = k"
proof (rule ccontr)
  assume "j \<noteq> k"
  then consider "j + 1 \<le> k" | "k + 1 \<le> j" by linarith
  then show False
  proof cases
    case 1
    then have "(2::rat) powi (j + 1) \<le> 2 powi k"
      by (intro power_int_increasing) simp_all
    with assms show False by linarith
  next
    case 2
    then have "(2::rat) powi (k + 1) \<le> 2 powi j"
      by (intro power_int_increasing) simp_all
    with assms show False by linarith
  qed
qed

lemma bitlen_powi_bounds:
  assumes "0 < a"
  shows "(2::rat) powi (bitlen a - 1) \<le> of_int a" "of_int a < (2::rat) powi bitlen a"
proof -
  have pos: "0 \<le> bitlen a - 1"
    using assms bitlen_bounds [of a] by (simp add: bitlen_def floorlog_def split: if_splits)
  have lo: "(2::int) ^ nat (bitlen a - 1) \<le> a" and hi: "a < 2 ^ nat (bitlen a)"
    using bitlen_bounds [OF assms] by simp_all
  have "(of_int ((2::int) ^ nat (bitlen a - 1)) :: rat) \<le> of_int a"
    using lo by (simp only: of_int_le_iff)
  then show "(2::rat) powi (bitlen a - 1) \<le> of_int a"
    using pos by (simp add: power_int_nonneg_exp)
  have "(of_int a :: rat) < of_int ((2::int) ^ nat (bitlen a))"
    using hi by (simp only: of_int_less_iff)
  then show "of_int a < (2::rat) powi bitlen a"
    using pos by (simp add: power_int_nonneg_exp)
qed

lemma ilog2_bounds:
  assumes "0 < q"
  shows "2 powi ilog2 q \<le> q" "q < 2 powi (ilog2 q + 1)"
proof -
  define a where "a = fst (quotient_of q)"
  define b where "b = snd (quotient_of q)"
  define d where "d = bitlen a - bitlen b"
  have b: "0 < b"
    by (simp add: b_def quotient_of_denom_pos')
  have q: "q = of_int a / of_int b"
    using quotient_of_div [of q a b] by (simp add: a_def b_def)
  have a: "0 < a"
    using assms b q by (simp add: zero_less_divide_iff)
  note A = bitlen_powi_bounds [OF a] and B = bitlen_powi_bounds [OF b]
  have bpos: "(0::rat) < of_int b" using b by simp
  have "q < 2 powi bitlen a / 2 powi (bitlen b - 1)"
    unfolding q using A(2) B(1) a
    by (intro frac_less) simp_all
  also have "\<dots> = 2 powi (d + 1)"
    by (simp add: d_def power_int_diff [symmetric] algebra_simps)
  finally have up: "q < 2 powi (d + 1)" .
  have apos: "(0::rat) < 2 powi (bitlen a - 1)" by simp
  have "2 powi (bitlen a - 1) / 2 powi bitlen b < q"
    unfolding q using A(1) B(2) bpos apos
    by (intro frac_less2) (simp_all add: less_imp_le)
  moreover have "(2::rat) powi (bitlen a - 1) / 2 powi bitlen b = 2 powi (d - 1)"
    by (simp add: d_def power_int_diff [symmetric] algebra_simps)
  ultimately have low: "2 powi (d - 1) < q" by simp
  have il: "ilog2 q = (if 2 powi d \<le> q then d else d - 1)"
    by (simp add: ilog2_def Let_def a_def b_def d_def)
  show "2 powi ilog2 q \<le> q"
    using low by (simp add: il less_imp_le)
  show "q < 2 powi (ilog2 q + 1)"
    using up by (simp add: il not_le)
qed

lemma ilog2_eq:
  "2 powi k \<le> q \<Longrightarrow> q < 2 powi (k + 1) \<Longrightarrow> ilog2 q = k"
proof -
  assume lo: "2 powi k \<le> q" and hi: "q < 2 powi (k + 1)"
  have "0 < q"
    using lo by (rule less_le_trans [rotated]) simp
  then show ?thesis
    using two_powi_unique [OF ilog2_bounds [of q] lo hi] by simp
qed

lemma round_half_even_near:
  "\<bar>q - of_int m\<bar> < 1 / 2 \<Longrightarrow> round_half_even q = m"
proof -
  assume near: "\<bar>q - of_int m\<bar> < 1 / 2"
  consider "of_int m \<le> q" | "q < of_int m" by linarith
  then show ?thesis
  proof cases
    case 1
    with near have "\<lfloor>q\<rfloor> = m"
      by (intro floor_unique) linarith+
    with near 1 show ?thesis
      by (simp add: round_half_even_def Let_def)
  next
    case 2
    with near have "of_int (m - 1) \<le> q \<and> q < of_int (m - 1) + 1"
      by (simp add: abs_less_iff)
    then have f: "\<lfloor>q\<rfloor> = m - 1"
      by (intro floor_unique) simp_all
    have "1 / 2 < q - of_int (m - 1)"
      using near 2 by simp
    then show ?thesis
      using f by (simp add: round_half_even_def Let_def)
  qed
qed

lemma fl_nearest:
  assumes lo: "2 powi k \<le> \<bar>q\<bar>" and hi: "\<bar>q\<bar> < 2 powi (k + 1)"
    and k: "- 1022 \<le> k" "k \<le> 1022"
    and near: "\<bar>\<bar>q\<bar> - of_int m * 2 powi (k - 52)\<bar> < 2 powi (k - 53)"
  shows "fl q = Num (if q < 0 then - (of_int m * 2 powi (k - 52)) else of_int m * 2 powi (k - 52))"
proof -
  define u :: rat where "u = 2 powi (k - 52)"
  have u: "0 < u" by (simp add: u_def)
  have half: "(2::rat) powi (k - 53) = u / 2"
    using power_int_diff [of "2::rat" "k - 52" 1] by (simp add: u_def)
  have il: "ilog2 \<bar>q\<bar> = k"
    using lo hi by (rule ilog2_eq)
  have e: "max (ilog2 \<bar>q\<bar> - 52) (- 1074) = k - 52"
    using k by (simp add: il)
  have "\<bar>\<bar>q\<bar> / u - of_int m\<bar> = \<bar>\<bar>q\<bar> - of_int m * u\<bar> / u"
    using u by (simp add: field_simps abs_if)
  also have "\<dots> < (u / 2) / u"
    using near u by (simp add: half u_def [symmetric] divide_strict_right_mono)
  finally have "\<bar>\<bar>q\<bar> / u - of_int m\<bar> < 1 / 2"
    using u by simp
  then have r: "round_half_even (\<bar>q\<bar> / u) = m"
    by (rule round_half_even_near)
  have "2 powi k - u / 2 < of_int m * u"
    using near lo by (simp add: half u_def [symmetric] abs_if split: if_splits)
  moreover have "u / 2 < 2 powi k"
    using power_int_strict_increasing [of "k - 53" k "2::rat"] by (simp add: half)
  ultimately have ypos: "0 < of_int m * u" by linarith
  have "of_int m * u < 2 powi (k + 1) + u / 2"
    using near hi by (simp add: half u_def [symmetric] abs_if split: if_splits)
  also have "\<dots> < 2 powi (k + 1) + 2 powi (k + 1)"
    using power_int_strict_increasing [of "k - 53" "k + 1" "2::rat"] by (simp add: half)
  also have "\<dots> = 2 powi (k + 2)"
    using power_int_add [of "2::rat" "k + 1" 1] by (simp add: add.commute)
  also have "\<dots> \<le> 2 powi 1024"
    using k by (intro power_int_increasing) simp_all
  finally have ysmall: "\<not> 2 ^ 1024 \<le> of_int m * u"
    by simp
  have "(0::rat) < 2 powi k" by simp
  then have "0 < \<bar>q\<bar>"
    using lo by (rule less_le_trans)
  then have q0: "q \<noteq> 0"
    by simp
  have "fl q =
      (if 2 ^ 1024 \<le> of_int m * u then (if q < 0 then NegInfinity else PosInfinity)
       else if of_int m * u = 0 then (if q < 0 then NegZero else Num 0)
       else Num (if q < 0 then - (of_int m * u) else of_int m * u))"
    by (simp only: fl_def Let_def e u_def [symmetric] r q0 if_False)
  moreover have "of_int m * u \<noteq> 0"
    using ypos by (rule less_imp_neq [symmetric])
  ultimately show ?thesis
    using ysmall by (simp only: if_False u_def)
qed

lemma fl_90000: "fl 90000 = Num 90000"
  using fl_nearest [of 16 90000 "90000 * 2 ^ 36"] by simp

lemma fl_1e_12: "fl (1 / 10 ^ 12) = Num (4951760157141521 / 2 ^ 92)"
  using fl_nearest [of "- 40" "1 / 10 ^ 12" 4951760157141521] by simp


subsection \<open>The price 90000\<close>

lemmas char_tests = is_digit_def is_space_def is_zero_digit_def

lemma toFixed_90000: "toFixed (Num 90000) 8 = ''90000.00000000''"
  by (simp add: toFixed_def fixed_digits_def floor_numeral_frac show_nat.simps dec_digit_def Let_def)

lemma parseFloat_90000: "parseFloat ''90000.00000000'' = Num 90000"
  by (simp add: parseFloat_def Let_def char_tests startsWith_def nat_of_digits_def
      exponent_part_def from_decimal_def fl_90000)

lemma Decimal_90000: "Decimal_new ''90000.00000000'' = Inr (DFinite False ''9'' 4)"
  by (simp add: Decimal_new_def isDecimal_def parseDecimal_def Let_def char_tests
      exponent_part_def strip_zeros_def)

lemma toString_90000: "Decimal_toString (DFinite False ''9'' 4) = ''90000''"
  by (simp add: Decimal_toString_def finiteToString_def numeral_eq_Suc)

lemma floatToWire_90000: "floatToWire (Num 90000) = Inr ''90000''"
  using fl_1e_12
  by (simp add: floatToWire_def toFixed_90000 parseFloat_90000 Decimal_90000 toString_90000)

subsection \<open>Digits\<close>

lemma is_digit_dec_digit: "d < 10 \<Longrightarrow> is_digit (dec_digit d)"
proof -
  assume "d < 10"
  then have "d = 0 \<or> d = 1 \<or> d = 2 \<or> d = 3 \<or> d = 4 \<or> d = 5 \<or> d = 6 \<or> d = 7 \<or> d = 8 \<or> d = 9"
    by arith
  then show ?thesis
    by (elim disjE) (simp_all add: is_digit_def dec_digit_def)
qed

lemma digit_value: "d < 10 \<Longrightarrow> (of_char (dec_digit d) :: nat) - 48 = d"
proof -
  assume "d < 10"
  then have "d = 0 \<or> d = 1 \<or> d = 2 \<or> d = 3 \<or> d = 4 \<or> d = 5 \<or> d = 6 \<or> d = 7 \<or> d = 8 \<or> d = 9"
    by arith
  then show ?thesis
    by (elim disjE) (simp_all add: dec_digit_def)
qed

lemma dec_digit_zero_iff: "d < 10 \<Longrightarrow> is_zero_digit (dec_digit d) \<longleftrightarrow> d = 0"
proof -
  assume "d < 10"
  then have "d = 0 \<or> d = 1 \<or> d = 2 \<or> d = 3 \<or> d = 4 \<or> d = 5 \<or> d = 6 \<or> d = 7 \<or> d = 8 \<or> d = 9"
    by arith
  then show ?thesis
    by (elim disjE) (simp_all add: dec_digit_def is_zero_digit_def)
qed

lemma show_nat_small: "n < 10 \<Longrightarrow> show_nat n = [dec_digit n]"
  by (simp add: show_nat.simps [of n])

lemma show_nat_large: "10 \<le> n \<Longrightarrow> show_nat n = show_nat (n div 10) @ [dec_digit (n mod 10)]"
  by (simp add: show_nat.simps [of n])

lemma show_nat_not_Nil: "show_nat n \<noteq> []"
  by (cases "n < 10") (simp_all add: show_nat_small show_nat_large)

lemma digits_show_nat: "list_all is_digit (show_nat n)"
proof (induction n rule: show_nat.induct)
  case (1 n)
  then show ?case
    by (cases "n < 10") (simp_all add: show_nat_small show_nat_large is_digit_dec_digit)
qed

lemma hd_show_nat: "0 < n \<Longrightarrow> \<not> is_zero_digit (hd (show_nat n))"
proof (induction n rule: show_nat.induct)
  case (1 n)
  show ?case
  proof (cases "n < 10")
    case True
    with 1 show ?thesis by (simp add: show_nat_small dec_digit_zero_iff)
  next
    case False
    then have "0 < n div 10" by simp
    with 1 False have "\<not> is_zero_digit (hd (show_nat (n div 10)))" by simp
    with False show ?thesis
      by (simp add: show_nat_large show_nat_not_Nil)
  qed
qed

lemma length_fixed_width: "length (fixed_width k n) = k"
  by (induction k arbitrary: n) simp_all

lemma digits_fixed_width: "list_all is_digit (fixed_width k n)"
  by (induction k arbitrary: n) (simp_all add: is_digit_dec_digit)

lemma show_nat_split:
  "10 ^ k \<le> n \<Longrightarrow> show_nat n = show_nat (n div 10 ^ k) @ fixed_width k (n mod 10 ^ k)"
proof (induction k arbitrary: n)
  case 0
  show ?case by simp
next
  case (Suc k)
  have "(1::nat) \<le> 10 ^ k"
    by simp
  moreover have "(10::nat) ^ Suc k = 10 * 10 ^ k"
    by simp
  ultimately have big: "10 \<le> n"
    using Suc.prems by linarith
  have "10 ^ k \<le> n div 10"
    using Suc.prems by (simp add: less_eq_div_iff_mult_less_eq mult.commute)
  then have "show_nat (n div 10) =
      show_nat (n div 10 div 10 ^ k) @ fixed_width k (n div 10 mod 10 ^ k)"
    by (rule Suc.IH)
  moreover have "n div 10 div 10 ^ k = n div 10 ^ Suc k"
    by (simp add: div_mult2_eq)
  moreover have "n mod 10 ^ Suc k div 10 = n div 10 mod 10 ^ k"
    by (simp add: mod_mult2_eq)
  moreover have "n mod 10 ^ Suc k mod 10 = n mod 10"
    by (simp add: mod_mod_cancel)
  ultimately show ?case
    using big by (simp add: show_nat_large)
qed

lemma fixed_width_pad:
  "n < 10 ^ k \<Longrightarrow> 0 < k \<Longrightarrow>
   length (show_nat n) \<le> k \<and>
   fixed_width k n = replicate (k - length (show_nat n)) (CHR ''0'') @ show_nat n"
proof (induction k arbitrary: n)
  case 0
  then show ?case by simp
next
  case (Suc k)
  show ?case
  proof (cases "n < 10")
    case True
    have "fixed_width k 0 = replicate k (CHR ''0'')"
      by (induction k) (simp_all add: dec_digit_def replicate_append_same)
    with True show ?thesis
      by (simp add: show_nat_small)
  next
    case False
    then have k: "0 < k"
      using Suc.prems by (cases k) simp_all
    have "n div 10 < 10 ^ k"
      using Suc.prems by (simp add: less_mult_imp_div_less)
    then have "length (show_nat (n div 10)) \<le> k \<and>
        fixed_width k (n div 10) =
          replicate (k - length (show_nat (n div 10))) (CHR ''0'') @ show_nat (n div 10)"
      using k by (rule Suc.IH)
    with False show ?thesis
      by (simp add: show_nat_large Suc_diff_le)
  qed
qed

lemma fixed_digits_8:
  "fixed_digits n 8 = show_nat (n div 10 ^ 8) @ CHR ''.'' # fixed_width 8 (n mod 10 ^ 8)"
proof (cases "n < 10 ^ 8")
  case True
  then have "length (show_nat n) \<le> 8"
    and "fixed_width 8 n = replicate (8 - length (show_nat n)) (CHR ''0'') @ show_nat n"
    using fixed_width_pad [of n 8] by simp_all
  with True show ?thesis
    by (simp add: fixed_digits_def Let_def show_nat_small Suc_diff_le dec_digit_def)
next
  case False
  then have split: "show_nat n = show_nat (n div 10 ^ 8) @ fixed_width 8 (n mod 10 ^ 8)"
    using show_nat_split [of 8 n] by simp
  have "length (show_nat (n div 10 ^ 8)) \<noteq> 0"
    using show_nat_not_Nil by simp
  then show ?thesis
    by (simp add: fixed_digits_def Let_def split length_fixed_width)
qed

subsection \<open>Trailing zeros and the shape of a printed number\<close>

lemma tz_Nil_iff: "strip_trailing_zeros str = [] \<longleftrightarrow> list_all is_zero_digit str"
  by (simp add: strip_trailing_zeros_def dropWhile_eq_Nil_conv list_all_iff)

lemma tz_append_keep:
  "strip_trailing_zeros ys \<noteq> [] \<Longrightarrow> strip_trailing_zeros (xs @ ys) = xs @ strip_trailing_zeros ys"
proof -
  assume "strip_trailing_zeros ys \<noteq> []"
  then have "dropWhile is_zero_digit (rev ys) \<noteq> []"
    by (simp add: strip_trailing_zeros_def)
  then obtain c where "c \<in> set (rev ys)" "\<not> is_zero_digit c"
    by (auto simp: dropWhile_eq_Nil_conv)
  then have "dropWhile is_zero_digit (rev ys @ rev xs) = dropWhile is_zero_digit (rev ys) @ rev xs"
    by (rule dropWhile_append1)
  then show ?thesis
    by (simp add: strip_trailing_zeros_def)
qed

lemma tz_append_zeros:
  "list_all is_zero_digit ys \<Longrightarrow> strip_trailing_zeros (xs @ ys) = strip_trailing_zeros xs"
proof -
  assume "list_all is_zero_digit ys"
  then have "\<And>c. c \<in> set (rev ys) \<Longrightarrow> is_zero_digit c"
    by (simp add: list_all_iff)
  then have "dropWhile is_zero_digit (rev ys @ rev xs) = dropWhile is_zero_digit (rev xs)"
    by (rule dropWhile_append2)
  then show ?thesis
    by (simp add: strip_trailing_zeros_def)
qed

lemma tz_last: "strip_trailing_zeros str \<noteq> [] \<Longrightarrow> \<not> is_zero_digit (last (strip_trailing_zeros str))"
proof -
  assume "strip_trailing_zeros str \<noteq> []"
  then have ne: "dropWhile is_zero_digit (rev str) \<noteq> []"
    by (simp add: strip_trailing_zeros_def)
  then have "\<not> is_zero_digit (hd (dropWhile is_zero_digit (rev str)))"
    by (rule hd_dropWhile)
  with ne show ?thesis
    by (simp add: strip_trailing_zeros_def last_rev)
qed

lemma tz_restore:
  "strip_trailing_zeros str
     @ replicate (length str - length (strip_trailing_zeros str)) (CHR ''0'') = str"
proof -
  have zs: "takeWhile is_zero_digit xs = replicate (length (takeWhile is_zero_digit xs)) (CHR ''0'')" for xs
    by (induction xs) (simp_all add: is_zero_digit_def)
  have "rev str = takeWhile is_zero_digit (rev str) @ dropWhile is_zero_digit (rev str)"
    by simp
  then have "str = rev (dropWhile is_zero_digit (rev str)) @ rev (takeWhile is_zero_digit (rev str))"
    by (metis rev_append rev_rev_ident)
  moreover have "rev (takeWhile is_zero_digit (rev str)) =
      replicate (length (takeWhile is_zero_digit (rev str))) (CHR ''0'')"
    using zs [of "rev str"] by (metis rev_replicate)
  moreover have "length str - length (strip_trailing_zeros str) = length (takeWhile is_zero_digit (rev str))"
  proof -
    have "length (rev str) =
        length (takeWhile is_zero_digit (rev str)) + length (dropWhile is_zero_digit (rev str))"
      by (metis length_append takeWhile_dropWhile_id)
    then show ?thesis
      by (simp add: strip_trailing_zeros_def)
  qed
  ultimately show ?thesis
    by (simp add: strip_trailing_zeros_def)
qed

lemma tz_length: "length (strip_trailing_zeros str) \<le> length str"
  by (simp add: strip_trailing_zeros_def length_dropWhile_le [of _ "rev str", simplified])

lemma strip_zeros_no_lead:
  "str \<noteq> [] \<Longrightarrow> \<not> is_zero_digit (hd str) \<Longrightarrow> strip_zeros str = strip_trailing_zeros str"
  by (cases str) (simp_all add: strip_zeros_def strip_trailing_zeros_def)

lemma takeWhile_digits: "list_all is_digit xs \<Longrightarrow> \<not> is_digit c \<Longrightarrow>
    takeWhile is_digit (xs @ c # ys) = xs \<and> dropWhile is_digit (xs @ c # ys) = c # ys"
  by (induction xs) simp_all

lemma takeWhile_all_digits: "list_all is_digit xs \<Longrightarrow>
    takeWhile is_digit xs = xs \<and> dropWhile is_digit xs = []"
  by (induction xs) simp_all

lemma not_digit_point: "\<not> is_digit (CHR ''.'')"
  by (simp add: is_digit_def)

lemma exponent_part_Nil: "exponent_part [] = (0, [])"
  by (simp add: exponent_part_def)

lemma fixed_parts:
  assumes "list_all is_digit ip" "list_all is_digit fp"
  shows "takeWhile is_digit (ip @ CHR ''.'' # fp) = ip"
    and "dropWhile is_digit (ip @ CHR ''.'' # fp) = CHR ''.'' # fp"
    and "takeWhile is_digit fp = fp"
    and "dropWhile is_digit fp = []"
  using takeWhile_digits [of ip "CHR ''.''" fp] takeWhile_all_digits [of fp] assms
  by (simp_all add: not_digit_point)

lemma isDecimal_fixed:
  "list_all is_digit ip \<Longrightarrow> list_all is_digit fp \<Longrightarrow> ip \<noteq> [] \<Longrightarrow>
   isDecimal (ip @ CHR ''.'' # fp)"
  by (simp add: isDecimal_def Let_def fixed_parts exponent_part_Nil)

lemma parseDecimal_fixed:
  assumes "list_all is_digit ip" "list_all is_digit fp"
  shows "parseDecimal neg (ip @ CHR ''.'' # fp) =
     (if strip_zeros (ip @ fp) = [] then DFinite neg ''0'' 0
      else if 9000000000000000 < int (length ip) - int (length (takeWhile is_zero_digit (ip @ fp))) - 1
      then DInfinity neg
      else if int (length ip) - int (length (takeWhile is_zero_digit (ip @ fp))) - 1 < - 9000000000000000
      then DFinite neg ''0'' 0
      else DFinite neg (strip_zeros (ip @ fp))
             (int (length ip) - int (length (takeWhile is_zero_digit (ip @ fp))) - 1))"
  by (simp add: parseDecimal_def Let_def fixed_parts [OF assms] exponent_part_Nil)

subsection \<open>From the printed digits to the canonical rendering\<close>

lemma fixed_width_zero: "fixed_width k 0 = replicate k (CHR ''0'')"
  by (induction k) (simp_all add: dec_digit_def replicate_append_same)

lemma show_nat_0: "show_nat 0 = ''0''"
  by (simp add: show_nat_small dec_digit_def)

lemma length_show_nat_le: "n < 10 ^ k \<Longrightarrow> 0 < k \<Longrightarrow> length (show_nat n) \<le> k"
  using fixed_width_pad [of n k] by simp

lemma length_show_nat_ge: "10 ^ j \<le> n \<Longrightarrow> j < length (show_nat n)"
proof -
  assume "10 ^ j \<le> n"
  then have "show_nat n = show_nat (n div 10 ^ j) @ fixed_width j (n mod 10 ^ j)"
    by (rule show_nat_split)
  then have "length (show_nat n) = length (show_nat (n div 10 ^ j)) + j"
    by (simp add: length_fixed_width)
  moreover have "0 < length (show_nat (n div 10 ^ j))"
    using show_nat_not_Nil by simp
  ultimately show ?thesis by simp
qed

lemma show_nat_not_zeros: "0 < n \<Longrightarrow> strip_trailing_zeros (xs @ show_nat n) \<noteq> []"
proof -
  assume "0 < n"
  then have "\<not> is_zero_digit (hd (show_nat n))"
    by (rule hd_show_nat)
  moreover have "hd (show_nat n) \<in> set (xs @ show_nat n)"
    using show_nat_not_Nil [of n] by simp
  ultimately have "\<not> list_all is_zero_digit (xs @ show_nat n)"
    unfolding list_all_iff by blast
  then show ?thesis
    by (simp add: tz_Nil_iff)
qed

lemma finite_zero: "Decimal_toString (DFinite neg ''0'' 0) = ''0''"
  by (simp add: Decimal_toString_def finiteToString_def)

lemma zeros_all: "list_all is_zero_digit (replicate k (CHR ''0''))"
  by (simp add: list_all_iff is_zero_digit_def)

lemma takeWhile_zeros:
  "ys \<noteq> [] \<Longrightarrow> \<not> is_zero_digit (hd ys) \<Longrightarrow>
   takeWhile is_zero_digit (replicate k (CHR ''0'') @ ys) = replicate k (CHR ''0'')
   \<and> dropWhile is_zero_digit (replicate k (CHR ''0'') @ ys) = ys"
  by (induction k) (cases ys; simp add: is_zero_digit_def)+

lemma rendered_integer:
  assumes hi: "0 < hi" "hi < 10 ^ 21" and lo: "lo < 10 ^ 8"
  shows "Decimal_toString (parseDecimal neg (show_nat hi @ CHR ''.'' # fixed_width 8 lo)) =
     (if neg then ''-'' else '''') @ show_nat hi
       @ (let frac = strip_trailing_zeros (fixed_width 8 lo)
          in if frac = [] then [] else CHR ''.'' # frac)"
proof -
  define ip where "ip = show_nat hi"
  define fp where "fp = fixed_width 8 lo"
  have ip: "ip \<noteq> []" "\<not> is_zero_digit (hd ip)" "list_all is_digit ip"
    using hi by (simp_all add: ip_def show_nat_not_Nil hd_show_nat digits_show_nat)
  have len: "length ip \<le> 21" "0 < length ip"
    using hi length_show_nat_le [of hi 21] ip(1) by (simp_all add: ip_def)
  have fp: "list_all is_digit fp" "length fp = 8"
    by (simp_all add: fp_def digits_fixed_width length_fixed_width)
  have lead: "takeWhile is_zero_digit (ip @ fp) = []"
    using ip by (cases ip) simp_all
  have sz: "strip_zeros (ip @ fp) = strip_trailing_zeros (ip @ fp)"
    using ip by (intro strip_zeros_no_lead) simp_all
  have ipz: "strip_trailing_zeros ip \<noteq> []"
    using show_nat_not_zeros [of hi "[]"] hi by (simp add: ip_def)
  show ?thesis
  proof (cases "strip_trailing_zeros fp = []")
    case True
    then have sig: "strip_trailing_zeros (ip @ fp) = strip_trailing_zeros ip"
      by (simp add: tz_append_zeros tz_Nil_iff)
    define sig where "sig = strip_trailing_zeros ip"
    have sig_len: "length sig \<le> length ip" "sig \<noteq> []"
      using ipz by (simp_all add: sig_def tz_length)
    have restore: "sig @ replicate (length ip - length sig) (CHR ''0'') = ip"
      by (simp add: sig_def tz_restore)
    have not0: "sig \<noteq> ''0''"
      using tz_last [of ip] ipz by (auto simp: sig_def is_zero_digit_def)
    have parsed: "parseDecimal neg (ip @ CHR ''.'' # fp) = DFinite neg sig (int (length ip) - 1)"
      using ipz len
      by (simp add: parseDecimal_fixed [OF ip(3) fp(1)] sz sig lead sig_def)
    have "finiteToString sig (int (length ip) - 1) False = ip"
    proof (cases "length sig < length ip")
      case True
      then have "nat (int (length ip) - 1 + 1) - length sig = length ip - length sig"
        by simp
      with True restore len show ?thesis
        by (simp add: finiteToString_def)
    next
      case False
      with sig_len have "length sig = length ip" by simp
      with restore have "sig = ip" by simp
      with len show ?thesis
        by (simp add: finiteToString_def)
    qed
    then have "Decimal_toString (DFinite neg sig (int (length ip) - 1)) =
        (if neg then ''-'' else '''') @ ip"
      using not0 len by (simp add: Decimal_toString_def)
    with parsed True show ?thesis
      by (simp add: ip_def fp_def)
  next
    case False
    then have sig: "strip_trailing_zeros (ip @ fp) = ip @ strip_trailing_zeros fp"
      by (rule tz_append_keep)
    define frac where "frac = strip_trailing_zeros fp"
    have frac: "frac \<noteq> []"
      using False by (simp add: frac_def)
    have not0: "ip @ frac \<noteq> ''0''"
      using frac ip(1) by (cases ip) simp_all
    have parsed: "parseDecimal neg (ip @ CHR ''.'' # fp) = DFinite neg (ip @ frac) (int (length ip) - 1)"
      using len ip(1)
      by (simp add: parseDecimal_fixed [OF ip(3) fp(1)] sz sig lead frac_def)
    have "finiteToString (ip @ frac) (int (length ip) - 1) False = ip @ CHR ''.'' # frac"
      using frac len by (simp add: finiteToString_def)
    then have "Decimal_toString (DFinite neg (ip @ frac) (int (length ip) - 1)) =
        (if neg then ''-'' else '''') @ ip @ CHR ''.'' # frac"
      using not0 len by (simp add: Decimal_toString_def)
    with parsed frac show ?thesis
      by (simp add: ip_def fp_def frac_def Let_def)
  qed
qed

lemma rendered_fraction:
  assumes lo: "100 \<le> lo" "lo < 10 ^ 8"
  shows "Decimal_toString (parseDecimal neg (show_nat 0 @ CHR ''.'' # fixed_width 8 lo)) =
     (if neg then ''-'' else '''') @ ''0.'' @ strip_trailing_zeros (fixed_width 8 lo)"
proof -
  define body where "body = show_nat lo"
  define lz where "lz = 8 - length body"
  have pos: "0 < lo" using lo by simp
  have len: "3 \<le> length body" "length body \<le> 8"
    using length_show_nat_ge [of 2 lo] length_show_nat_le [of lo 8] lo
    by (simp_all add: body_def)
  have fp: "fixed_width 8 lo = replicate lz (CHR ''0'') @ body"
    using fixed_width_pad [of lo 8] lo by (simp add: body_def lz_def)
  have body: "body \<noteq> []" "\<not> is_zero_digit (hd body)"
    using pos by (simp_all add: body_def show_nat_not_Nil hd_show_nat)
  have tzb: "strip_trailing_zeros body \<noteq> []"
    using show_nat_not_zeros [of lo "[]"] pos by (simp add: body_def)
  define sig where "sig = strip_trailing_zeros body"
  have sig: "sig \<noteq> []" "sig \<noteq> ''0''"
    using tzb tz_last [of body] by (auto simp: sig_def is_zero_digit_def)
  have zeros: "CHR ''0'' # replicate lz (CHR ''0'') = replicate (Suc lz) (CHR ''0'')"
    by simp
  have split: "takeWhile is_zero_digit (replicate (Suc lz) (CHR ''0'') @ body) = replicate (Suc lz) (CHR ''0'')"
    "dropWhile is_zero_digit (replicate (Suc lz) (CHR ''0'') @ body) = body"
    using takeWhile_zeros [OF body, of "Suc lz"] by simp_all
  have digits: "list_all is_digit (show_nat 0)" "list_all is_digit (fixed_width 8 lo)"
    by (simp_all add: digits_show_nat digits_fixed_width)
  have ds: "show_nat 0 @ fixed_width 8 lo = replicate (Suc lz) (CHR ''0'') @ body"
    by (simp add: show_nat_0 fp)
  have sz: "strip_zeros (replicate (Suc lz) (CHR ''0'') @ body) = sig"
    unfolding strip_zeros_def split(2) by (simp add: sig_def strip_trailing_zeros_def)
  have lz: "lz \<le> 5"
    using len by (simp add: lz_def)
  have one: "length (show_nat 0) = 1"
    by (simp add: show_nat_0)
  have parsed: "parseDecimal neg (show_nat 0 @ CHR ''.'' # fixed_width 8 lo) =
      DFinite neg sig (- int lz - 1)"
    unfolding parseDecimal_fixed [OF digits] ds sz split(1) one
    using sig(1) lz by simp
  have "finiteToString sig (- int lz - 1) False = ''0.'' @ replicate lz (CHR ''0'') @ sig"
    by (simp add: finiteToString_def)
  moreover have "replicate lz (CHR ''0'') @ sig = strip_trailing_zeros (fixed_width 8 lo)"
    using tzb by (simp add: fp sig_def tz_append_keep)
  ultimately have "finiteToString sig (- int lz - 1) False =
      ''0.'' @ strip_trailing_zeros (fixed_width 8 lo)"
    by simp
  then have "Decimal_toString (DFinite neg sig (- int lz - 1)) =
      (if neg then ''-'' else '''') @ ''0.'' @ strip_trailing_zeros (fixed_width 8 lo)"
    using sig(2) lz by (simp add: Decimal_toString_def)
  with parsed show ?thesis by simp
qed

lemma rendered_zero:
  "Decimal_toString (parseDecimal neg (show_nat 0 @ CHR ''.'' # fixed_width 8 0)) = ''0''"
proof -
  have "parseDecimal neg ''0.00000000'' = DFinite neg ''0'' 0"
    by (simp add: parseDecimal_def Let_def is_digit_def is_zero_digit_def exponent_part_def
        strip_zeros_def)
  moreover have "show_nat 0 @ CHR ''.'' # fixed_width 8 0 = ''0.00000000''"
    by (simp add: show_nat_0 fixed_width_zero numeral_eq_Suc)
  ultimately show ?thesis
    by (simp add: finite_zero)
qed

lemma canonical_zero: "canonical_decimal neg 0 = ''0''"
  by (simp add: canonical_decimal_def show_nat_0 fixed_width_zero tz_Nil_iff zeros_all
      del: fixed_width.simps)

text \<open>What \<open>new Decimal(...).toString()\<close> makes of the digits \<open>toFixed\<close> prints.\<close>

lemma rendered_canonical:
  assumes "n = 0 \<or> 100 \<le> n" "n < 10 ^ 29"
  shows "Decimal_toString (parseDecimal neg (fixed_digits n 8)) = canonical_decimal neg n"
proof -
  define hi where "hi = n div 10 ^ 8"
  define lo where "lo = n mod 10 ^ 8"
  have lo: "lo < 10 ^ 8" by (simp add: lo_def)
  have hi: "hi < 10 ^ 21"
    using assms(2) by (simp add: hi_def less_mult_imp_div_less)
  have body: "fixed_digits n 8 = show_nat hi @ CHR ''.'' # fixed_width 8 lo"
    by (simp add: fixed_digits_8 hi_def lo_def)
  have canon: "canonical_decimal neg n =
      (if neg \<and> n \<noteq> 0 then ''-'' else []) @ show_nat hi
        @ (let frac = strip_trailing_zeros (fixed_width 8 lo)
           in if frac = [] then [] else CHR ''.'' # frac)"
    by (simp only: canonical_decimal_def hi_def lo_def)
  consider "n = 0" | "0 < hi" | "hi = 0" "100 \<le> n"
    using assms(1) by (cases "hi = 0") auto
  then show ?thesis
  proof cases
    case 1
    then show ?thesis
      using rendered_zero [of neg] by (simp add: fixed_digits_8 canonical_zero)
  next
    case 2
    then have "n \<noteq> 0" by (auto simp: hi_def)
    with 2 show ?thesis
      using rendered_integer [of hi lo neg] hi lo
      by (simp add: body canon Let_def del: fixed_width.simps)
  next
    case 3
    then have n: "n = lo" "100 \<le> lo" "n \<noteq> 0"
      using div_mult_mod_eq [of n "10 ^ 8"] by (simp_all add: hi_def lo_def)
    have "strip_trailing_zeros (fixed_width 8 lo) \<noteq> []"
      using show_nat_not_zeros [of lo "replicate (8 - length (show_nat lo)) (CHR ''0'')"]
        fixed_width_pad [of lo 8] lo n by simp
    then show ?thesis
      using rendered_fraction [of lo neg] n(2,3) lo 3(1)
      by (simp add: body canon Let_def show_nat_0 del: fixed_width.simps)
  qed
qed

subsection \<open>Reading back what toFixed prints\<close>

lemma nat_of_digits_snoc:
  "nat_of_digits (xs @ [c]) = 10 * nat_of_digits xs + ((of_char c :: nat) - 48)"
  by (simp add: nat_of_digits_def)

lemma nat_of_digits_show_nat: "nat_of_digits (show_nat n) = n"
proof (induction n rule: show_nat.induct)
  case (1 n)
  show ?case
  proof (cases "n < 10")
    case True
    then show ?thesis
      by (simp add: show_nat_small nat_of_digits_def digit_value)
  next
    case False
    with 1 show ?thesis
      by (simp add: show_nat_large nat_of_digits_snoc digit_value)
  qed
qed

lemma nat_of_digits_fixed_width:
  "nat_of_digits (xs @ fixed_width k m) = nat_of_digits xs * 10 ^ k + m mod 10 ^ k"
proof (induction k arbitrary: m)
  case 0
  show ?case by simp
next
  case (Suc k)
  have "nat_of_digits (xs @ fixed_width (Suc k) m) =
      10 * nat_of_digits (xs @ fixed_width k (m div 10)) + m mod 10"
    using nat_of_digits_snoc [of "xs @ fixed_width k (m div 10)" "dec_digit (m mod 10)"]
    by (simp add: digit_value)
  also have "\<dots> = 10 * (nat_of_digits xs * 10 ^ k + m div 10 mod 10 ^ k) + m mod 10"
    by (simp only: Suc.IH)
  also have "\<dots> = nat_of_digits xs * 10 ^ Suc k + (10 * (m div 10 mod 10 ^ k) + m mod 10)"
    by (simp add: algebra_simps)
  also have "10 * (m div 10 mod 10 ^ k) + m mod 10 = m mod 10 ^ Suc k"
    by (simp add: mod_mult2_eq)
  finally show ?case .
qed

lemma nat_of_digits_fixed_digits:
  "nat_of_digits (show_nat (n div 10 ^ 8) @ fixed_width 8 (n mod 10 ^ 8)) = n"
  using nat_of_digits_fixed_width [of "show_nat (n div 10 ^ 8)" 8 "n mod 10 ^ 8"]
  by (simp add: nat_of_digits_show_nat del: fixed_width.simps)

lemma digit_head:
  assumes "list_all is_digit ip" "ip \<noteq> []"
  shows "take 1 (ip @ rest) \<noteq> ''-''" "take 1 (ip @ rest) \<noteq> ''+''"
    "\<not> is_space (hd (ip @ rest))" "\<not> startsWith (ip @ rest) ''Infinity''"
  using assms by (cases ip; simp add: is_digit_def is_space_def startsWith_def; fastforce)+

lemma parseFloat_fixed:
  "parseFloat ((if neg then ''-'' else []) @ fixed_digits n 8) = from_decimal neg n (- 8)"
proof -
  define ip where "ip = show_nat (n div 10 ^ 8)"
  define fp where "fp = fixed_width 8 (n mod 10 ^ 8)"
  define body where "body = ip @ CHR ''.'' # fp"
  have ip: "list_all is_digit ip" "ip \<noteq> []"
    by (simp_all add: ip_def digits_show_nat show_nat_not_Nil)
  have fp: "list_all is_digit fp" "length fp = 8"
    by (simp_all add: fp_def digits_fixed_width length_fixed_width)
  have body: "fixed_digits n 8 = body"
    by (simp only: fixed_digits_8 body_def ip_def fp_def)
  note head = digit_head [OF ip, of "CHR ''.'' # fp", folded body_def]
  have bne: "body \<noteq> []" by (simp add: body_def)
  have digits_value: "nat_of_digits (ip @ fp) = n"
    by (simp only: ip_def fp_def nat_of_digits_fixed_digits)
  note parts = fixed_parts [OF ip(1) fp(1), folded body_def]
  show ?thesis
  proof (cases neg)
    case True
    have "dropWhile is_space (CHR ''-'' # body) = CHR ''-'' # body"
      by (simp add: is_space_def)
    then show ?thesis
      using head(4) True ip(2)
      by (simp add: parseFloat_def body Let_def parts exponent_part_Nil digits_value fp(2))
  next
    case False
    have "dropWhile is_space body = body"
      using head(3) bne by (cases body) simp_all
    then show ?thesis
      using head False ip(2)
      by (simp add: parseFloat_def body Let_def parts exponent_part_Nil digits_value fp(2))
  qed
qed

lemma Decimal_new_fixed:
  "Decimal_new ((if neg then ''-'' else []) @ fixed_digits n 8) = Inr (parseDecimal neg (fixed_digits n 8))"
proof -
  define ip where "ip = show_nat (n div 10 ^ 8)"
  define fp where "fp = fixed_width 8 (n mod 10 ^ 8)"
  have ip: "list_all is_digit ip" "ip \<noteq> []"
    by (simp_all add: ip_def digits_show_nat show_nat_not_Nil)
  have fp: "list_all is_digit fp"
    by (simp add: fp_def digits_fixed_width)
  have body: "fixed_digits n 8 = ip @ CHR ''.'' # fp"
    by (simp only: fixed_digits_8 ip_def fp_def)
  note head = digit_head [OF ip, of "CHR ''.'' # fp"]
  have dec: "isDecimal (ip @ CHR ''.'' # fp)"
    using ip fp by (simp add: isDecimal_fixed)
  show ?thesis
    using head(1) dec by (cases neg) (simp_all add: Decimal_new_def body Let_def)
qed

lemma fixed_not_minus_zero: "(if neg then ''-'' else []) @ fixed_digits n 8 \<noteq> ''-0''"
proof -
  have "length (fixed_digits n 8) \<ge> 10"
    using show_nat_not_Nil [of "n div 10 ^ 8"]
    by (simp add: fixed_digits_8 length_fixed_width Suc_le_eq del: fixed_width.simps)
  then have "length ((if neg then ''-'' else []) @ fixed_digits n 8) \<noteq> length ''-0''"
    by simp
  then show ?thesis by metis
qed

lemma toFixed_Num:
  "\<bar>q\<bar> < 10 ^ 21 \<Longrightarrow>
   toFixed (Num q) 8 = (if q < 0 then ''-'' else []) @ fixed_digits (nat \<lfloor>\<bar>q\<bar> * 10 ^ 8 + 1 / 2\<rfloor>) 8"
  by (simp add: toFixed_def)

lemma floatToWire_Num:
  assumes "\<bar>q\<bar> < 10 ^ 21"
  shows "floatToWire (Num q) =
     (if num_ge (Math_abs (num_sub (parseFloat (toFixed (Num q) 8)) (Num q))) (fl (1 / 10 ^ 12))
      then Inl (Error ''floatToWire causes rounding'')
      else Inr (Decimal_toString
                  (parseDecimal (q < 0) (fixed_digits (nat \<lfloor>\<bar>q\<bar> * 10 ^ 8 + 1 / 2\<rfloor>) 8))))"
  unfolding floatToWire_def Let_def toFixed_Num [OF assms]
  using fixed_not_minus_zero [of "q < 0" "nat \<lfloor>\<bar>q\<bar> * 10 ^ 8 + 1 / 2\<rfloor>"]
  by (simp add: Decimal_new_fixed)

lemma fixed_width_8_0: "fixed_width 8 0 = ''00000000''"
proof -
  have "(8::nat) = Suc (Suc (Suc (Suc (Suc (Suc (Suc (Suc 0)))))))"
    by simp
  then have "fixed_width 8 0 = replicate (Suc (Suc (Suc (Suc (Suc (Suc (Suc (Suc 0)))))))) (CHR ''0'')"
    by (simp only: fixed_width_zero)
  then show ?thesis by simp
qed

lemma floatToWire_NegZero: "floatToWire NegZero = Inr ''0''"
proof -
  have fixed: "toFixed NegZero 8 = ''0.00000000''"
    by (simp add: toFixed_def fixed_digits_8 show_nat_0 fixed_width_8_0 del: fixed_width.simps)
  have parsed: "parseFloat ''0.00000000'' = Num 0"
    by (simp add: parseFloat_def Let_def char_tests startsWith_def nat_of_digits_def
        exponent_part_def from_decimal_def)
  have dec: "Decimal_new ''0.00000000'' = Inr (DFinite False ''0'' 0)"
    by (simp add: Decimal_new_def isDecimal_def parseDecimal_def Let_def char_tests
        exponent_part_def strip_zeros_def)
  show ?thesis
    using fl_1e_12
    by (simp add: floatToWire_def fixed parsed dec finite_zero)
qed

subsection \<open>The precision test\<close>

lemma parseFloat_toFixed:
  "\<bar>q\<bar> < 10 ^ 21 \<Longrightarrow>
   parseFloat (toFixed (Num q) 8) = from_decimal (q < 0) (nat \<lfloor>\<bar>q\<bar> * 10 ^ 8 + 1 / 2\<rfloor>) (- 8)"
  by (simp only: toFixed_Num parseFloat_fixed)







section \<open>Order wires\<close>

lemma floatToWire_error:
  "floatToWire x = Inl e \<Longrightarrow> e = Error ''floatToWire causes rounding'' \<or> e = DecimalError"
  by (auto simp: floatToWire_def Let_def Decimal_new_def split: if_splits sum.splits)

lemma orderTypeToWire_limit:
  "limit orderType \<noteq> Absent \<Longrightarrow>
   orderTypeToWire orderType = Inr \<lparr>limit = limit orderType, trigger = Absent\<rparr>"
  by (simp add: orderTypeToWire_def)

lemma orderTypeToWire_trigger:
  "limit orderType = Absent \<Longrightarrow> trigger orderType = Present trig \<Longrightarrow>
   orderTypeToWire orderType =
     (case floatToWire (triggerPx trig) of
        Inl e \<Rightarrow> Inl e
      | Inr px \<Rightarrow>
          Inr \<lparr>limit = Absent,
               trigger = Present \<lparr>triggerPx = px, isMarket = isMarket trig, tpsl = tpsl trig\<rparr>\<rparr>)"
  by (simp add: orderTypeToWire_def)

lemma orderTypeToWire_invalid:
  "orderTypeToWire orderType = Inl (Error ''Invalid order type'') \<longleftrightarrow>
     limit orderType = Absent \<and> (trigger orderType = Absent \<or> trigger orderType = Undefined)"
proof (cases "limit orderType = Absent")
  case False
  then show ?thesis by (simp add: orderTypeToWire_def)
next
  case True
  show ?thesis
  proof (cases "trigger orderType")
    case (Present trig)
    have "floatToWire (triggerPx trig) \<noteq> Inl (Error ''Invalid order type'')"
      using floatToWire_error [of "triggerPx trig" "Error ''Invalid order type''"] by auto
    with True Present show ?thesis
      by (auto simp: orderTypeToWire_def split: sum.splits)
  qed (simp_all add: True orderTypeToWire_def)
qed

lemma orderRequestToOrderWire_Inr:
  assumes "floatToWire (limit_px order) = Inr px" "floatToWire (sz order) = Inr qty"
    "orderTypeToWire (order_type order) = Inr typeWire"
  shows "orderRequestToOrderWire order asset =
     Inr ([(''a'', WNumber asset), (''b'', WBool (is_buy order)), (''p'', WString px),
           (''s'', WString qty), (''r'', WBool (reduce_only order)), (''t'', WOrderType typeWire)]
          @ (case cloid order of Present (Some given) \<Rightarrow> [(''c'', WString (toRaw given))] | _ \<Rightarrow> []))"
  using assms
  by (simp add: orderRequestToOrderWire_def split: optional.split option.split)

lemma orderRequestToOrderWire_Inl:
  "orderRequestToOrderWire order asset = Inl e \<longleftrightarrow>
     floatToWire (limit_px order) = Inl e
     \<or> (\<exists>px. floatToWire (limit_px order) = Inr px) \<and> floatToWire (sz order) = Inl e
     \<or> (\<exists>px. floatToWire (limit_px order) = Inr px) \<and> (\<exists>qty. floatToWire (sz order) = Inr qty)
        \<and> orderTypeToWire (order_type order) = Inl e"
  by (auto simp: orderRequestToOrderWire_def Let_def split: sum.splits optional.splits option.splits)

section \<open>The canonical rendering\<close>

lemma set_tz: "set (strip_trailing_zeros str) \<subseteq> set str"
  using set_dropWhileD [of _ is_zero_digit "rev str"]
  by (auto simp: strip_trailing_zeros_def)

lemma digit_not_mark:
  "is_digit c \<Longrightarrow> c \<noteq> CHR ''.'' \<and> c \<noteq> CHR ''-'' \<and> c \<noteq> CHR ''e'' \<and> c \<noteq> CHR ''E''"
  by (auto simp: is_digit_def)

lemma canonical_parts:
  obtains mark ip frac where
    "canonical_decimal neg n = mark @ ip @ (if frac = [] then [] else CHR ''.'' # frac)"
    "mark = (if neg \<and> n \<noteq> 0 then ''-'' else [])"
    "ip = show_nat (n div 10 ^ 8)"
    "frac = strip_trailing_zeros (fixed_width 8 (n mod 10 ^ 8))"
  by (simp add: canonical_decimal_def Let_def)

lemma canonical_shape:
  "CHR ''e'' \<notin> set (canonical_decimal neg n)"
  "CHR ''E'' \<notin> set (canonical_decimal neg n)"
  "CHR ''.'' \<in> set (canonical_decimal neg n) \<longrightarrow> last (canonical_decimal neg n) \<noteq> CHR ''0''"
  "hd (canonical_decimal neg n) = CHR ''-'' \<longleftrightarrow> neg \<and> n \<noteq> 0"
  "take 1 (drop (if neg \<and> n \<noteq> 0 then 1 else 0) (canonical_decimal neg n)) = ''0'' \<longrightarrow>
     drop (if neg \<and> n \<noteq> 0 then 1 else 0) (canonical_decimal neg n) = ''0''
     \<or> take 2 (drop (if neg \<and> n \<noteq> 0 then 1 else 0) (canonical_decimal neg n)) = ''0.''"
proof -
  obtain mark ip frac where
    str: "canonical_decimal neg n = mark @ ip @ (if frac = [] then [] else CHR ''.'' # frac)"
    and mark: "mark = (if neg \<and> n \<noteq> 0 then ''-'' else [])"
    and ip: "ip = show_nat (n div 10 ^ 8)"
    and frac: "frac = strip_trailing_zeros (fixed_width 8 (n mod 10 ^ 8))"
    by (rule canonical_parts)
  have ipd: "\<forall>c\<in>set ip. is_digit c" and ipn: "ip \<noteq> []"
    using digits_show_nat [of "n div 10 ^ 8"] show_nat_not_Nil [of "n div 10 ^ 8"]
    by (simp_all add: ip list_all_iff)
  have fd: "\<forall>c\<in>set frac. is_digit c"
    using digits_fixed_width [of 8 "n mod 10 ^ 8"] set_tz [of "fixed_width 8 (n mod 10 ^ 8)"]
    by (auto simp: frac list_all_iff simp del: fixed_width.simps)
  have chars: "\<forall>c\<in>set (canonical_decimal neg n). is_digit c \<or> c = CHR ''.'' \<or> c = CHR ''-''"
    using ipd fd by (auto simp: str mark)
  show "CHR ''e'' \<notin> set (canonical_decimal neg n)" "CHR ''E'' \<notin> set (canonical_decimal neg n)"
    using chars by (auto simp: is_digit_def)
  show "CHR ''.'' \<in> set (canonical_decimal neg n) \<longrightarrow> last (canonical_decimal neg n) \<noteq> CHR ''0''"
  proof (cases "frac = []")
    case True
    then have "CHR ''.'' \<notin> set (canonical_decimal neg n)"
      using ipd digit_not_mark by (auto simp: str mark)
    then show ?thesis by simp
  next
    case False
    then have "\<not> is_zero_digit (last frac)"
      unfolding frac by (rule tz_last)
    with False show ?thesis
      by (simp add: str is_zero_digit_def)
  qed
  have hd_digit: "is_digit (hd ip)"
    using ipd ipn by (cases ip) simp_all
  show "hd (canonical_decimal neg n) = CHR ''-'' \<longleftrightarrow> neg \<and> n \<noteq> 0"
    using hd_digit ipn digit_not_mark [of "hd ip"] by (auto simp: str mark)
  have unsigned: "drop (if neg \<and> n \<noteq> 0 then 1 else 0) (canonical_decimal neg n) =
      ip @ (if frac = [] then [] else CHR ''.'' # frac)"
    by (simp add: str mark)
  show "take 1 (drop (if neg \<and> n \<noteq> 0 then 1 else 0) (canonical_decimal neg n)) = ''0'' \<longrightarrow>
     drop (if neg \<and> n \<noteq> 0 then 1 else 0) (canonical_decimal neg n) = ''0''
     \<or> take 2 (drop (if neg \<and> n \<noteq> 0 then 1 else 0) (canonical_decimal neg n)) = ''0.''"
  proof (cases "n div 10 ^ 8 = 0")
    case True
    then have "ip = ''0''"
      by (simp add: ip show_nat_0)
    then show ?thesis
      unfolding unsigned by simp
  next
    case False
    then have "\<not> is_zero_digit (hd ip)"
      unfolding ip by (intro hd_show_nat) simp
    then have "take 1 (ip @ (if frac = [] then [] else CHR ''.'' # frac)) \<noteq> ''0''"
      using ipn by (cases ip) (simp_all add: is_zero_digit_def)
    then show ?thesis
      unfolding unsigned by simp
  qed
qed

lemma floatToWire_in_range:
  assumes "floatToWire (Num q) = Inr str" "\<bar>q\<bar> < 10 ^ 21"
    "n = nat \<lfloor>\<bar>q\<bar> * 10 ^ 8 + 1 / 2\<rfloor>" "n = 0 \<or> 100 \<le> n" "n < 10 ^ 29"
  shows "str = canonical_decimal (q < 0) n"
proof -
  have "str = Decimal_toString (parseDecimal (q < 0) (fixed_digits n 8))"
    using assms(1) by (simp add: floatToWire_Num [OF assms(2)] assms(3) split: if_splits)
  then show ?thesis
    using rendered_canonical [OF assms(4,5), of "q < 0"] by simp
qed

subsection \<open>Particular numbers\<close>

lemma fixed_width_8:
  "fixed_width 8 m =
     [dec_digit (m div 10000000 mod 10), dec_digit (m div 1000000 mod 10),
      dec_digit (m div 100000 mod 10), dec_digit (m div 10000 mod 10),
      dec_digit (m div 1000 mod 10), dec_digit (m div 100 mod 10),
      dec_digit (m div 10 mod 10), dec_digit (m mod 10)]"
proof -
  have nested: "fixed_width (Suc (Suc (Suc (Suc (Suc (Suc (Suc (Suc 0)))))))) m =
     [dec_digit (m div 10 div 10 div 10 div 10 div 10 div 10 div 10 mod 10),
      dec_digit (m div 10 div 10 div 10 div 10 div 10 div 10 mod 10),
      dec_digit (m div 10 div 10 div 10 div 10 div 10 mod 10),
      dec_digit (m div 10 div 10 div 10 div 10 mod 10),
      dec_digit (m div 10 div 10 div 10 mod 10), dec_digit (m div 10 div 10 mod 10),
      dec_digit (m div 10 mod 10), dec_digit (m mod 10)]"
    by (simp only: fixed_width.simps append.simps)
  have "Suc (Suc (Suc (Suc (Suc (Suc (Suc (Suc 0))))))) = 8"
    by simp
  with nested have "fixed_width 8 m =
     [dec_digit (m div 10 div 10 div 10 div 10 div 10 div 10 div 10 mod 10),
      dec_digit (m div 10 div 10 div 10 div 10 div 10 div 10 mod 10),
      dec_digit (m div 10 div 10 div 10 div 10 div 10 mod 10),
      dec_digit (m div 10 div 10 div 10 div 10 mod 10),
      dec_digit (m div 10 div 10 div 10 mod 10), dec_digit (m div 10 div 10 mod 10),
      dec_digit (m div 10 mod 10), dec_digit (m mod 10)]"
    by (simp only:)
  then show ?thesis
    by (simp add: div_mult2_eq [symmetric] del: fixed_width.simps)
qed

lemma fl_minus_1_5: "fl (- (3 / 2)) = Num (- (3 / 2))"
  using fl_nearest [of 0 "- (3 / 2)" "3 * 2 ^ 51"] by simp

lemma floatToWire_minus_1_5: "floatToWire (Num (- (3 / 2))) = Inr ''-1.5''"
proof -
  have small: "\<bar>- (3 / 2) :: rat\<bar> < 10 ^ 21"
    by simp
  have n: "nat \<lfloor>\<bar>- (3 / 2) :: rat\<bar> * 10 ^ 8 + 1 / 2\<rfloor> = 150000000"
    by (simp add: floor_numeral_frac)
  have "parseFloat (toFixed (Num (- (3 / 2))) 8) = from_decimal True 150000000 (- 8)"
    using parseFloat_toFixed [OF small] n by simp
  then have parsed: "parseFloat (toFixed (Num (- (3 / 2))) 8) = Num (- (3 / 2))"
    using fl_minus_1_5 by (simp add: from_decimal_def)
  have keep: "\<not> num_ge (Math_abs (num_sub (Num (- (3 / 2))) (Num (- (3 / 2))))) (fl (1 / 10 ^ 12))"
    using fl_1e_12 by simp
  have "Decimal_toString (parseDecimal True (fixed_digits 150000000 8)) =
      canonical_decimal True 150000000"
    by (rule rendered_canonical) simp_all
  also have "\<dots> = ''-1.5''"
    by (simp add: canonical_decimal_def fixed_width_8 show_nat_small dec_digit_def
        strip_trailing_zeros_def is_zero_digit_def del: fixed_width.simps)
  finally have shown: "Decimal_toString (parseDecimal True (fixed_digits 150000000 8)) = ''-1.5''" .
  show ?thesis
    using keep shown n
    by (simp only: floatToWire_Num [OF small] parsed) simp
qed

lemma fl_tiny: "fl (1 / 2 ^ 50) = Num (1 / 2 ^ 50)"
  using fl_nearest [of "- 50" "1 / 2 ^ 50" "2 ^ 52"] by simp

lemma floatToWire_minus_tiny: "floatToWire (Num (- (1 / 2 ^ 50))) = Inr ''0''"
proof -
  have small: "\<bar>- (1 / 2 ^ 50) :: rat\<bar> < 10 ^ 21"
    by simp
  have n: "nat \<lfloor>\<bar>- (1 / 2 ^ 50) :: rat\<bar> * 10 ^ 8 + 1 / 2\<rfloor> = 0"
    by (simp add: floor_numeral_frac)
  have "parseFloat (toFixed (Num (- (1 / 2 ^ 50))) 8) = from_decimal True 0 (- 8)"
    using parseFloat_toFixed [OF small] n by simp
  then have parsed: "parseFloat (toFixed (Num (- (1 / 2 ^ 50))) 8) = NegZero"
    by (simp add: from_decimal_def)
  have keep: "\<not> num_ge (Math_abs (num_sub NegZero (Num (- (1 / 2 ^ 50))))) (fl (1 / 10 ^ 12))"
    using fl_1e_12 fl_tiny by simp
  have "Decimal_toString (parseDecimal True (fixed_digits 0 8)) = canonical_decimal True 0"
    by (rule rendered_canonical) simp_all
  then have shown: "Decimal_toString (parseDecimal True (fixed_digits 0 8)) = ''0''"
    by (simp only: canonical_zero)
  show ?thesis
    using keep shown n
    by (simp only: floatToWire_Num [OF small] parsed) simp
qed

lemma fl_1e_8: "fl (1 / 10 ^ 8) = Num (6044629098073146 / 2 ^ 79)"
  using fl_nearest [of "- 27" "1 / 10 ^ 8" 6044629098073146] by simp

lemma floatToWire_1e_8: "floatToWire (Num (6044629098073146 / 2 ^ 79)) = Inr ''1e-8''"
proof -
  have small: "\<bar>6044629098073146 / 2 ^ 79 :: rat\<bar> < 10 ^ 21"
    by simp
  have n: "nat \<lfloor>\<bar>6044629098073146 / 2 ^ 79 :: rat\<bar> * 10 ^ 8 + 1 / 2\<rfloor> = 1"
    by (simp add: floor_numeral_frac)
  have "parseFloat (toFixed (Num (6044629098073146 / 2 ^ 79)) 8) = from_decimal False 1 (- 8)"
    using parseFloat_toFixed [OF small] n by simp
  then have parsed: "parseFloat (toFixed (Num (6044629098073146 / 2 ^ 79)) 8) =
      Num (6044629098073146 / 2 ^ 79)"
    using fl_1e_8 by (simp add: from_decimal_def)
  have keep: "\<not> num_ge (Math_abs (num_sub (Num (6044629098073146 / 2 ^ 79))
      (Num (6044629098073146 / 2 ^ 79)))) (fl (1 / 10 ^ 12))"
    using fl_1e_12 by simp
  have digits: "fixed_digits 1 8 = ''0.00000001''"
    by (simp add: fixed_digits_8 fixed_width_8 show_nat_small dec_digit_def del: fixed_width.simps)
  have "parseDecimal False ''0.00000001'' = DFinite False ''1'' (- 8)"
    by (simp add: parseDecimal_def Let_def char_tests exponent_part_def strip_zeros_def)
  moreover have "Decimal_toString (DFinite False ''1'' (- 8)) = ''1e-8''"
    by (simp add: Decimal_toString_def finiteToString_def show_int_def show_nat_small dec_digit_def)
  ultimately have shown: "Decimal_toString (parseDecimal False (fixed_digits 1 8)) = ''1e-8''"
    by (simp only: digits)
  show ?thesis
    using keep shown n
    by (simp only: floatToWire_Num [OF small] parsed) simp
qed

lemma fl_0_001: "fl (1 / 1000) = Num (4611686018427388 / 2 ^ 62)"
  using fl_nearest [of "- 10" "1 / 1000" 4611686018427388] by simp

lemma floatToWire_0_001: "floatToWire (Num (4611686018427388 / 2 ^ 62)) = Inr ''0.001''"
proof -
  have small: "\<bar>4611686018427388 / 2 ^ 62 :: rat\<bar> < 10 ^ 21"
    by simp
  have n: "nat \<lfloor>\<bar>4611686018427388 / 2 ^ 62 :: rat\<bar> * 10 ^ 8 + 1 / 2\<rfloor> = 100000"
    by (simp add: floor_numeral_frac)
  have "parseFloat (toFixed (Num (4611686018427388 / 2 ^ 62)) 8) = from_decimal False 100000 (- 8)"
    using parseFloat_toFixed [OF small] n by simp
  then have parsed: "parseFloat (toFixed (Num (4611686018427388 / 2 ^ 62)) 8) =
      Num (4611686018427388 / 2 ^ 62)"
    using fl_0_001 by (simp add: from_decimal_def)
  have keep: "\<not> num_ge (Math_abs (num_sub (Num (4611686018427388 / 2 ^ 62))
      (Num (4611686018427388 / 2 ^ 62)))) (fl (1 / 10 ^ 12))"
    using fl_1e_12 by simp
  have "Decimal_toString (parseDecimal False (fixed_digits 100000 8)) =
      canonical_decimal False 100000"
    by (rule rendered_canonical) simp_all
  also have "\<dots> = ''0.001''"
    by (simp add: canonical_decimal_def fixed_width_8 show_nat_small dec_digit_def
        strip_trailing_zeros_def is_zero_digit_def del: fixed_width.simps)
  finally have shown: "Decimal_toString (parseDecimal False (fixed_digits 100000 8)) = ''0.001''" .
  show ?thesis
    using keep shown n
    by (simp only: floatToWire_Num [OF small] parsed) simp
qed

section \<open>The signature parser of ethers\<close>

lemma lower_hex_hexlify: "list_all lower_hex (hexlify bs)"
proof (induction bs)
  case (Cons b bs)
  have "unat b < 2 ^ LENGTH(8)"
    by (rule unsigned_less)
  then have "unat b div 16 < 16" "unat b mod 16 < 16"
    by simp_all
  then show ?case
    using Cons by (simp add: lower_hex_digit)
qed simp

lemma lower_hex_is_hex: "lower_hex (lower_char c) \<Longrightarrow> is_hex_char c"
  by (auto simp: lower_hex_def lower_char_def is_hex_char_def split: if_splits)

lemma any_case_text:
  assumes "map lower_char t = hexlify raw"
  shows "list_all is_hex_char t" "length t = 2 * length raw" "hex_decode t = raw"
proof -
  have "list_all lower_hex (map lower_char t)"
    by (simp only: assms lower_hex_hexlify)
  then show hex: "list_all is_hex_char t"
    by (simp add: list_all_iff lower_hex_is_hex)
  have "length (map lower_char t) = 2 * length raw"
    by (simp only: assms length_hexlify)
  then show len: "length t = 2 * length raw"
    by simp
  have "leading_hex_pairs t []"
    using hex len by (simp add: leading_hex_pairs_def)
  then have "hexlify (hex_decode (t @ [])) = map lower_char t"
    by (rule hex_decode_pairs)
  then have "hexlify (hex_decode t) = hexlify raw"
    by (simp add: assms)
  then show "hex_decode t = raw"
    by (rule hexlify_inject)
qed

lemma getBytes_text:
  "map lower_char t = hexlify raw \<Longrightarrow> getBytes (''0x'' @ t) = Inr raw"
  using any_case_text [of t raw]
  by (simp add: getBytes_def Let_def is_hex_char_unhex list_all_iff)

lemma top_bit: "(b AND 128 \<noteq> 0) = bit b 7" for b :: byte
  using and_exp_eq_0_iff_not_bit [of b 7] by simp

lemma signature_parts:
  assumes "length rb = 32" "length sb = 32"
  shows "take 32 (rb @ sb @ tail) = rb" "take 32 (drop 32 (rb @ sb @ tail)) = sb"
    "(rb @ sb @ [vb]) ! 64 = vb" "sb ! 0 = hd sb" "sb[0 := c] = c # tl sb"
proof -
  show "take 32 (rb @ sb @ tail) = rb" "take 32 (drop 32 (rb @ sb @ tail)) = sb"
    using assms by simp_all
  have "(rb @ sb @ [vb]) ! 64 = ((rb @ sb) @ [vb]) ! length (rb @ sb)"
    using assms by simp
  then show "(rb @ sb @ [vb]) ! 64 = vb"
    by (simp only: nth_append_length)
  show "sb ! 0 = hd sb" "sb[0 := c] = c # tl sb"
    using assms(2) by (cases sb; simp)+
qed

lemma recovery_byte:
  fixes vb :: byte
  shows "unat vb = 0 \<longleftrightarrow> vb = 0" "unat vb = 27 \<longleftrightarrow> vb = 27"
    "unat vb = 1 \<longleftrightarrow> vb = 1" "unat vb = 28 \<longleftrightarrow> vb = 28"
    "unat vb = Suc 0 \<longleftrightarrow> vb = 1"
  using word_unat_eq_iff [of vb 0] word_unat_eq_iff [of vb 27]
    word_unat_eq_iff [of vb 1] word_unat_eq_iff [of vb 28]
  by simp_all

lemma getNormalizedV_byte:
  "getNormalizedV (unat vb) =
     (if vb = 0 \<or> vb = 27 then Inr 27
      else if vb = 1 \<or> vb = 28 then Inr 28
      else if unat vb < 35 then Inl (InvalidArgument ''invalid v'')
      else Inr (if odd (unat vb) then 27 else 28))" for vb :: byte
  by (simp add: getNormalizedV_def recovery_byte odd_iff_mod_2_eq_one)

lemma from_65:
  assumes "length rb = 32" "length sb = 32" "map lower_char t = hexlify (rb @ sb @ [vb])"
  shows "ethers_Signature_from (''0x'' @ t) =
     (if bit (hd sb) 7 then Inl (InvalidArgument ''non-canonical s'')
      else if vb = 0 \<or> vb = 27
      then Inr \<lparr>r = ''0x'' @ hexlify rb, s = ''0x'' @ hexlify sb, v = 27\<rparr>
      else if vb = 1 \<or> vb = 28
      then Inr \<lparr>r = ''0x'' @ hexlify rb, s = ''0x'' @ hexlify sb, v = 28\<rparr>
      else if unat vb < 35 then Inl (InvalidArgument ''invalid v'')
      else Inr \<lparr>r = ''0x'' @ hexlify rb, s = ''0x'' @ hexlify sb,
                v = (if odd (unat vb) then 27 else 28)\<rparr>)"
proof -
  define raw where "raw = rb @ sb @ [vb]"
  have len: "length raw = 65" "length raw \<noteq> 64"
    using assms(1,2) by (simp_all add: raw_def)
  have raw: "take 32 raw = rb" "take 32 (drop 32 raw) = sb" "raw ! 64 = vb"
    unfolding raw_def by (rule signature_parts [OF assms(1,2)])+
  note first = signature_parts(4) [OF assms(1,2)]
  have bytes: "getBytes (''0x'' @ t) = Inr raw"
    using assms(3) unfolding raw_def by (rule getBytes_text)
  have "ethers_Signature_from (''0x'' @ t) =
     (if bit (hd sb) 7 then Inl (InvalidArgument ''non-canonical s'')
      else (case getNormalizedV (unat vb) of
              Inl e \<Rightarrow> Inl e
            | Inr vNum \<Rightarrow> Inr \<lparr>r = ''0x'' @ hexlify rb, s = ''0x'' @ hexlify sb, v = vNum\<rparr>))"
    by (simp only: ethers_Signature_from_def bytes sum.case len raw Let_def first top_bit) simp
  then show ?thesis
    by (simp add: getNormalizedV_byte)
qed

lemma from_64:
  assumes "length rb = 32" "length sb = 32" "map lower_char t = hexlify (rb @ sb)"
  shows "ethers_Signature_from (''0x'' @ t) =
     Inr \<lparr>r = ''0x'' @ hexlify rb, s = ''0x'' @ hexlify ((hd sb AND 127) # tl sb),
          v = (if bit (hd sb) 7 then 28 else 27)\<rparr>"
proof -
  define raw where "raw = rb @ sb"
  have len: "length raw = 64"
    using assms(1,2) by (simp add: raw_def)
  have raw: "take 32 raw = rb" "take 32 (drop 32 raw) = sb"
    using signature_parts(1,2) [OF assms(1,2), of "[]"] by (simp_all add: raw_def)
  note first = signature_parts(4,5) [OF assms(1,2)]
  have bytes: "getBytes (''0x'' @ t) = Inr raw"
    using assms(3) unfolding raw_def by (rule getBytes_text)
  show ?thesis
    by (simp only: ethers_Signature_from_def bytes sum.case len raw Let_def first top_bit) simp
qed

lemma from_other_length:
  assumes "length raw \<noteq> 65" "length raw \<noteq> 64" "map lower_char t = hexlify raw"
  shows "ethers_Signature_from (''0x'' @ t) = Inl (InvalidArgument ''invalid raw signature length'')"
proof -
  have bytes: "getBytes (''0x'' @ t) = Inr raw"
    using assms(3) by (rule getBytes_text)
  show ?thesis
    using assms(1,2) by (simp only: ethers_Signature_from_def bytes sum.case) simp
qed

lemma lower_char_hexlify: "map lower_char (hexlify bs) = hexlify bs"
proof -
  have "lower_hex c \<Longrightarrow> lower_char c = c" for c
    by (auto simp: lower_hex_def lower_char_def)
  then show ?thesis
    using lower_hex_hexlify [of bs] by (simp add: list_all_iff map_idI)
qed

lemma actionHash_empty:
  "actionHash id Inr ([] :: byte list) None (Num 0) = Inr [0, 0, 0, 0, 0, 0, 0, 0, 0]"
proof -
  have big: "BigInt (Num 0) = Inr 0"
    by (simp add: BigInt_def)
  have zeros: "be64 0 = [0, 0, 0, 0, 0, 0, 0, 0]"
    by (simp add: be64_def)
  have nb: "nonceToBytes (Num 0) = Inr [0, 0, 0, 0, 0, 0, 0, 0]"
    by (simp add: nonceToBytes_def big writeBigUInt64BE_def zeros)
  show ?thesis
    using actionHash_Inr [of "Num 0" "[0, 0, 0, 0, 0, 0, 0, 0]" Inr "[]" "[]" id None] nb
    by simp
qed

lemma hashAction_empty:
  "hashAction id Inr ([] :: byte list) None (Num 0) =
     Inr (''0x'' @ hexlify [0, 0, 0, 0, 0, 0, 0, 0, 0])"
proof -
  have big: "BigInt (Num 0) = Inr 0"
    by (simp add: BigInt_def)
  have zeros: "be64 0 = [0, 0, 0, 0, 0, 0, 0, 0]"
    by (simp add: be64_def)
  show ?thesis
    using hashAction_None [of Inr "[]" "[]" "Num 0" 0 id] big zeros
    by (simp add: keccak256_def)
qed

lemma signL1Action_normalizer:
  assumes "actionHash K encode action activePool nonce = Inr hash"
    and "signTypedData phantomDomain agentTypes (constructPhantomAgent hash isMainnet) = Inr signature"
  shows "signL1Action signTypedData normalizer K encode action activePool nonce isMainnet =
     normalizer signature"
  using assms by (cases "normalizer signature") (simp_all add: signL1Action_def)

lemma signStandardL1Action_splitSig:
  assumes "hashAction K encode action vaultAddress nonce = Inr digest"
    and "signPayload
           \<lparr>domain = phantomDomain, types = agentTypes, primaryType = ''Agent'',
            message = \<lparr>source = (if IS_MAINNET then ''a'' else ''b''), connectionId = digest\<rparr>\<rparr> =
         Inr signedAgent"
  shows "signStandardL1Action signPayload K encode action vaultAddress nonce = splitSig signedAgent"
  using assms by (simp add: signStandardL1Action_def)

lemma sample_bytes:
  "length (replicate 32 (17 :: byte)) = 32" "length (replicate 32 (34 :: byte)) = 32"
  "hd (replicate 32 (34 :: byte)) = 34" "tl (replicate 32 (34 :: byte)) = replicate 31 34"
  "(34 :: byte) AND 127 = 34"
  by simp_all

lemma sample_top_bit: "\<not> bit (34 :: byte) 7"
  using top_bit [of 34] by simp

lemma sample_cleared:
  "((34 :: byte) AND 127) # tl (replicate 32 34) = replicate 32 34"
proof -
  have "replicate (Suc 31) (34 :: byte) = 34 # replicate 31 34"
    by (rule replicate_Suc)
  then show ?thesis
    by (simp add: sample_bytes)
qed

section \<open>Address text\<close>

text \<open>
  Claim C6, as amended. \<open>addressToBytes\<close> never fails and never checks the length of
  the address text: it strips an optional \<open>0x\<close> and decodes the leading pairs of
  hexadecimal characters, in either case. Every text splits into leading pairs and a
  rest; the bytes returned are those the leading pairs denote (their lower-case
  hexadecimal text is the lower-case form of the pairs), one byte a pair, and the rest
  is dropped silently. So the lower-case hexadecimal text of any byte string, of any
  length, with or without the prefix, decodes to that byte string; address text that is
  exactly 40 hexadecimal characters after the optional prefix decodes to exactly 20
  bytes; and \<open>actionHash\<close> with an address fails only where the nonce or the encoder
  fails, never because of the address.
\<close>

theorem addressToBytes_unvalidated:
  "addressToBytes (''0x'' @ hexlify bs) = bs \<and> addressToBytes (hexlify bs) = bs
   \<and> (well_formed_address address \<longrightarrow> length (addressToBytes address) = 20)
   \<and> (actionHash K encode action (Some address) nonce = Inl e \<longrightarrow>
        nonceToBytes nonce = Inl e \<or> encode action = Inl e)
   \<and> (\<exists>pairs rest. strip_0x address = pairs @ rest \<and> leading_hex_pairs pairs rest)
   \<and> (strip_0x address = pairs @ rest \<and> leading_hex_pairs pairs rest \<longrightarrow>
        hexlify (addressToBytes address) = map lower_char pairs
        \<and> 2 * length (addressToBytes address) = length pairs)
   \<and> (well_formed_address address \<longleftrightarrow>
        length (strip_0x address) = 40 \<and> list_all is_hex_char (strip_0x address))"
proof -
  have "addressToBytes (''0x'' @ hexlify bs) = bs"
    by (rule addressToBytes_hexlify)
  moreover have "addressToBytes (hexlify bs) = bs"
    by (rule addressToBytes_hexlify)
  moreover have "well_formed_address address \<longrightarrow> length (addressToBytes address) = 20"
    using length_addressToBytes [of address] by blast
  moreover have "actionHash K encode action (Some address) nonce = Inl e \<longrightarrow>
        nonceToBytes nonce = Inl e \<or> encode action = Inl e"
    using actionHash_Inl [of K encode action "Some address" nonce e] by blast
  moreover have "\<exists>pairs rest. strip_0x address = pairs @ rest \<and> leading_hex_pairs pairs rest"
    by (rule leading_hex_pairs_exist)
  moreover have "strip_0x address = pairs @ rest \<and> leading_hex_pairs pairs rest \<longrightarrow>
        hexlify (addressToBytes address) = map lower_char pairs
        \<and> 2 * length (addressToBytes address) = length pairs"
    using addressToBytes_pairs [of address pairs rest] by blast
  moreover note well_formed_address_strip [of address]
  ultimately show ?thesis
    by (intro conjI)
qed

theorem addressToBytes_unvalidated_witness:
  "well_formed_address ''0x00000000000000000000000000000000000000ff''
   \<and> length (addressToBytes ''0x00000000000000000000000000000000000000ff'') = 20
   \<and> addressToBytes (''0x'' @ hexlify [18, 52]) = [18, 52]
   \<and> actionHash id Inr ([] :: byte list) (Some ''0x00000000000000000000000000000000000000ff'') NaN
       = Inl RangeError
   \<and> nonceToBytes NaN = Inl RangeError
   \<and> strip_0x ''ABCzz12'' = ''AB'' @ ''Czz12'' \<and> leading_hex_pairs ''AB'' ''Czz12''
   \<and> hexlify (addressToBytes ''ABCzz12'') = ''ab''
   \<and> 2 * length (addressToBytes ''ABCzz12'') = 2
   \<and> strip_0x ''0x123'' = ''12'' @ ''3'' \<and> leading_hex_pairs ''12'' ''3''
   \<and> hexlify (addressToBytes ''0x123'') = ''12''"
proof -
  have wf: "well_formed_address ''0x00000000000000000000000000000000000000ff''"
    by (simp add: well_formed_address_def startsWith_def unhex_def)
  have failed: "actionHash id Inr ([] :: byte list)
      (Some ''0x00000000000000000000000000000000000000ff'') NaN = Inl RangeError"
    by (simp add: actionHash_def nonceToBytes_def BigInt_def)
  have nonce: "nonceToBytes NaN = Inl RangeError"
    by (simp add: nonceToBytes_def BigInt_def)
  have mixed: "strip_0x ''ABCzz12'' = ''AB'' @ ''Czz12''" "leading_hex_pairs ''AB'' ''Czz12''"
    by (simp_all add: leading_hex_pairs_def is_hex_char_def)
  have odd: "strip_0x ''0x123'' = ''12'' @ ''3''" "leading_hex_pairs ''12'' ''3''"
    by (simp_all add: leading_hex_pairs_def is_hex_char_def)
  have low: "map lower_char ''AB'' = ''ab''" "map lower_char ''12'' = ''12''"
    by (simp_all add: lower_char_def)
  show ?thesis
    using addressToBytes_unvalidated [of "[18, 52]" "''0x00000000000000000000000000000000000000ff''"
        id Inr "[]" NaN RangeError]
      addressToBytes_unvalidated [of "[]" "''ABCzz12''" id Inr "[]" NaN RangeError "''AB''" "''Czz12''"]
      addressToBytes_unvalidated [of "[]" "''0x123''" id Inr "[]" NaN RangeError "''12''" "''3''"]
      wf failed nonce mixed odd low
    by simp
qed

text \<open>
  Claim C6 as stated fails: the text \<open>0x12\<close> is not 40 hexadecimal characters, yet
  \<open>addressToBytes\<close> returns the single byte \<open>0x12\<close> and \<open>actionHash\<close> hashes it after the
  presence byte (here with the identity for the digest and for the encoder, so that the
  hashed bytes are visible).
\<close>

theorem addressToBytes_accepts_malformed:
  "\<not> well_formed_address ''0x12'' \<and> addressToBytes ''0x12'' = [18]
   \<and> actionHash id Inr ([] :: byte list) (Some ''0x12'') (Num 0) = Inr [0, 0, 0, 0, 0, 0, 0, 0, 1, 18]"
  by (simp add: well_formed_address_def actionHash_def nonceToBytes_def BigInt_def
      writeBigUInt64BE_def be64_def keccak256_def hex_decode_hexlify addressToBytes_def
      startsWith_def unhex_def)

section \<open>Normalising a signature\<close>

text \<open>
  Claim C8, as amended. A signing backend returns 65 bytes: \<open>r\<close> and \<open>s\<close>, 32 bytes each,
  and the recovery byte; the wallet hands them on as \<open>0x\<close> and their hexadecimal text.

  \<open>signStandardL1Action\<close> normalises the wallet's answer with \<open>splitSig\<close>. On the lower-case
  text, \<open>splitSig\<close> maps the recovery byte 0 or 27 to \<open>v = 27\<close> and 1 or 28 to \<open>v = 28\<close>,
  fails with \<open>bad sig v\<close> for every other recovery byte, and fails with \<open>bad sig length\<close>
  for a raw signature that is not 65 bytes long; the \<open>r\<close> and \<open>s\<close> it returns are the text
  of the 32-byte components, unchanged. On any text, it succeeds exactly when the text
  has 132 characters of which the last two are \<open>1c\<close>, \<open>1b\<close>, \<open>00\<close> or \<open>01\<close>.

  \<open>signL1Action\<close> normalises the wallet's answer with \<open>Signature.from\<close> of ethers. On the
  text of 65 bytes, in either case, whose \<open>s\<close> has its top bit clear, it maps the recovery
  byte 0 or 27 to \<open>v = 27\<close> and 1 or 28 to \<open>v = 28\<close> and returns the lower-case text of
  \<open>r\<close> and \<open>s\<close>; it fails for every other recovery byte below 35, and maps a recovery byte
  from 35 on to 27 when it is odd and to 28 when it is even. It fails when the top bit
  of \<open>s\<close> is set. It accepts the text of 64 bytes as a compact signature: \<open>v\<close> is 28 when
  the top bit of \<open>s\<close> is set and 27 otherwise, and that bit is cleared in the \<open>s\<close> it
  returns. It fails for every other length.
\<close>

theorem signature_normalization:
  "(length rb = 32 \<and> length sb = 32 \<longrightarrow>
      splitSig (''0x'' @ hexlify (rb @ sb @ [vb])) =
        (if vb = 0 \<or> vb = 27
         then Inr \<lparr>r = ''0x'' @ hexlify rb, s = ''0x'' @ hexlify sb, v = 27\<rparr>
         else if vb = 1 \<or> vb = 28
         then Inr \<lparr>r = ''0x'' @ hexlify rb, s = ''0x'' @ hexlify sb, v = 28\<rparr>
         else Inl (Error (''bad sig v '' @ hexlify [vb])))
      \<and> (map lower_char hex65 = hexlify (rb @ sb @ [vb]) \<longrightarrow>
          ethers_Signature_from (''0x'' @ hex65) =
            (if bit (hd sb) 7 then Inl (InvalidArgument ''non-canonical s'')
             else if vb = 0 \<or> vb = 27
             then Inr \<lparr>r = ''0x'' @ hexlify rb, s = ''0x'' @ hexlify sb, v = 27\<rparr>
             else if vb = 1 \<or> vb = 28
             then Inr \<lparr>r = ''0x'' @ hexlify rb, s = ''0x'' @ hexlify sb, v = 28\<rparr>
             else if unat vb < 35 then Inl (InvalidArgument ''invalid v'')
             else Inr \<lparr>r = ''0x'' @ hexlify rb, s = ''0x'' @ hexlify sb,
                       v = (if odd (unat vb) then 27 else 28)\<rparr>))
      \<and> (map lower_char hex64 = hexlify (rb @ sb) \<longrightarrow>
          ethers_Signature_from (''0x'' @ hex64) =
            Inr \<lparr>r = ''0x'' @ hexlify rb, s = ''0x'' @ hexlify ((hd sb AND 127) # tl sb),
                 v = (if bit (hd sb) 7 then 28 else 27)\<rparr>))
   \<and> (length raw \<noteq> 65 \<longrightarrow>
        splitSig (''0x'' @ hexlify raw) =
          Inl (Error (''bad sig length: '' @ show_nat (2 * length raw)))
        \<and> (length raw \<noteq> 64 \<and> map lower_char hex = hexlify raw \<longrightarrow>
            ethers_Signature_from (''0x'' @ hex) =
              Inl (InvalidArgument ''invalid raw signature length'')))
   \<and> ((\<exists>sg. splitSig signedAgent = Inr sg) \<longleftrightarrow>
        length signedAgent = 132 \<and> drop 130 signedAgent \<in> {''1c'', ''1b'', ''00'', ''01''})
   \<and> (actionHash K encode action activePool nonce = Inr hash
        \<and> signTypedData phantomDomain agentTypes (constructPhantomAgent hash isMainnet) =
            Inr signature \<longrightarrow>
        signL1Action signTypedData ethers_Signature_from K encode action activePool nonce isMainnet =
          ethers_Signature_from signature)
   \<and> (hashAction K encode action activePool nonce = Inr digest
        \<and> signPayload
             \<lparr>domain = phantomDomain, types = agentTypes, primaryType = ''Agent'',
              message = \<lparr>source = (if IS_MAINNET then ''a'' else ''b''),
                          connectionId = digest\<rparr>\<rparr> = Inr answer \<longrightarrow>
        signStandardL1Action signPayload K encode action activePool nonce = splitSig answer)"
proof -
  have a: "length rb = 32 \<and> length sb = 32 \<longrightarrow>
      splitSig (''0x'' @ hexlify (rb @ sb @ [vb])) =
        (if vb = 0 \<or> vb = 27
         then Inr \<lparr>r = ''0x'' @ hexlify rb, s = ''0x'' @ hexlify sb, v = 27\<rparr>
         else if vb = 1 \<or> vb = 28
         then Inr \<lparr>r = ''0x'' @ hexlify rb, s = ''0x'' @ hexlify sb, v = 28\<rparr>
         else Inl (Error (''bad sig v '' @ hexlify [vb])))
      \<and> (map lower_char hex65 = hexlify (rb @ sb @ [vb]) \<longrightarrow>
          ethers_Signature_from (''0x'' @ hex65) =
            (if bit (hd sb) 7 then Inl (InvalidArgument ''non-canonical s'')
             else if vb = 0 \<or> vb = 27
             then Inr \<lparr>r = ''0x'' @ hexlify rb, s = ''0x'' @ hexlify sb, v = 27\<rparr>
             else if vb = 1 \<or> vb = 28
             then Inr \<lparr>r = ''0x'' @ hexlify rb, s = ''0x'' @ hexlify sb, v = 28\<rparr>
             else if unat vb < 35 then Inl (InvalidArgument ''invalid v'')
             else Inr \<lparr>r = ''0x'' @ hexlify rb, s = ''0x'' @ hexlify sb,
                       v = (if odd (unat vb) then 27 else 28)\<rparr>))
      \<and> (map lower_char hex64 = hexlify (rb @ sb) \<longrightarrow>
          ethers_Signature_from (''0x'' @ hex64) =
            Inr \<lparr>r = ''0x'' @ hexlify rb, s = ''0x'' @ hexlify ((hd sb AND 127) # tl sb),
                 v = (if bit (hd sb) 7 then 28 else 27)\<rparr>)"
    using splitSig_65 [of rb sb vb] from_65 [of rb sb hex65 vb] from_64 [of rb sb hex64]
    by blast
  have b: "length raw \<noteq> 65 \<longrightarrow>
        splitSig (''0x'' @ hexlify raw) =
          Inl (Error (''bad sig length: '' @ show_nat (2 * length raw)))
        \<and> (length raw \<noteq> 64 \<and> map lower_char hex = hexlify raw \<longrightarrow>
            ethers_Signature_from (''0x'' @ hex) =
              Inl (InvalidArgument ''invalid raw signature length''))"
    using splitSig_length [of raw] from_other_length [of raw hex] by blast
  have c: "(\<exists>sg. splitSig signedAgent = Inr sg) \<longleftrightarrow>
        length signedAgent = 132 \<and> drop 130 signedAgent \<in> {''1c'', ''1b'', ''00'', ''01''}"
    by (rule splitSig_Inr_iff)
  have d: "actionHash K encode action activePool nonce = Inr hash
        \<and> signTypedData phantomDomain agentTypes (constructPhantomAgent hash isMainnet) =
            Inr signature \<longrightarrow>
        signL1Action signTypedData ethers_Signature_from K encode action activePool nonce isMainnet =
          ethers_Signature_from signature"
    using signL1Action_normalizer [of K encode action activePool nonce hash signTypedData
        isMainnet signature ethers_Signature_from]
    by blast
  have e: "hashAction K encode action activePool nonce = Inr digest
        \<and> signPayload
             \<lparr>domain = phantomDomain, types = agentTypes, primaryType = ''Agent'',
              message = \<lparr>source = (if IS_MAINNET then ''a'' else ''b''),
                          connectionId = digest\<rparr>\<rparr> = Inr answer \<longrightarrow>
        signStandardL1Action signPayload K encode action activePool nonce = splitSig answer"
    using signStandardL1Action_splitSig [of K encode action activePool nonce digest signPayload
        answer]
    by blast
  from a b c d e show ?thesis
    by (intro conjI)
qed

theorem signature_normalization_witness:
  "splitSig (''0x'' @ hexlify (replicate 32 17 @ replicate 32 34 @ [27])) =
     Inr \<lparr>r = ''0x'' @ hexlify (replicate 32 17), s = ''0x'' @ hexlify (replicate 32 34), v = 27\<rparr>
   \<and> splitSig (''0x'' @ hexlify (replicate 32 17 @ replicate 32 34 @ [1])) =
     Inr \<lparr>r = ''0x'' @ hexlify (replicate 32 17), s = ''0x'' @ hexlify (replicate 32 34), v = 28\<rparr>
   \<and> splitSig (''0x'' @ hexlify (replicate 32 17 @ replicate 32 34 @ [37])) =
     Inl (Error ''bad sig v 25'')
   \<and> splitSig (''0x'' @ hexlify [1, 2]) = Inl (Error ''bad sig length: 4'')
   \<and> ethers_Signature_from (''0x'' @ hexlify (replicate 32 17 @ replicate 32 34) @ ''1B'') =
     Inr \<lparr>r = ''0x'' @ hexlify (replicate 32 17), s = ''0x'' @ hexlify (replicate 32 34), v = 27\<rparr>
   \<and> ethers_Signature_from (''0x'' @ hexlify (replicate 32 17 @ replicate 32 34 @ [1])) =
     Inr \<lparr>r = ''0x'' @ hexlify (replicate 32 17), s = ''0x'' @ hexlify (replicate 32 34), v = 28\<rparr>
   \<and> ethers_Signature_from (''0x'' @ hexlify (replicate 32 17 @ replicate 32 34 @ [37])) =
     Inr \<lparr>r = ''0x'' @ hexlify (replicate 32 17), s = ''0x'' @ hexlify (replicate 32 34), v = 27\<rparr>
   \<and> ethers_Signature_from (''0x'' @ hexlify (replicate 32 17 @ replicate 32 34 @ [2])) =
     Inl (InvalidArgument ''invalid v'')
   \<and> ethers_Signature_from (''0x'' @ hexlify (replicate 32 17 @ replicate 32 34)) =
     Inr \<lparr>r = ''0x'' @ hexlify (replicate 32 17), s = ''0x'' @ hexlify (replicate 32 34), v = 27\<rparr>
   \<and> ethers_Signature_from (''0x'' @ hexlify [1, 2]) =
     Inl (InvalidArgument ''invalid raw signature length'')
   \<and> signL1Action
        (\<lambda>d t m. Inr (''0x'' @ hexlify (replicate 32 17 @ replicate 32 34) @ ''1B''))
        ethers_Signature_from id Inr ([] :: byte list) None (Num 0) True =
     Inr \<lparr>r = ''0x'' @ hexlify (replicate 32 17), s = ''0x'' @ hexlify (replicate 32 34), v = 27\<rparr>
   \<and> signStandardL1Action
        (\<lambda>p. Inr (''0x'' @ hexlify (replicate 32 17 @ replicate 32 34 @ [1])))
        id Inr ([] :: byte list) None (Num 0) =
     Inr \<lparr>r = ''0x'' @ hexlify (replicate 32 17), s = ''0x'' @ hexlify (replicate 32 34), v = 28\<rparr>"
proof -
  define rb :: "byte list" where "rb = replicate 32 17"
  define sb :: "byte list" where "sb = replicate 32 34"
  define upper where "upper = hexlify (rb @ sb) @ ''1B''"
  have len: "length rb = 32 \<and> length sb = 32"
    by (simp add: rb_def sb_def)
  have low: "\<not> bit (hd sb) 7"
    by (simp add: sb_def sample_bytes sample_top_bit)
  have clear: "(hd sb AND 127) # tl sb = sb"
    by (simp only: sb_def sample_bytes(3) sample_cleared)
  have tag: "hexlify [27 :: byte] = ''1b''" "hexlify [37 :: byte] = ''25''"
    by (simp_all add: hex_digit_def)
  have up: "map lower_char upper = hexlify (rb @ sb @ [27])"
    using lower_char_hexlify [of "rb @ sb"] hexlify_append [of "rb @ sb" "[27]"]
    by (simp add: upper_def lower_char_def hex_digit_table)
  have short: "length [1, 2 :: byte] \<noteq> 65" "length [1, 2 :: byte] \<noteq> 64"
    "show_nat (2 * length [1, 2 :: byte]) = ''4''"
    by (simp_all add: show_nat.simps dec_digit_def)
  have bytes: "unat (37 :: byte) = 37" "unat (2 :: byte) = 2" "(37 :: byte) \<noteq> 0"
    "(37 :: byte) \<noteq> 27" "(37 :: byte) \<noteq> 1" "(37 :: byte) \<noteq> 28" "(2 :: byte) \<noteq> 0"
    "(2 :: byte) \<noteq> 27" "(2 :: byte) \<noteq> 1" "(2 :: byte) \<noteq> 28" "(1 :: byte) \<noteq> 0"
    "(1 :: byte) \<noteq> 27" "(27 :: byte) \<noteq> 0"
    by simp_all
  note same = lower_char_hexlify
  note a = signature_normalization [where rb = rb and sb = sb and vb = 27 and ?hex65.0 = upper
      and ?hex64.0 = "hexlify (rb @ sb)" and raw = "[1, 2]" and hex = "hexlify [1, 2]"
      and signedAgent = "[]"
      and K = id and encode = Inr and action = "[] :: byte list" and activePool = None
      and nonce = "Num 0" and hash = "[0, 0, 0, 0, 0, 0, 0, 0, 0]"
      and signTypedData = "\<lambda>d t m. Inr (''0x'' @ upper)" and isMainnet = True
      and signature = "''0x'' @ upper"
      and digest = "''0x'' @ hexlify [0, 0, 0, 0, 0, 0, 0, 0, 0]"
      and signPayload = "\<lambda>p. Inr (''0x'' @ hexlify (rb @ sb @ [1]))"
      and answer = "''0x'' @ hexlify (rb @ sb @ [1])"]
  note b = signature_normalization [where rb = rb and sb = sb and vb = 1
      and ?hex65.0 = "hexlify (rb @ sb @ [1])"
      and ?hex64.0 = "hexlify (rb @ sb)" and raw = "[1, 2]" and hex = "hexlify [1, 2]"
      and signedAgent = "[]"
      and K = id and encode = Inr and action = "[] :: byte list" and activePool = None
      and nonce = "Num 0" and hash = "[0, 0, 0, 0, 0, 0, 0, 0, 0]"
      and signTypedData = "\<lambda>d t m. Inr (''0x'' @ upper)" and isMainnet = True
      and signature = "''0x'' @ upper"
      and digest = "''0x'' @ hexlify [0, 0, 0, 0, 0, 0, 0, 0, 0]"
      and signPayload = "\<lambda>p. Inr (''0x'' @ hexlify (rb @ sb @ [1]))"
      and answer = "''0x'' @ hexlify (rb @ sb @ [1])"]
  note c = signature_normalization [where rb = rb and sb = sb and vb = 37
      and ?hex65.0 = "hexlify (rb @ sb @ [37])"
      and ?hex64.0 = "hexlify (rb @ sb)" and raw = "[1, 2]" and hex = "hexlify [1, 2]"
      and signedAgent = "[]"
      and K = id and encode = Inr and action = "[] :: byte list" and activePool = None
      and nonce = "Num 0" and hash = "[0, 0, 0, 0, 0, 0, 0, 0, 0]"
      and signTypedData = "\<lambda>d t m. Inr (''0x'' @ upper)" and isMainnet = True
      and signature = "''0x'' @ upper"
      and digest = "''0x'' @ hexlify [0, 0, 0, 0, 0, 0, 0, 0, 0]"
      and signPayload = "\<lambda>p. Inr (''0x'' @ hexlify (rb @ sb @ [1]))"
      and answer = "''0x'' @ hexlify (rb @ sb @ [1])"]
  note d = signature_normalization [where rb = rb and sb = sb and vb = 2
      and ?hex65.0 = "hexlify (rb @ sb @ [2])"
      and ?hex64.0 = "hexlify (rb @ sb)" and raw = "[1, 2]" and hex = "hexlify [1, 2]"
      and signedAgent = "[]"
      and K = id and encode = Inr and action = "[] :: byte list" and activePool = None
      and nonce = "Num 0" and hash = "[0, 0, 0, 0, 0, 0, 0, 0, 0]"
      and signTypedData = "\<lambda>d t m. Inr (''0x'' @ upper)" and isMainnet = True
      and signature = "''0x'' @ upper"
      and digest = "''0x'' @ hexlify [0, 0, 0, 0, 0, 0, 0, 0, 0]"
      and signPayload = "\<lambda>p. Inr (''0x'' @ hexlify (rb @ sb @ [1]))"
      and answer = "''0x'' @ hexlify (rb @ sb @ [1])"]
  have s27: "splitSig (''0x'' @ hexlify (rb @ sb @ [27])) =
      Inr \<lparr>r = ''0x'' @ hexlify rb, s = ''0x'' @ hexlify sb, v = 27\<rparr>"
    using a len by simp
  have e27: "ethers_Signature_from (''0x'' @ upper) =
      Inr \<lparr>r = ''0x'' @ hexlify rb, s = ''0x'' @ hexlify sb, v = 27\<rparr>"
    using a len up low by simp
  have e64: "ethers_Signature_from (''0x'' @ hexlify (rb @ sb)) =
      Inr \<lparr>r = ''0x'' @ hexlify rb, s = ''0x'' @ hexlify sb, v = 27\<rparr>"
    using a len same [of "rb @ sb"] low clear by simp
  have s2: "splitSig (''0x'' @ hexlify [1, 2]) = Inl (Error ''bad sig length: 4'')"
    using a short by simp
  have e2: "ethers_Signature_from (''0x'' @ hexlify [1, 2]) =
      Inl (InvalidArgument ''invalid raw signature length'')"
    using a short same [of "[1, 2]"] by simp
  have s1: "splitSig (''0x'' @ hexlify (rb @ sb @ [1])) =
      Inr \<lparr>r = ''0x'' @ hexlify rb, s = ''0x'' @ hexlify sb, v = 28\<rparr>"
    using b len bytes by simp
  have e1: "ethers_Signature_from (''0x'' @ hexlify (rb @ sb @ [1])) =
      Inr \<lparr>r = ''0x'' @ hexlify rb, s = ''0x'' @ hexlify sb, v = 28\<rparr>"
    using b len same [of "rb @ sb @ [1]"] low bytes by simp
  have s37: "splitSig (''0x'' @ hexlify (rb @ sb @ [37])) = Inl (Error ''bad sig v 25'')"
    using c len bytes tag by simp
  have e37: "ethers_Signature_from (''0x'' @ hexlify (rb @ sb @ [37])) =
      Inr \<lparr>r = ''0x'' @ hexlify rb, s = ''0x'' @ hexlify sb, v = 27\<rparr>"
    using c len same [of "rb @ sb @ [37]"] low bytes by simp
  have e02: "ethers_Signature_from (''0x'' @ hexlify (rb @ sb @ [2])) =
      Inl (InvalidArgument ''invalid v'')"
    using d len same [of "rb @ sb @ [2]"] low bytes by simp
  have l1: "signL1Action (\<lambda>d t m. Inr (''0x'' @ upper)) ethers_Signature_from id Inr
      ([] :: byte list) None (Num 0) True = ethers_Signature_from (''0x'' @ upper)"
    using a actionHash_empty by simp
  have l2: "signStandardL1Action (\<lambda>p. Inr (''0x'' @ hexlify (rb @ sb @ [1]))) id Inr
      ([] :: byte list) None (Num 0) = splitSig (''0x'' @ hexlify (rb @ sb @ [1]))"
    using a hashAction_empty by simp
  show ?thesis
    using s27 s1 s37 s2 e27 e1 e37 e02 e64 e2 l1 l2
    unfolding upper_def rb_def sb_def
    by (simp only: append_assoc simp_thms)
qed

text \<open>
  Claim C8 as stated fails on \<open>signL1Action\<close>: for a 65-byte signature with the recovery
  byte \<open>0x25\<close>, which is none of 0, 1, 27 and 28, and for a 64-byte signature, the result
  is a signature with \<open>v = 27\<close> instead of an error (here with the identity for the digest
  and for the encoder).
\<close>

theorem signL1Action_accepts_other_signatures:
  "signL1Action
     (\<lambda>d t m. Inr (''0x'' @ hexlify (replicate 32 17 @ replicate 32 34 @ [37])))
     ethers_Signature_from id Inr ([] :: byte list) None (Num 0) True =
     Inr \<lparr>r = ''0x'' @ hexlify (replicate 32 17), s = ''0x'' @ hexlify (replicate 32 34), v = 27\<rparr>
   \<and> signL1Action
     (\<lambda>d t m. Inr (''0x'' @ hexlify (replicate 32 17 @ replicate 32 34)))
     ethers_Signature_from id Inr ([] :: byte list) None (Num 0) True =
     Inr \<lparr>r = ''0x'' @ hexlify (replicate 32 17), s = ''0x'' @ hexlify (replicate 32 34), v = 27\<rparr>
   \<and> length (replicate 32 (17 :: byte) @ replicate 32 34 @ [37]) = 65
   \<and> length (replicate 32 (17 :: byte) @ replicate 32 34) = 64"
proof -
  have long: "ethers_Signature_from (''0x'' @ hexlify (replicate 32 17 @ replicate 32 34 @ [37])) =
      Inr \<lparr>r = ''0x'' @ hexlify (replicate 32 17), s = ''0x'' @ hexlify (replicate 32 34), v = 27\<rparr>"
    using from_65 [OF sample_bytes(1,2) lower_char_hexlify, of 37]
    by (simp add: sample_bytes sample_top_bit)
  have short: "ethers_Signature_from (''0x'' @ hexlify (replicate 32 17 @ replicate 32 34)) =
      Inr \<lparr>r = ''0x'' @ hexlify (replicate 32 17), s = ''0x'' @ hexlify (replicate 32 34), v = 27\<rparr>"
    using from_64 [OF sample_bytes(1,2) lower_char_hexlify]
    by (simp only: sample_cleared sample_bytes(3) sample_top_bit if_False)
  show ?thesis
    using signL1Action_normalizer [OF actionHash_empty, of _ True _ ethers_Signature_from] long short
    by simp
qed

text \<open>
  Claim C7, as amended. \<open>fromInt 1\<close> is \<open>0x00000000000000000000000000000001\<close>, and for
  every integer from 0 to \<open>16^32 - 1\<close> \<open>fromInt\<close> yields \<open>0x\<close> followed by 32 lower-case
  hexadecimal characters that denote the integer. \<open>fromStr\<close> validates at construction
  only, and only the prefix and the length: it fails with \<open>cloid is not a hex string\<close>
  for a string that does not start with \<open>0x\<close>, with \<open>cloid is not 16 bytes\<close> for one
  whose remainder is not 32 characters long, and accepts every other string as it is;
  \<open>fromStr "0x123"\<close> and \<open>fromStr "deadbeefdeadbeefdeadbeefdeadbeef"\<close> both fail.
  (\<open>fromInt\<close> is modelled on the integers: the numbers whose hexadecimal text has no
  fraction.)
\<close>

theorem cloid_validation:
  "fromInt 1 = Inr (Cloid ''0x00000000000000000000000000000001'')
   \<and> (0 \<le> n \<and> n < 16 ^ 32 \<longrightarrow>
        (\<exists>body. fromInt n = Inr (Cloid (''0x'' @ body)) \<and> length body = 32
           \<and> list_all lower_hex body \<and> hex_value body = nat n))
   \<and> fromStr str =
       (if \<not> startsWith str ''0x'' then Inl (Error ''cloid is not a hex string'')
        else if length str \<noteq> 34 then Inl (Error ''cloid is not 16 bytes'')
        else Inr (Cloid str))
   \<and> fromStr ''0x123'' = Inl (Error ''cloid is not 16 bytes'')
   \<and> fromStr ''deadbeefdeadbeefdeadbeefdeadbeef'' = Inl (Error ''cloid is not a hex string'')"
proof -
  have one: "fromInt 1 = Inr (Cloid ''0x00000000000000000000000000000001'')"
    by code_simp
  have short: "fromStr ''0x123'' = Inl (Error ''cloid is not 16 bytes'')"
    by (simp add: fromStr_cases startsWith_def)
  have bare: "fromStr ''deadbeefdeadbeefdeadbeefdeadbeef'' = Inl (Error ''cloid is not a hex string'')"
    by (simp add: fromStr_cases startsWith_def)
  show ?thesis
    using one short bare fromStr_cases [of str] fromInt_in_range [of n]
    by blast
qed

theorem cloid_validation_witness:
  "(0::int) \<le> 255 \<and> (255::int) < 16 ^ 32
   \<and> (\<exists>body. fromInt 255 = Inr (Cloid (''0x'' @ body)) \<and> length body = 32
         \<and> list_all lower_hex body \<and> hex_value body = 255)"
  using cloid_validation [of 255 "''0x''"] by simp

text \<open>
  Claim C7 as stated fails: \<open>fromStr\<close> accepts \<open>0x\<close> followed by 32 characters none of
  which is hexadecimal.
\<close>

theorem fromStr_accepts_non_hex:
  "fromStr ''0xzzzzzzzzzzzzzzzzzzzzzzzzzzzzzzzz'' = Inr (Cloid ''0xzzzzzzzzzzzzzzzzzzzzzzzzzzzzzzzz'')
   \<and> list_all (\<lambda>c. unhex c = None) ''zzzzzzzzzzzzzzzzzzzzzzzzzzzzzzzz''"
  by (simp add: fromStr_cases startsWith_def unhex_def)

section \<open>The bytes that are hashed\<close>

text \<open>
  Claim C1, as amended. For every action the encoder accepts, every nonce that is an
  integer from 0 to \<open>2^64 - 1\<close> and every routing address, \<open>actionHash\<close> returns the
  digest of exactly this concatenation: the msgpack bytes of the action; 8 bytes that
  hold the nonce, most significant byte first; then the byte 0 when the address is null,
  and otherwise the byte 1 followed by the bytes \<open>addressToBytes\<close> decodes from the
  address text, which are exactly 20 when the text is 40 hexadecimal characters after
  an optional \<open>0x\<close>. The result is the digest function's output, 32 bytes long when the
  digest function returns 32 bytes. (The model is a function of its inputs, so the
  result is determined by them.)
\<close>

theorem actionHash_bytes:
  "BigInt nonce = Inr n \<and> 0 \<le> n \<and> n < 2 ^ 64 \<and> encode action = Inr packed \<longrightarrow>
     length (be64 n) = 8 \<and> int (be_value (be64 n)) = n
     \<and> actionHash K encode action None nonce = Inr (K (packed @ be64 n @ [0]))
     \<and> actionHash K encode action (Some address) nonce =
         Inr (K (packed @ be64 n @ [1] @ addressToBytes address))
     \<and> (well_formed_address address \<longrightarrow> length (addressToBytes address) = 20)
     \<and> ((\<forall>d. length (K d) = 32) \<longrightarrow>
          (\<exists>digest. actionHash K encode action vaultAddress nonce = Inr digest
                    \<and> length digest = 32))"
proof (intro impI, elim conjE)
  assume big: "BigInt nonce = Inr n" and lo: "0 \<le> n" and hi: "n < 2 ^ 64"
    and enc: "encode action = Inr packed"
  have nb: "nonceToBytes nonce = Inr (be64 n)"
    using big lo hi by (rule nonceToBytes_u64)
  have hashed: "actionHash K encode action va nonce =
      Inr (K (packed @ be64 n @ (case va of None \<Rightarrow> [0] | Some a \<Rightarrow> 1 # addressToBytes a)))" for va
    using nb enc by (rule actionHash_Inr)
  have sized: "(\<forall>d. length (K d) = 32) \<longrightarrow>
      (\<exists>digest. actionHash K encode action vaultAddress nonce = Inr digest \<and> length digest = 32)"
    by (simp add: hashed)
  show "length (be64 n) = 8 \<and> int (be_value (be64 n)) = n
     \<and> actionHash K encode action None nonce = Inr (K (packed @ be64 n @ [0]))
     \<and> actionHash K encode action (Some address) nonce =
         Inr (K (packed @ be64 n @ [1] @ addressToBytes address))
     \<and> (well_formed_address address \<longrightarrow> length (addressToBytes address) = 20)
     \<and> ((\<forall>d. length (K d) = 32) \<longrightarrow>
          (\<exists>digest. actionHash K encode action vaultAddress nonce = Inr digest
                    \<and> length digest = 32))"
    using length_be64 [of n] be_value_be64 [OF lo hi] hashed [of None] hashed [of "Some address"]
      length_addressToBytes [of address] sized
    by simp
qed

theorem actionHash_bytes_witness:
  "BigInt (Num 258) = Inr 258 \<and> (0::int) \<le> 258 \<and> (258::int) < 2 ^ 64
   \<and> be64 258 = [0, 0, 0, 0, 0, 0, 1, 2]
   \<and> well_formed_address ''0x00000000000000000000000000000000000000ff''
   \<and> actionHash (\<lambda>d. replicate 32 0) Inr [128 :: byte] None (Num 258) = Inr (replicate 32 0)
   \<and> actionHash id Inr [128 :: byte] None (Num 258) = Inr [128, 0, 0, 0, 0, 0, 0, 1, 2, 0]
   \<and> actionHash id Inr [128 :: byte] (Some ''0x00000000000000000000000000000000000000ff'') (Num 258)
       = Inr ([128, 0, 0, 0, 0, 0, 0, 1, 2, 1] @ replicate 19 0 @ [255])"
proof -
  have big: "BigInt (Num 258) = Inr 258"
    by (simp add: BigInt_def)
  have bytes: "be64 258 = [0, 0, 0, 0, 0, 0, 1, 2]"
    by (simp add: be64_def)
  have wf: "well_formed_address ''0x00000000000000000000000000000000000000ff''"
    by (simp add: well_formed_address_def startsWith_def unhex_def)
  have addr: "addressToBytes ''0x00000000000000000000000000000000000000ff'' = replicate 19 0 @ [255]"
    by (simp add: addressToBytes_def startsWith_def unhex_def numeral_eq_Suc)
  show ?thesis
    using actionHash_bytes [of "Num 258" 258 Inr "[128]" "[128]" "\<lambda>d. replicate 32 0"
        "''0x00000000000000000000000000000000000000ff''" None]
      actionHash_bytes [of "Num 258" 258 Inr "[128]" "[128]" id
        "''0x00000000000000000000000000000000000000ff''" None]
      big bytes wf addr
    by simp
qed

text \<open>
  Claim C1 as stated fails. With the address text \<open>abcd\<close> the presence byte is followed
  by 2 address bytes, not 20 (the identity stands for the digest and the encoder, so the
  hashed bytes are visible); and for the nonce \<open>-1\<close> no nonce bytes are produced: the
  write is refused with a RangeError.
\<close>

theorem actionHash_short_address:
  "actionHash id Inr [128 :: byte] (Some ''abcd'') (Num 258) =
     Inr [128, 0, 0, 0, 0, 0, 0, 1, 2, 1, 171, 205]
   \<and> actionHash id Inr [128 :: byte] None (Num (- 1)) = Inl RangeError"
  by (simp add: actionHash_def nonceToBytes_def BigInt_def writeBigUInt64BE_def be64_def
      keccak256_def hex_decode_hexlify addressToBytes_def startsWith_def unhex_def)

section \<open>The two hash functions\<close>

text \<open>
  Claim C10, as amended. For every action, every nonce that is an integer from 0 to
  \<open>2^64 - 1\<close>, and every routing address that is null or whose text decodes to exactly
  20 bytes (as every address of 40 hexadecimal characters does), \<open>hashAction\<close> of
  Signing.tsx returns \<open>0x\<close> and the hexadecimal text of the digest that \<open>actionHash\<close>
  returns, and fails with the encoder's error where \<open>actionHash\<close> does.
\<close>

theorem hashAction_agrees:
  "BigInt nonce = Inr n \<and> 0 \<le> n \<and> n < 2 ^ 64
   \<and> (case vaultAddress of None \<Rightarrow> True | Some address \<Rightarrow> length (addressToBytes address) = 20)
   \<longrightarrow> hashAction K encode action vaultAddress nonce =
         (case actionHash K encode action vaultAddress nonce of
            Inl e \<Rightarrow> Inl e
          | Inr digest \<Rightarrow> Inr (''0x'' @ hexlify digest))"
proof (intro impI, elim conjE)
  assume big: "BigInt nonce = Inr n" and lo: "0 \<le> n" and hi: "n < 2 ^ 64"
    and addr: "case vaultAddress of None \<Rightarrow> True | Some address \<Rightarrow> length (addressToBytes address) = 20"
  have nb: "nonceToBytes nonce = Inr (be64 n)"
    using big lo hi by (rule nonceToBytes_u64)
  have red: "n mod 2 ^ 64 = n"
    using lo hi by simp
  show "hashAction K encode action vaultAddress nonce =
         (case actionHash K encode action vaultAddress nonce of
            Inl e \<Rightarrow> Inl e
          | Inr digest \<Rightarrow> Inr (''0x'' @ hexlify digest))"
  proof (cases "encode action")
    case (Inl e)
    then show ?thesis
      using nb by (simp add: hashAction_encode_fails actionHash_encode_fails)
  next
    case (Inr packed)
    show ?thesis
    proof (cases vaultAddress)
      case None
      then show ?thesis
        using hashAction_None [of encode action packed nonce n K]
          actionHash_Inr [of nonce "be64 n" encode action packed K None] Inr big nb red
        by (simp add: keccak256_def)
    next
      case (Some address)
      then show ?thesis
        using hashAction_Some [of encode action packed nonce n K address]
          actionHash_Inr [of nonce "be64 n" encode action packed K "Some address"]
          Inr big nb red addr
        by (simp add: keccak256_def)
    qed
  qed
qed

theorem hashAction_agrees_witness:
  "BigInt (Num 258) = Inr 258 \<and> (0::int) \<le> 258 \<and> (258::int) < 2 ^ 64
   \<and> length (addressToBytes ''0x00000000000000000000000000000000000000ff'') = 20
   \<and> actionHash id Inr [128 :: byte] (Some ''0x00000000000000000000000000000000000000ff'') (Num 258)
       = Inr ([128, 0, 0, 0, 0, 0, 0, 1, 2, 1] @ replicate 19 0 @ [255])
   \<and> hashAction id Inr [128 :: byte] (Some ''0x00000000000000000000000000000000000000ff'') (Num 258)
       = Inr (''0x'' @ hexlify ([128, 0, 0, 0, 0, 0, 0, 1, 2, 1] @ replicate 19 0 @ [255]))"
proof -
  have big: "BigInt (Num 258) = Inr 258"
    by (simp add: BigInt_def)
  have addr: "addressToBytes ''0x00000000000000000000000000000000000000ff'' = replicate 19 0 @ [255]"
    by (simp add: addressToBytes_def startsWith_def unhex_def numeral_eq_Suc)
  have h: "actionHash id Inr [128 :: byte] (Some ''0x00000000000000000000000000000000000000ff'') (Num 258)
       = Inr ([128, 0, 0, 0, 0, 0, 0, 1, 2, 1] @ replicate 19 0 @ [255])"
    by (simp add: actionHash_def nonceToBytes_def big writeBigUInt64BE_def be64_def keccak256_def
        hex_decode_hexlify addr)
  show ?thesis
    using hashAction_agrees [of "Num 258" 258 "Some ''0x00000000000000000000000000000000000000ff''"
        id Inr "[128]"] big addr h
    by simp
qed

text \<open>
  Claim C10 as stated fails on address text that does not decode to 20 bytes. For 42
  hexadecimal characters (21 bytes) \<open>hashAction\<close> raises a RangeError, the bytes not
  fitting its array of \<open>length + 29\<close>, while \<open>actionHash\<close> returns a digest. For the text
  \<open>0x12\<close> \<open>hashAction\<close> hashes the address byte followed by 19 zero bytes and
  \<open>actionHash\<close> hashes the address byte alone (the identity stands for the digest and
  the encoder, so the hashed bytes are visible).
\<close>

theorem hashAction_differs_on_malformed_address:
  "hashAction id Inr ([] :: byte list) (Some ''0x000000000000000000000000000000000000000000'') (Num 0)
     = Inl RangeError
   \<and> actionHash id Inr ([] :: byte list) (Some ''0x000000000000000000000000000000000000000000'') (Num 0)
     = Inr (replicate 8 0 @ [1] @ replicate 21 0)
   \<and> hashAction id Inr ([] :: byte list) (Some ''0x12'') (Num 0)
     = Inr (''0x'' @ hexlify (replicate 8 0 @ [1, 18] @ replicate 19 0))
   \<and> actionHash id Inr ([] :: byte list) (Some ''0x12'') (Num 0)
     = Inr (replicate 8 0 @ [1, 18])"
proof -
  have big: "BigInt (Num 0) = Inr 0"
    by (simp add: BigInt_def)
  have nb: "nonceToBytes (Num 0) = Inr (replicate 8 0)"
    by (simp add: nonceToBytes_def big writeBigUInt64BE_def be64_def numeral_eq_Suc)
  have long: "addressToBytes ''0x000000000000000000000000000000000000000000'' = replicate 21 0"
    by (simp add: addressToBytes_def startsWith_def unhex_def numeral_eq_Suc)
  have short: "addressToBytes ''0x12'' = [18]"
    by (simp add: addressToBytes_def startsWith_def unhex_def)
  have zeros: "be64 0 = replicate 8 0"
    by (simp add: be64_def numeral_eq_Suc)
  show ?thesis
    using hashAction_Some [of Inr "[]" "[]" "Num 0" 0 id
        "''0x000000000000000000000000000000000000000000''"]
      hashAction_Some [of Inr "[]" "[]" "Num 0" 0 id "''0x12''"]
      actionHash_Inr [of "Num 0" "replicate 8 0" Inr "[]" "[]" id
        "Some ''0x000000000000000000000000000000000000000000''"]
      actionHash_Inr [of "Num 0" "replicate 8 0" Inr "[]" "[]" id "Some ''0x12''"]
      big nb
    by (simp add: long short zeros keccak256_def)
qed

section \<open>The phantom agent\<close>

text \<open>
  Claim C9. For every hash and network flag the message that is signed has exactly the
  two fields \<open>source\<close> and \<open>connectionId\<close>: \<open>source\<close> is \<open>a\<close> when the flag selects mainnet
  and \<open>b\<close> otherwise (in Signing.tsx the flag is the constant \<open>IS_MAINNET\<close>), and
  \<open>connectionId\<close> is the hash. Both signers hand the wallet this message under the fixed
  domain (name \<open>Exchange\<close>, version \<open>1\<close>, chain id 1337, the zero address as verifying
  contract) and the fixed \<open>Agent\<close> schema, whatever the arguments of the call, and return
  what the signature normalisation makes of the wallet's answer.
\<close>

theorem phantom_agent_signing:
  "constructPhantomAgent hash isMainnet =
     \<lparr>source = (if isMainnet then ''a'' else ''b''), connectionId = hash\<rparr>
   \<and> (actionHash K encode action activePool nonce = Inr hash \<longrightarrow>
        signL1Action signTypedData Signature_from K encode action activePool nonce isMainnet =
          (case signTypedData
                  \<lparr>name = ''Exchange'', version = ''1'', chainId = 1337,
                   verifyingContract = ''0x0000000000000000000000000000000000000000''\<rparr>
                  [(''Agent'', [(''source'', ''string''), (''connectionId'', ''bytes32'')])]
                  \<lparr>source = (if isMainnet then ''a'' else ''b''), connectionId = hash\<rparr> of
             Inl e \<Rightarrow> Inl e
           | Inr signature \<Rightarrow>
              (case Signature_from signature of
                 Inl e \<Rightarrow> Inl e
               | Inr sig \<Rightarrow> Inr \<lparr>r = r sig, s = s sig, v = v sig\<rparr>)))
   \<and> (hashAction K encode action activePool nonce = Inr digest \<longrightarrow>
        signStandardL1Action signPayload K encode action activePool nonce =
          (case signPayload
                  \<lparr>domain = \<lparr>name = ''Exchange'', version = ''1'', chainId = 1337,
                     verifyingContract = ''0x0000000000000000000000000000000000000000''\<rparr>,
                   types = [(''Agent'', [(''source'', ''string''), (''connectionId'', ''bytes32'')])],
                   primaryType = ''Agent'',
                   message = \<lparr>source = (if IS_MAINNET then ''a'' else ''b''),
                               connectionId = digest\<rparr>\<rparr> of
             Inl e \<Rightarrow> Inl e
           | Inr signedAgent \<Rightarrow> splitSig signedAgent))"
  by (simp add: constructPhantomAgent_def signL1Action_def signStandardL1Action_def
      phantomDomain_def agentTypes_def)

theorem phantom_agent_signing_witness:
  "actionHash id Inr ([] :: byte list) None (Num 0) = Inr [0, 0, 0, 0, 0, 0, 0, 0, 0]
   \<and> hashAction id Inr ([] :: byte list) None (Num 0) = Inr (''0x'' @ hexlify [0, 0, 0, 0, 0, 0, 0, 0, 0])
   \<and> signL1Action
        (\<lambda>d t m. if d = phantomDomain \<and> t = agentTypes \<and> source m = ''a''
           then Inr (''0x'' @ hexlify (replicate 32 17 @ replicate 32 34 @ [0]))
           else Inl (Error ''other payload''))
        splitSig id Inr ([] :: byte list) None (Num 0) True
       = Inr \<lparr>r = ''0x'' @ hexlify (replicate 32 17), s = ''0x'' @ hexlify (replicate 32 34), v = 27\<rparr>
   \<and> signStandardL1Action
        (\<lambda>p. if domain p = phantomDomain \<and> types p = agentTypes \<and> primaryType p = ''Agent''
             \<and> source (message p) = ''a''
           then Inr (''0x'' @ hexlify (replicate 32 17 @ replicate 32 34 @ [1]))
           else Inl (Error ''other payload''))
        id Inr ([] :: byte list) None (Num 0)
       = Inr \<lparr>r = ''0x'' @ hexlify (replicate 32 17), s = ''0x'' @ hexlify (replicate 32 34), v = 28\<rparr>"
proof -
  have big: "BigInt (Num 0) = Inr 0"
    by (simp add: BigInt_def)
  have zeros: "be64 0 = [0, 0, 0, 0, 0, 0, 0, 0]"
    by (simp add: be64_def)
  have nb: "nonceToBytes (Num 0) = Inr [0, 0, 0, 0, 0, 0, 0, 0]"
    by (simp add: nonceToBytes_def big writeBigUInt64BE_def zeros)
  have h1: "actionHash id Inr ([] :: byte list) None (Num 0) = Inr [0, 0, 0, 0, 0, 0, 0, 0, 0]"
    using actionHash_Inr [of "Num 0" "[0, 0, 0, 0, 0, 0, 0, 0]" Inr "[]" "[]" id None] nb
    by simp
  have h2: "hashAction id Inr ([] :: byte list) None (Num 0) =
      Inr (''0x'' @ hexlify [0, 0, 0, 0, 0, 0, 0, 0, 0])"
    using hashAction_None [of Inr "[]" "[]" "Num 0" 0 id] big zeros
    by (simp add: keccak256_def)
  have s0: "splitSig (''0x'' @ hexlify (replicate 32 17 @ replicate 32 34 @ [0])) =
      Inr \<lparr>r = ''0x'' @ hexlify (replicate 32 17), s = ''0x'' @ hexlify (replicate 32 34), v = 27\<rparr>"
    using splitSig_65 [of "replicate 32 17" "replicate 32 34" 0] by simp
  have s1: "splitSig (''0x'' @ hexlify (replicate 32 17 @ replicate 32 34 @ [1])) =
      Inr \<lparr>r = ''0x'' @ hexlify (replicate 32 17), s = ''0x'' @ hexlify (replicate 32 34), v = 28\<rparr>"
    using splitSig_65 [of "replicate 32 17" "replicate 32 34" 1] by simp
  note step = phantom_agent_signing [of "[0, 0, 0, 0, 0, 0, 0, 0, 0]" True id Inr "[]" None "Num 0"
        "\<lambda>d t m. if d = phantomDomain \<and> t = agentTypes \<and> source m = ''a''
           then Inr (''0x'' @ hexlify (replicate 32 17 @ replicate 32 34 @ [0]))
           else Inl (Error ''other payload'')"
        splitSig "''0x'' @ hexlify [0, 0, 0, 0, 0, 0, 0, 0, 0]"
        "\<lambda>p. if domain p = phantomDomain \<and> types p = agentTypes \<and> primaryType p = ''Agent''
             \<and> source (message p) = ''a''
           then Inr (''0x'' @ hexlify (replicate 32 17 @ replicate 32 34 @ [1]))
           else Inl (Error ''other payload'')"]
  show ?thesis
    using step h1 h2 s0 s1
    by (simp add: phantomDomain_def agentTypes_def IS_MAINNET_def)
qed

section \<open>The precision of a wire string\<close>



section \<open>The form of a wire string\<close>

text \<open>
  Claim C3, as amended. Let \<open>x\<close> be a finite number of magnitude below \<open>10^21\<close> on which
  \<open>floatToWire\<close> returns a string, and let \<open>n\<close> be the integer nearest to \<open>|x| * 10^8\<close>, so
  that the string renders \<open>n / 10^8\<close> with the sign of \<open>x\<close>. If \<open>n\<close> is zero, or at least
  100 (a rendered magnitude of at least \<open>10^-6\<close>) and below \<open>10^29\<close>, the string is the
  canonical decimal rendering: no exponent notation, no trailing zero after a point,
  no leading zero before another digit, a minus sign exactly when \<open>x\<close> is negative and
  \<open>n\<close> is not zero; and when \<open>n\<close> is zero the string is \<open>0\<close>. For \<open>-0\<close> itself the string is
  \<open>0\<close> as well.
\<close>

theorem floatToWire_canonical:
  "(floatToWire (Num q) = Inr str \<and> \<bar>q\<bar> < 10 ^ 21 \<and> n = nat \<lfloor>\<bar>q\<bar> * 10 ^ 8 + 1 / 2\<rfloor>
      \<and> (n = 0 \<or> 100 \<le> n) \<and> n < 10 ^ 29 \<longrightarrow>
        str = canonical_decimal (q < 0) n
        \<and> CHR ''e'' \<notin> set str \<and> CHR ''E'' \<notin> set str
        \<and> (CHR ''.'' \<in> set str \<longrightarrow> last str \<noteq> CHR ''0'')
        \<and> (hd str = CHR ''-'' \<longleftrightarrow> q < 0 \<and> n \<noteq> 0)
        \<and> (take 1 (drop (if q < 0 \<and> n \<noteq> 0 then 1 else 0) str) = ''0'' \<longrightarrow>
             drop (if q < 0 \<and> n \<noteq> 0 then 1 else 0) str = ''0''
             \<or> take 2 (drop (if q < 0 \<and> n \<noteq> 0 then 1 else 0) str) = ''0.'')
        \<and> (n = 0 \<longrightarrow> str = ''0''))
   \<and> floatToWire NegZero = Inr ''0''"
proof -
  have "str = canonical_decimal (q < 0) n"
    if "floatToWire (Num q) = Inr str" "\<bar>q\<bar> < 10 ^ 21" "n = nat \<lfloor>\<bar>q\<bar> * 10 ^ 8 + 1 / 2\<rfloor>"
      "n = 0 \<or> 100 \<le> n" "n < 10 ^ 29"
    using that by (rule floatToWire_in_range)
  then show ?thesis
    using canonical_shape [of "q < 0" n] canonical_zero [of "q < 0"] floatToWire_NegZero
    by blast
qed

theorem floatToWire_canonical_witness:
  "floatToWire (Num (- (3 / 2))) = Inr ''-1.5'' \<and> \<bar>- (3 / 2) :: rat\<bar> < 10 ^ 21
   \<and> (150000000 :: nat) = nat \<lfloor>\<bar>- (3 / 2) :: rat\<bar> * 10 ^ 8 + 1 / 2\<rfloor>
   \<and> (100 :: nat) \<le> 150000000 \<and> (150000000 :: nat) < 10 ^ 29
   \<and> ''-1.5'' = canonical_decimal True 150000000
   \<and> floatToWire (Num (- (1 / 2 ^ 50))) = Inr ''0'' \<and> \<bar>- (1 / 2 ^ 50) :: rat\<bar> < 10 ^ 21
   \<and> (0 :: nat) = nat \<lfloor>\<bar>- (1 / 2 ^ 50) :: rat\<bar> * 10 ^ 8 + 1 / 2\<rfloor>
   \<and> ''0'' = canonical_decimal True 0"
proof -
  have a: "(150000000 :: nat) = nat \<lfloor>\<bar>- (3 / 2) :: rat\<bar> * 10 ^ 8 + 1 / 2\<rfloor>"
    by (simp add: floor_numeral_frac)
  have b: "(0 :: nat) = nat \<lfloor>\<bar>- (1 / 2 ^ 50) :: rat\<bar> * 10 ^ 8 + 1 / 2\<rfloor>"
    by (simp add: floor_numeral_frac)
  have small: "\<bar>- (3 / 2) :: rat\<bar> < 10 ^ 21" "\<bar>- (1 / 2 ^ 50) :: rat\<bar> < 10 ^ 21"
    "(100 :: nat) \<le> 150000000" "(150000000 :: nat) < 10 ^ 29" "(0 :: nat) < 10 ^ 29"
    "- (3 / 2) < (0 :: rat)" "- (1 / 2 ^ 50) < (0 :: rat)"
    by simp_all
  have "''-1.5'' = canonical_decimal (- (3 / 2) < (0 :: rat)) 150000000"
    using floatToWire_canonical [of "- (3 / 2)" "''-1.5''" 150000000]
      floatToWire_minus_1_5 a small(1,3,4)
    by blast
  moreover have "''0'' = canonical_decimal (- (1 / 2 ^ 50) < (0 :: rat)) 0"
    using floatToWire_canonical [of "- (1 / 2 ^ 50)" "''0''" 0]
      floatToWire_minus_tiny b small(2,5)
    by blast
  ultimately show ?thesis
    using floatToWire_minus_1_5 floatToWire_minus_tiny a b small
    by (simp only: simp_thms)
qed

text \<open>
  Claim C3 as stated fails: for the number \<open>1e-8\<close>, the binary64 number
  \<open>6044629098073146 / 2^79\<close>, \<open>floatToWire\<close> returns \<open>1e-8\<close>, in exponent notation (decimal.js
  prints every value whose exponent is \<open>-7\<close> or less that way).
\<close>

theorem floatToWire_exponent_notation:
  "fl (1 / 10 ^ 8) = Num (6044629098073146 / 2 ^ 79)
   \<and> floatToWire (fl (1 / 10 ^ 8)) = Inr ''1e-8''
   \<and> CHR ''e'' \<in> set ''1e-8''"
  by (simp only: fl_1e_8 floatToWire_1e_8) simp

section \<open>The wire form of an order type\<close>

text \<open>
  Claim C5 against the code. The limit branch of \<open>orderTypeToWire\<close> tests only that the
  key \<open>limit\<close> is present, while the trigger branch tests the key and its value. The
  order type \<open>{limit: undefined}\<close> is neither a limit nor a trigger variant, yet it is
  not refused: the result is the wire \<open>{limit: undefined}\<close>, also when the key \<open>trigger\<close>
  holds a trigger order, which is then dropped. The order type \<open>{trigger: undefined}\<close> is
  refused with \<open>Invalid order type\<close>, as the claim says of every other shape.
\<close>

theorem orderTypeToWire_undefined_limit:
  "orderTypeToWire \<lparr>limit = Undefined, trigger = Absent\<rparr> =
     Inr \<lparr>limit = Undefined, trigger = Absent\<rparr>
   \<and> orderTypeToWire
        \<lparr>limit = Undefined,
         trigger = Present \<lparr>triggerPx = Num 90000, isMarket = True, tpsl = Sl\<rparr>\<rparr> =
       Inr \<lparr>limit = Undefined, trigger = Absent\<rparr>
   \<and> orderTypeToWire \<lparr>limit = Absent, trigger = Undefined\<rparr> =
       Inl (Error ''Invalid order type'')"
  by (simp add: orderTypeToWire_def)

section \<open>The keys of an order wire\<close>

text \<open>
  Claim C4. Whenever \<open>orderRequestToOrderWire\<close> produces a wire for an order request and
  an asset index, the keys of the wire are, in this order, \<open>a\<close>, \<open>b\<close>, \<open>p\<close>, \<open>s\<close>, \<open>r\<close>, \<open>t\<close>
  and then \<open>c\<close>; \<open>p\<close> and \<open>s\<close> hold the \<open>floatToWire\<close> renderings of the limit price and of
  the size, \<open>t\<close> the wire form of the order type, and \<open>c\<close> the raw client order id. The
  key \<open>c\<close> is there only when a client order id is supplied: when the field \<open>cloid\<close> is
  absent, \<open>undefined\<close> or \<open>null\<close>, the wire has no key \<open>c\<close> at all. A wire is produced
  whenever the two renderings and the order type succeed.
\<close>

theorem orderRequestToOrderWire_keys:
  "(orderRequestToOrderWire order asset = Inr wire \<longrightarrow>
      (\<exists>px qty typeWire.
         floatToWire (limit_px order) = Inr px \<and> floatToWire (sz order) = Inr qty
         \<and> orderTypeToWire (order_type order) = Inr typeWire
         \<and> wire = [(''a'', WNumber asset), (''b'', WBool (is_buy order)), (''p'', WString px),
                   (''s'', WString qty), (''r'', WBool (reduce_only order)),
                   (''t'', WOrderType typeWire)]
                  @ (case cloid order of
                       Present (Some given) \<Rightarrow> [(''c'', WString (toRaw given))]
                     | _ \<Rightarrow> []))
      \<and> map fst wire = [''a'', ''b'', ''p'', ''s'', ''r'', ''t'']
            @ (case cloid order of Present (Some given) \<Rightarrow> [''c''] | _ \<Rightarrow> [])
      \<and> ((\<forall>given. cloid order \<noteq> Present (Some given)) \<longrightarrow> map_of wire ''c'' = None))
   \<and> (floatToWire (limit_px order) = Inr px \<and> floatToWire (sz order) = Inr qty
        \<and> orderTypeToWire (order_type order) = Inr typeWire \<longrightarrow>
        (\<exists>made. orderRequestToOrderWire order asset = Inr made))"
proof -
  have forward: "\<exists>px qty typeWire.
         floatToWire (limit_px order) = Inr px \<and> floatToWire (sz order) = Inr qty
         \<and> orderTypeToWire (order_type order) = Inr typeWire
         \<and> wire = [(''a'', WNumber asset), (''b'', WBool (is_buy order)), (''p'', WString px),
                   (''s'', WString qty), (''r'', WBool (reduce_only order)),
                   (''t'', WOrderType typeWire)]
                  @ (case cloid order of
                       Present (Some given) \<Rightarrow> [(''c'', WString (toRaw given))]
                     | _ \<Rightarrow> [])"
    if made: "orderRequestToOrderWire order asset = Inr wire"
  proof -
    obtain px where px: "floatToWire (limit_px order) = Inr px"
      using made by (cases "floatToWire (limit_px order)") (simp_all add: orderRequestToOrderWire_def)
    obtain qty where qty: "floatToWire (sz order) = Inr qty"
      using made px by (cases "floatToWire (sz order)") (simp_all add: orderRequestToOrderWire_def)
    obtain typeWire where tw: "orderTypeToWire (order_type order) = Inr typeWire"
      using made px qty
      by (cases "orderTypeToWire (order_type order)") (simp_all add: orderRequestToOrderWire_def)
    show ?thesis
      using orderRequestToOrderWire_Inr [OF px qty tw, of asset] made px qty tw by simp
  qed
  have keys: "map fst wire = [''a'', ''b'', ''p'', ''s'', ''r'', ''t'']
            @ (case cloid order of Present (Some given) \<Rightarrow> [''c''] | _ \<Rightarrow> [])"
    if made: "orderRequestToOrderWire order asset = Inr wire"
    using forward [OF made] by (auto split: optional.splits option.splits)
  have absent: "map_of wire ''c'' = None"
    if made: "orderRequestToOrderWire order asset = Inr wire"
      and none: "\<forall>given. cloid order \<noteq> Present (Some given)"
    using forward [OF made] none by (auto split: optional.splits option.splits)
  have backward: "\<exists>made. orderRequestToOrderWire order asset = Inr made"
    if "floatToWire (limit_px order) = Inr px" "floatToWire (sz order) = Inr qty"
      "orderTypeToWire (order_type order) = Inr typeWire"
    using orderRequestToOrderWire_Inr [OF that, of asset] by simp
  have first: "orderRequestToOrderWire order asset = Inr wire \<longrightarrow>
      (\<exists>px qty typeWire.
         floatToWire (limit_px order) = Inr px \<and> floatToWire (sz order) = Inr qty
         \<and> orderTypeToWire (order_type order) = Inr typeWire
         \<and> wire = [(''a'', WNumber asset), (''b'', WBool (is_buy order)), (''p'', WString px),
                   (''s'', WString qty), (''r'', WBool (reduce_only order)),
                   (''t'', WOrderType typeWire)]
                  @ (case cloid order of
                       Present (Some given) \<Rightarrow> [(''c'', WString (toRaw given))]
                     | _ \<Rightarrow> []))
      \<and> map fst wire = [''a'', ''b'', ''p'', ''s'', ''r'', ''t'']
            @ (case cloid order of Present (Some given) \<Rightarrow> [''c''] | _ \<Rightarrow> [])
      \<and> ((\<forall>given. cloid order \<noteq> Present (Some given)) \<longrightarrow> map_of wire ''c'' = None)"
  proof (intro impI conjI)
    assume made: "orderRequestToOrderWire order asset = Inr wire"
    show "\<exists>px qty typeWire.
         floatToWire (limit_px order) = Inr px \<and> floatToWire (sz order) = Inr qty
         \<and> orderTypeToWire (order_type order) = Inr typeWire
         \<and> wire = [(''a'', WNumber asset), (''b'', WBool (is_buy order)), (''p'', WString px),
                   (''s'', WString qty), (''r'', WBool (reduce_only order)),
                   (''t'', WOrderType typeWire)]
                  @ (case cloid order of
                       Present (Some given) \<Rightarrow> [(''c'', WString (toRaw given))]
                     | _ \<Rightarrow> [])"
      using made by (rule forward)
    show "map fst wire = [''a'', ''b'', ''p'', ''s'', ''r'', ''t'']
            @ (case cloid order of Present (Some given) \<Rightarrow> [''c''] | _ \<Rightarrow> [])"
      using made by (rule keys)
    show "map_of wire ''c'' = None" if "\<forall>given. cloid order \<noteq> Present (Some given)"
      using made that by (rule absent)
  qed
  have second: "floatToWire (limit_px order) = Inr px \<and> floatToWire (sz order) = Inr qty
        \<and> orderTypeToWire (order_type order) = Inr typeWire \<longrightarrow>
        (\<exists>made. orderRequestToOrderWire order asset = Inr made)"
    using backward by (intro impI) (elim conjE)
  from first second show ?thesis
    by (rule conjI)
qed

theorem orderRequestToOrderWire_keys_witness:
  "floatToWire (Num 90000) = Inr ''90000''
   \<and> floatToWire (Num (4611686018427388 / 2 ^ 62)) = Inr ''0.001''
   \<and> orderRequestToOrderWire
        \<lparr>coin = ''BTC'', is_buy = True, sz = Num (4611686018427388 / 2 ^ 62),
         limit_px = Num 90000,
         order_type = \<lparr>limit = Present \<lparr>tif = Gtc\<rparr>, trigger = Absent\<rparr>,
         reduce_only = False, cloid = Absent\<rparr> (Num 0) =
       Inr [(''a'', WNumber (Num 0)), (''b'', WBool True), (''p'', WString ''90000''),
            (''s'', WString ''0.001''), (''r'', WBool False),
            (''t'', WOrderType \<lparr>limit = Present \<lparr>tif = Gtc\<rparr>, trigger = Absent\<rparr>)]
   \<and> orderRequestToOrderWire
        \<lparr>coin = ''BTC'', is_buy = True, sz = Num (4611686018427388 / 2 ^ 62),
         limit_px = Num 90000,
         order_type = \<lparr>limit = Present \<lparr>tif = Gtc\<rparr>, trigger = Absent\<rparr>,
         reduce_only = False,
         cloid = Present (Some (Cloid ''0x00000000000000000000000000000001''))\<rparr> (Num 0) =
       Inr [(''a'', WNumber (Num 0)), (''b'', WBool True), (''p'', WString ''90000''),
            (''s'', WString ''0.001''), (''r'', WBool False),
            (''t'', WOrderType \<lparr>limit = Present \<lparr>tif = Gtc\<rparr>, trigger = Absent\<rparr>),
            (''c'', WString ''0x00000000000000000000000000000001'')]"
proof -
  define qty where "qty = Num (4611686018427388 / 2 ^ 62)"
  have small: "floatToWire qty = Inr ''0.001''"
    by (simp only: qty_def floatToWire_0_001)
  define plain where "plain =
    \<lparr>coin = ''BTC'', is_buy = True, sz = qty, limit_px = Num 90000,
     order_type = \<lparr>limit = Present \<lparr>tif = Gtc\<rparr>, trigger = Absent\<rparr>,
     reduce_only = False, cloid = Absent\<rparr>"
  define tagged where "tagged =
    \<lparr>coin = ''BTC'', is_buy = True, sz = qty, limit_px = Num 90000,
     order_type = \<lparr>limit = Present \<lparr>tif = Gtc\<rparr>, trigger = Absent\<rparr>,
     reduce_only = False,
     cloid = Present (Some (Cloid ''0x00000000000000000000000000000001''))\<rparr>"
  have kind: "orderTypeToWire \<lparr>limit = Present \<lparr>tif = Gtc\<rparr>, trigger = Absent\<rparr> =
      Inr \<lparr>limit = Present \<lparr>tif = Gtc\<rparr>, trigger = Absent\<rparr>"
    by (simp add: orderTypeToWire_def)
  have parts: "floatToWire (limit_px plain) = Inr ''90000''"
    "floatToWire (sz plain) = Inr ''0.001''"
    "orderTypeToWire (order_type plain) = Inr \<lparr>limit = Present \<lparr>tif = Gtc\<rparr>, trigger = Absent\<rparr>"
    "floatToWire (limit_px tagged) = Inr ''90000''"
    "floatToWire (sz tagged) = Inr ''0.001''"
    "orderTypeToWire (order_type tagged) = Inr \<lparr>limit = Present \<lparr>tif = Gtc\<rparr>, trigger = Absent\<rparr>"
    by (simp_all add: plain_def tagged_def floatToWire_90000 small kind)
  obtain wire1 where made1: "orderRequestToOrderWire plain (Num 0) = Inr wire1"
    using orderRequestToOrderWire_keys [of plain "Num 0" _ "''90000''" "''0.001''"
        "\<lparr>limit = Present \<lparr>tif = Gtc\<rparr>, trigger = Absent\<rparr>"] parts(1-3)
    by blast
  obtain wire2 where made2: "orderRequestToOrderWire tagged (Num 0) = Inr wire2"
    using orderRequestToOrderWire_keys [of tagged "Num 0" _ "''90000''" "''0.001''"
        "\<lparr>limit = Present \<lparr>tif = Gtc\<rparr>, trigger = Absent\<rparr>"] parts(4-6)
    by blast
  have "wire1 = [(''a'', WNumber (Num 0)), (''b'', WBool True), (''p'', WString ''90000''),
            (''s'', WString ''0.001''), (''r'', WBool False),
            (''t'', WOrderType \<lparr>limit = Present \<lparr>tif = Gtc\<rparr>, trigger = Absent\<rparr>)]"
    using orderRequestToOrderWire_keys [of plain "Num 0" wire1] made1 parts(1-3)
    by (auto simp: plain_def)
  moreover have "wire2 = [(''a'', WNumber (Num 0)), (''b'', WBool True), (''p'', WString ''90000''),
            (''s'', WString ''0.001''), (''r'', WBool False),
            (''t'', WOrderType \<lparr>limit = Present \<lparr>tif = Gtc\<rparr>, trigger = Absent\<rparr>),
            (''c'', WString ''0x00000000000000000000000000000001'')]"
    using orderRequestToOrderWire_keys [of tagged "Num 0" wire2] made2 parts(4-6)
    by (auto simp: tagged_def)
  ultimately show ?thesis
    using made1 made2 floatToWire_90000 small
    by (simp add: plain_def tagged_def qty_def)
qed

end
